(* ===== verification/Prelude.thy ===== *)
theory Prelude
  imports Complex_Main "HOL-Library.AList" "HOL-Library.Char_ord" "HOL-Library.List_Lexorder"
    "HOL-Library.Multiset"
begin

text \<open>
  The parts of Go that every component of the development uses.

  \<^item> A Go map is an association list with distinct keys. The list order stands for one of the
    iteration orders that \<^verbatim>\<open>range\<close> may choose, so a theorem about every such list is a
    theorem about every iteration order. \<^verbatim>\<open>m[k]\<close> is \<^const>\<open>map_of\<close>, \<^verbatim>\<open>m[k] = v\<close> is
    \<^const>\<open>AList.update\<close>, \<^verbatim>\<open>delete(m, k)\<close> is \<^const>\<open>AList.delete\<close>, \<^verbatim>\<open>len(m)\<close> is the length.
  \<^item> \<^verbatim>\<open>int\<close> and \<^verbatim>\<open>int32\<close> are integers with the wrap-around written out (\<open>wrap64\<close>,
    \<open>wrap32\<close>) wherever the code does arithmetic that can leave the range.
  \<^item> \<^verbatim>\<open>strconv.Atoi\<close> and \<^verbatim>\<open>strconv.FormatInt\<close> on 64-bit integers, with the error
    values and the clamped results that \<^verbatim>\<open>value, _ := strconv.Atoi(s)\<close> keeps.
\<close>

named_theorems gomap_simps \<open>lookup, update and delete on Go maps\<close>
named_theorems wf_intros \<open>preservation of the well-formedness invariants\<close>

section \<open>Go maps\<close>

type_synonym ('k, 'v) gomap = "('k \<times> 'v) list"

definition gomap_wf :: "('k, 'v) gomap \<Rightarrow> bool" where
  "gomap_wf m \<longleftrightarrow> distinct (map fst m)"

text \<open>\<^verbatim>\<open>m[k]\<close> on a missing key returns the zero value of the element type.\<close>

definition get_or :: "'v \<Rightarrow> ('k, 'v) gomap \<Rightarrow> 'k \<Rightarrow> 'v" where
  "get_or z m k = (case map_of m k of Some v \<Rightarrow> v | None \<Rightarrow> z)"

lemma gomap_wf_Nil [simp, wf_intros]: "gomap_wf []"
  by (simp add: gomap_wf_def)

lemma gomap_wf_Cons: "gomap_wf ((k, v) # m) \<longleftrightarrow> k \<notin> fst ` set m \<and> gomap_wf m"
  by (simp add: gomap_wf_def)

lemma gomap_wf_update [simp, wf_intros]: "gomap_wf m \<Longrightarrow> gomap_wf (AList.update k v m)"
  by (simp add: gomap_wf_def distinct_update)

lemma gomap_wf_delete [simp, wf_intros]: "gomap_wf m \<Longrightarrow> gomap_wf (AList.delete k m)"
  by (simp add: gomap_wf_def distinct_delete)

lemma gomap_wf_map [simp]: "gomap_wf (map (\<lambda>(k, v). (k, f k v)) m) \<longleftrightarrow> gomap_wf m"
proof -
  have "map fst (map (\<lambda>(k, v). (k, f k v)) m) = map fst m"
    by (induction m) auto
  then show ?thesis by (simp only: gomap_wf_def)
qed

lemma gomap_wf_filter [simp, wf_intros]: "gomap_wf m \<Longrightarrow> gomap_wf (filter P m)"
  by (induction m) (auto simp: gomap_wf_def)

lemma map_of_update [gomap_simps]:
  "map_of (AList.update k v m) k' = (if k' = k then Some v else map_of m k')"
  by (simp add: update_conv')

lemma map_of_delete [gomap_simps]:
  "map_of (AList.delete k m) k' = (if k' = k then None else map_of m k')"
  by (simp add: delete_conv')

lemma get_or_update [gomap_simps]:
  "get_or z (AList.update k v m) k' = (if k' = k then v else get_or z m k')"
  by (simp add: get_or_def update_conv')

lemma get_or_delete [gomap_simps]:
  "get_or z (AList.delete k m) k' = (if k' = k then z else get_or z m k')"
  by (simp add: get_or_def delete_conv')

lemma get_or_Nil [gomap_simps]: "get_or z [] k = z"
  by (simp add: get_or_def)

lemma in_gomap_iff: "gomap_wf m \<Longrightarrow> (k, v) \<in> set m \<longleftrightarrow> map_of m k = Some v"
  by (auto simp: gomap_wf_def map_of_eq_Some_iff)

lemma map_of_fst_set: "map_of m k = Some v \<Longrightarrow> k \<in> fst ` set m"
  by (metis map_of_SomeD fst_conv image_eqI)

lemma keys_iff_map_of: "k \<in> fst ` set m \<longleftrightarrow> (\<exists>v. map_of m k = Some v)"
  by (metis map_of_eq_None_iff not_None_eq)

lemma map_of_map_values:
  "map_of (map (\<lambda>(k, v). (k, f k v)) m) k = map_option (f k) (map_of m k)"
  by (induction m) auto

lemma map_of_filter_key:
  "gomap_wf m \<Longrightarrow> map_of (filter (\<lambda>(k, v). P k v) m) k =
     (case map_of m k of Some v \<Rightarrow> if P k v then Some v else None | None \<Rightarrow> None)"
  by (induction m) (auto simp: gomap_wf_Cons keys_iff_map_of split: option.splits)

text \<open>Two maps with the same lookups have the same entries, in some order.\<close>

lemma gomap_same_entries:
  "gomap_wf m \<Longrightarrow> gomap_wf m' \<Longrightarrow> map_of m = map_of m' \<Longrightarrow> set m = set m'"
  by (metis in_gomap_iff subrelI subset_antisym)

lemma gomap_ball_map_of:
  "gomap_wf m \<Longrightarrow> (\<forall>(k, v) \<in> set m. P k v) \<longleftrightarrow> (\<forall>k v. map_of m k = Some v \<longrightarrow> P k v)"
  by (auto simp: in_gomap_iff)

lemma gomap_bex_map_of:
  "gomap_wf m \<Longrightarrow> (\<exists>(k, v) \<in> set m. P k v) \<longleftrightarrow> (\<exists>k v. map_of m k = Some v \<and> P k v)"
  using gomap_ball_map_of [of m "\<lambda>k v. \<not> P k v"] by auto

lemma keys_update: "fst ` set (AList.update k v m) = insert k (fst ` set m)"
  by (simp add: dom_update)

lemma ex_lookup_update:
  "(\<exists>k c. (if k = key then Some x else m k) = Some c \<and> P c) \<longleftrightarrow>
     P x \<or> (\<exists>k c. k \<noteq> key \<and> m k = Some c \<and> P c)"
  by (metis option.inject)

text \<open>A \<^verbatim>\<open>range\<close> loop whose body for key \<open>k\<close> changes another map at \<open>k\<close> only.\<close>

lemma map_of_fold_pointwise:
  assumes "gomap_wf xs"
    and "\<And>k v m k'. (k, v) \<in> set xs \<Longrightarrow>
      map_of (f k v m) k' = (if k' = k then g k v (map_of m k) else map_of m k')"
  shows "map_of (fold (\<lambda>(k, v) m. f k v m) xs m) k =
    (case map_of xs k of None \<Rightarrow> map_of m k | Some v \<Rightarrow> g k v (map_of m k))"
  using assms
proof (induction xs arbitrary: m)
  case (Cons x xs)
  obtain n v where x: "x = (n, v)" by (cases x)
  have wf: "gomap_wf xs" "map_of xs n = None"
    using Cons.prems(1) by (auto simp: x gomap_wf_Cons map_of_eq_None_iff)
  have "map_of (fold (\<lambda>(k, v) m. f k v m) xs (f n v m)) k =
      (case map_of xs k of None \<Rightarrow> map_of (f n v m) k | Some v' \<Rightarrow> g k v' (map_of (f n v m) k))"
    using Cons.IH [OF wf(1)] Cons.prems(2) by (simp add: x)
  then show ?case
    using Cons.prems(2) [of n v m] wf(2) by (auto simp: x split: option.splits)
qed simp

lemma fold_gomap_wf:
  assumes "gomap_wf m" "\<And>k v m. gomap_wf m \<Longrightarrow> gomap_wf (f k v m)"
  shows "gomap_wf (fold (\<lambda>(k, v) m. f k v m) xs m)"
  using assms(1) by (induction xs arbitrary: m) (auto simp: assms(2))

lemma gomap_Nil_iff: "m = [] \<longleftrightarrow> (\<forall>k. map_of m k = None)"
  by (cases m) (auto split: if_splits)

lemma gomap_length_card: "gomap_wf m \<Longrightarrow> length m = card (fst ` set m)"
  by (metis distinct_card gomap_wf_def length_map list.set_map)

section \<open>Machine integers\<close>

definition MaxInt64 :: int where "MaxInt64 = 2 ^ 63 - 1"
definition MinInt64 :: int where "MinInt64 = - (2 ^ 63)"
definition MaxInt32 :: int where "MaxInt32 = 2 ^ 31 - 1"

definition wrap64 :: "int \<Rightarrow> int" where
  "wrap64 x = (x + 2 ^ 63) mod 2 ^ 64 - 2 ^ 63"

definition wrap32 :: "int \<Rightarrow> int" where
  "wrap32 x = (x + 2 ^ 31) mod 2 ^ 32 - 2 ^ 31"

definition int64 :: "int \<Rightarrow> bool" where
  "int64 x \<longleftrightarrow> MinInt64 \<le> x \<and> x \<le> MaxInt64"

lemma wrap64_id [simp]: "int64 x \<Longrightarrow> wrap64 x = x"
  by (simp add: wrap64_def int64_def MinInt64_def MaxInt64_def)

lemma wrap64_int64 [simp]: "int64 (wrap64 x)"
proof -
  have "0 \<le> (x + 2 ^ 63) mod 2 ^ 64" "(x + 2 ^ 63) mod 2 ^ 64 < 2 ^ 64"
    by simp_all
  then show ?thesis by (simp add: wrap64_def int64_def MinInt64_def MaxInt64_def)
qed

lemma wrap32_id: "- (2 ^ 31) \<le> x \<Longrightarrow> x \<le> MaxInt32 \<Longrightarrow> wrap32 x = x"
  by (simp add: wrap32_def MaxInt32_def)

section \<open>Decimal integers as strings\<close>

datatype num_error = ErrSyntax | ErrRange

definition is_digit :: "char \<Rightarrow> bool" where
  "is_digit c \<longleftrightarrow> 48 \<le> (of_char c :: int) \<and> (of_char c :: int) \<le> 57"

text \<open>
  The digit loop of \<^verbatim>\<open>strconv.ParseUint\<close> in base 10: it stops at the first character that is
  not a digit (\<open>ErrSyntax\<close>) or at the first digit that leaves the range of \<^verbatim>\<open>uint64\<close>
  (\<open>ErrRange\<close>), whichever comes first.
\<close>

fun parse_digits :: "int \<Rightarrow> string \<Rightarrow> num_error + int" where
  "parse_digits n [] = Inr n"
| "parse_digits n (c # cs) =
     (if \<not> is_digit c then Inl ErrSyntax
      else let n' = 10 * n + (of_char c - 48)
           in if n' > 2 ^ 64 - 1 then Inl ErrRange else parse_digits n' cs)"

definition parse_uint :: "string \<Rightarrow> num_error + int" where
  "parse_uint s = (if s = [] then Inl ErrSyntax else parse_digits 0 s)"

text \<open>
  \<^verbatim>\<open>strconv.Atoi\<close>: the value and the error. A syntax error gives 0, a range error gives the
  nearest bound.
\<close>

definition atoi :: "string \<Rightarrow> int \<times> num_error option" where
  "atoi s =
     (let neg = (case s of c # _ \<Rightarrow> c = CHR ''-'' | [] \<Rightarrow> False);
          body = (case s of c # cs \<Rightarrow> if c = CHR ''-'' \<or> c = CHR ''+'' then cs else s | [] \<Rightarrow> s)
      in case parse_uint body of
           Inl ErrSyntax \<Rightarrow> (0, Some ErrSyntax)
         | Inl ErrRange \<Rightarrow> (if neg then MinInt64 else MaxInt64, Some ErrRange)
         | Inr un \<Rightarrow>
             if \<not> neg \<and> un \<ge> 2 ^ 63 then (MaxInt64, Some ErrRange)
             else if neg \<and> un > 2 ^ 63 then (MinInt64, Some ErrRange)
             else (if neg then - un else un, None))"

definition digit_char :: "nat \<Rightarrow> char" where
  "digit_char d = char_of (48 + d)"

fun show_nat :: "nat \<Rightarrow> string" where
  "show_nat n = (if n < 10 then [digit_char n] else show_nat (n div 10) @ [digit_char (n mod 10)])"

declare show_nat.simps [simp del]

text \<open>\<^verbatim>\<open>strconv.FormatInt(i, 10)\<close> and \<^verbatim>\<open>strconv.Itoa\<close>.\<close>

definition format_int :: "int \<Rightarrow> string" where
  "format_int i = (if i < 0 then CHR ''-'' # show_nat (nat (- i)) else show_nat (nat i))"

lemma of_char_digit [simp]: "d < 10 \<Longrightarrow> (of_char (digit_char d) :: int) = 48 + int d"
proof -
  assume "d < 10"
  then have "(of_char (char_of (48 + d)) :: nat) = 48 + d" by simp
  then have "int (of_char (char_of (48 + d))) = 48 + int d" by simp
  then show ?thesis by (simp only: digit_char_def of_nat_of_char)
qed

lemma is_digit_digit_char [simp]: "d < 10 \<Longrightarrow> is_digit (digit_char d)"
  by (simp add: is_digit_def)

lemma show_nat_not_Nil [simp]: "show_nat n \<noteq> []"
  by (subst show_nat.simps) simp

lemma show_nat_digits: "c \<in> set (show_nat n) \<Longrightarrow> is_digit c"
proof (induction n rule: show_nat.induct)
  case (1 n)
  then show ?case
    by (cases "n < 10") (auto simp: show_nat.simps [of n])
qed

text \<open>A digit string reads its prefix first: the loop on an appended digit.\<close>

lemma parse_digits_append:
  "parse_digits a s = Inr n \<Longrightarrow> is_digit c \<Longrightarrow> 10 * n + (of_char c - 48) \<le> 2 ^ 64 - 1 \<Longrightarrow>
     parse_digits a (s @ [c]) = Inr (10 * n + (of_char c - 48))"
  by (induction s arbitrary: a) (auto simp: Let_def split: if_splits)

lemma parse_show_nat: "int n \<le> 2 ^ 64 - 1 \<Longrightarrow> parse_digits 0 (show_nat n) = Inr (int n)"
proof (induction n rule: show_nat.induct)
  case (1 n)
  show ?case
  proof (cases "n < 10")
    case True
    then show ?thesis by (simp add: show_nat.simps [of n] Let_def)
  next
    case False
    have small: "int (n div 10) \<le> 2 ^ 64 - 1"
      using "1.prems" by (simp add: zdiv_int)
    have "parse_digits 0 (show_nat (n div 10)) = Inr (int (n div 10))"
      using "1.IH" False small by simp
    moreover have "10 * int (n div 10) + int (n mod 10) = int n"
      by (metis mult_div_mod_eq of_nat_add of_nat_mult of_nat_numeral)
    ultimately have "parse_digits 0 (show_nat (n div 10) @ [digit_char (n mod 10)]) = Inr (int n)"
      using parse_digits_append [of 0 "show_nat (n div 10)" "int (n div 10)" "digit_char (n mod 10)"]
        "1.prems" by simp
    with False show ?thesis by (simp add: show_nat.simps [of n])
  qed
qed

lemma show_nat_no_sign:
  "\<exists>c cs. show_nat n = c # cs \<and> c \<noteq> CHR ''-'' \<and> c \<noteq> CHR ''+''"
proof -
  obtain c cs where s: "show_nat n = c # cs"
    by (metis show_nat_not_Nil neq_Nil_conv)
  then have "is_digit c" using show_nat_digits [of c n] by simp
  then have "c \<noteq> CHR ''-''" "c \<noteq> CHR ''+''" by (auto simp: is_digit_def)
  with s show ?thesis by blast
qed

text \<open>Printing an \<^verbatim>\<open>int\<close> and parsing it back is the identity on 64-bit integers.\<close>

lemma atoi_format_int [simp]:
  assumes "int64 i" shows "atoi (format_int i) = (i, None)"
proof (cases "i < 0")
  case True
  then have "parse_digits 0 (show_nat (nat (- i))) = Inr (- i)"
    using assms parse_show_nat [of "nat (- i)"] by (simp add: int64_def MinInt64_def)
  with True assms show ?thesis
    by (simp add: atoi_def format_int_def parse_uint_def Let_def int64_def MinInt64_def)
next
  case False
  obtain c cs where s: "show_nat (nat i) = c # cs" and c: "c \<noteq> CHR ''-''" "c \<noteq> CHR ''+''"
    using show_nat_no_sign [of "nat i"] by blast
  have "parse_digits 0 (show_nat (nat i)) = Inr i"
    using assms False parse_show_nat [of "nat i"] by (simp add: int64_def MaxInt64_def)
  then have p: "parse_digits 0 (c # cs) = Inr i" by (simp only: s)
  have f: "format_int i = c # cs" using False s by (simp add: format_int_def)
  show ?thesis
    unfolding f using False assms p c
    by (simp add: atoi_def parse_uint_def Let_def int64_def MaxInt64_def del: parse_digits.simps)
qed

lemma parse_digits_nonneg: "0 \<le> a \<Longrightarrow> parse_digits a s = Inr n \<Longrightarrow> 0 \<le> n"
proof (induction s arbitrary: a)
  case (Cons c cs)
  let ?a = "10 * a + (of_char c - 48)"
  from Cons.prems(2) have digit: "is_digit c"
    by (auto split: if_split_asm)
  from Cons.prems(2) digit have "parse_digits ?a cs = Inr n"
    by (auto simp: Let_def split: if_split_asm)
  moreover from Cons.prems(1) digit have "0 \<le> ?a" by (simp add: is_digit_def)
  ultimately show ?case using Cons.IH by blast
qed simp

lemma parse_uint_nonneg: "parse_uint s = Inr n \<Longrightarrow> 0 \<le> n"
  using parse_digits_nonneg [of 0 s n] by (auto simp: parse_uint_def split: if_splits)

lemma atoi_int64: "int64 (fst (atoi s))"
proof -
  define neg where "neg = (case s of c # _ \<Rightarrow> c = CHR ''-'' | [] \<Rightarrow> False)"
  define body where
    "body = (case s of c # cs \<Rightarrow> if c = CHR ''-'' \<or> c = CHR ''+'' then cs else s | [] \<Rightarrow> s)"
  show ?thesis
  proof (cases "parse_uint body")
    case (Inl e)
    then show ?thesis
      by (cases e) (simp_all add: atoi_def int64_def MinInt64_def MaxInt64_def
          flip: neg_def body_def)
  next
    case (Inr n)
    then have "0 \<le> n" by (rule parse_uint_nonneg)
    with Inr show ?thesis
      by (simp add: atoi_def int64_def MinInt64_def MaxInt64_def flip: neg_def body_def)
  qed
qed

section \<open>Strings\<close>

text \<open>\<^verbatim>\<open>strings.HasSuffix\<close>, \<^verbatim>\<open>strings.HasPrefix\<close>, \<^verbatim>\<open>strings.Contains\<close>, and the two parts of
  \<^verbatim>\<open>strings.Cut(s, sep)\<close> for a one-character separator.\<close>

definition has_prefix :: "string \<Rightarrow> string \<Rightarrow> bool" where
  "has_prefix s p \<longleftrightarrow> take (length p) s = p"

definition has_suffix :: "string \<Rightarrow> string \<Rightarrow> bool" where
  "has_suffix s p \<longleftrightarrow> length p \<le> length s \<and> drop (length s - length p) s = p"

definition contains_str :: "string \<Rightarrow> string \<Rightarrow> bool" where
  "contains_str s p \<longleftrightarrow> list_ex (\<lambda>i. has_prefix (drop i s) p) [0..<Suc (length s)]"

definition cut_before :: "char \<Rightarrow> string \<Rightarrow> string" where
  "cut_before c s = takeWhile (\<lambda>x. x \<noteq> c) s"

definition cut_after :: "char \<Rightarrow> string \<Rightarrow> string" where
  "cut_after c s = drop 1 (dropWhile (\<lambda>x. x \<noteq> c) s)"

lemma cut_before_append: "c \<notin> set a \<Longrightarrow> cut_before c (a @ c # b) = a"
  unfolding cut_before_def by (induction a) auto

lemma cut_after_append: "c \<notin> set a \<Longrightarrow> cut_after c (a @ c # b) = b"
  unfolding cut_after_def by (induction a) auto

lemma has_suffix_append [simp]: "has_suffix (a @ b) b"
  by (simp add: has_suffix_def)

lemma has_suffix_iff: "has_suffix s p \<longleftrightarrow> (\<exists>a. s = a @ p)"
  by (metis append_take_drop_id has_suffix_append has_suffix_def)

lemma has_prefix_iff: "has_prefix s p \<longleftrightarrow> (\<exists>b. s = p @ b)"
  by (metis append_eq_conv_conj append_take_drop_id has_prefix_def)

lemma contains_str_iff: "contains_str s p \<longleftrightarrow> (\<exists>a b. s = a @ p @ b)"
proof
  assume "contains_str s p"
  then obtain i where "has_prefix (drop i s) p"
    unfolding contains_str_def list_ex_iff by blast
  then obtain b where "drop i s = p @ b" by (auto simp: has_prefix_iff)
  then show "\<exists>a b. s = a @ p @ b" by (metis append_take_drop_id)
next
  assume "\<exists>a b. s = a @ p @ b"
  then obtain a b where "s = a @ p @ b" by blast
  then have "length a \<in> set [0..<Suc (length s)]" "has_prefix (drop (length a) s) p"
    by (auto simp: has_prefix_def)
  then show "contains_str s p" by (auto simp: contains_str_def list_ex_iff)
qed

section \<open>Loops over lists\<close>

text \<open>A fold that keeps a predicate: the invariant rule of a \<^verbatim>\<open>for range\<close> loop.\<close>

lemma fold_invariant_set:
  assumes "P s" and "\<And>x s. x \<in> set xs \<Longrightarrow> P s \<Longrightarrow> P (f x s)"
  shows "P (fold f xs s)"
  using assms by (induction xs arbitrary: s) auto

end
