(* ===== verification/Labels.thy ===== *)
theory Labels
  imports Prelude
begin

text \<open>
  \<^verbatim>\<open>pkg/apis/v1/labels.go\<close>: the label keys the scheduler treats specially, the aliases it
  normalises, and the check that a label may be set by a user.

  The keys of \<^verbatim>\<open>k8s.io/api/core/v1\<close> are written with their documented values. The package
  variables \<^verbatim>\<open>WellKnownLabels\<close>, \<^verbatim>\<open>NormalizedLabels\<close> and \<^verbatim>\<open>NormalizedLabelValues\<close> are constants
  here, at the values the repository gives them (a cloud provider may extend them at start-up).
\<close>

definition LabelTopologyZone :: string where
  "LabelTopologyZone = ''topology.kubernetes.io/zone''"
definition LabelTopologyRegion :: string where
  "LabelTopologyRegion = ''topology.kubernetes.io/region''"
definition LabelInstanceTypeStable :: string where
  "LabelInstanceTypeStable = ''node.kubernetes.io/instance-type''"
definition LabelArchStable :: string where
  "LabelArchStable = ''kubernetes.io/arch''"
definition LabelOSStable :: string where
  "LabelOSStable = ''kubernetes.io/os''"
definition LabelHostname :: string where
  "LabelHostname = ''kubernetes.io/hostname''"
definition LabelWindowsBuild :: string where
  "LabelWindowsBuild = ''node.kubernetes.io/windows-build''"
definition LabelInstanceType :: string where
  "LabelInstanceType = ''beta.kubernetes.io/instance-type''"
definition LabelFailureDomainBetaZone :: string where
  "LabelFailureDomainBetaZone = ''failure-domain.beta.kubernetes.io/zone''"
definition LabelFailureDomainBetaRegion :: string where
  "LabelFailureDomainBetaRegion = ''failure-domain.beta.kubernetes.io/region''"

definition Group :: string where "Group = ''karpenter.sh''"
definition NodePoolLabelKey :: string where "NodePoolLabelKey = Group @ ''/nodepool''"
definition CapacityTypeLabelKey :: string where "CapacityTypeLabelKey = Group @ ''/capacity-type''"

definition CapacityTypeSpot :: string where "CapacityTypeSpot = ''spot''"
definition CapacityTypeOnDemand :: string where "CapacityTypeOnDemand = ''on-demand''"
definition CapacityTypeReserved :: string where "CapacityTypeReserved = ''reserved''"

lemmas label_key_defs =
  LabelTopologyZone_def LabelTopologyRegion_def LabelInstanceTypeStable_def LabelArchStable_def
  LabelOSStable_def LabelHostname_def LabelWindowsBuild_def LabelInstanceType_def
  LabelFailureDomainBetaZone_def LabelFailureDomainBetaRegion_def Group_def
  NodePoolLabelKey_def CapacityTypeLabelKey_def

lemmas capacity_type_defs = CapacityTypeSpot_def CapacityTypeOnDemand_def CapacityTypeReserved_def

definition RestrictedLabelDomains :: "string list" where
  "RestrictedLabelDomains = [Group]"

definition WellKnownLabels :: "string set" where
  "WellKnownLabels =
     {NodePoolLabelKey, LabelTopologyZone, LabelTopologyRegion, LabelInstanceTypeStable,
      LabelArchStable, LabelOSStable, CapacityTypeLabelKey, LabelWindowsBuild}"

definition WellKnownValuesForRequirements :: "(string, string set) gomap" where
  "WellKnownValuesForRequirements =
     [(CapacityTypeLabelKey, {CapacityTypeOnDemand, CapacityTypeSpot, CapacityTypeReserved})]"

definition RestrictedLabels :: "string set" where
  "RestrictedLabels = {LabelHostname}"

definition NormalizedLabels :: "(string, string) gomap" where
  "NormalizedLabels =
     [(LabelFailureDomainBetaZone, LabelTopologyZone),
      (''beta.kubernetes.io/arch'', LabelArchStable),
      (''beta.kubernetes.io/os'', LabelOSStable),
      (LabelInstanceType, LabelInstanceTypeStable),
      (LabelFailureDomainBetaRegion, LabelTopologyRegion)]"

definition NormalizedLabelValues :: "(string, (string, string) gomap) gomap" where
  "NormalizedLabelValues = []"

definition GetLabelDomain :: "string \<Rightarrow> string" where
  "GetLabelDomain key = (if CHR ''/'' \<in> set key then cut_before (CHR ''/'') key else [])"

text \<open>\<^verbatim>\<open>IsRestrictedLabel\<close> returns an error (here \<open>True\<close>) or nil; the loop returns at the first
  restricted domain.\<close>

definition IsRestrictedLabel :: "string \<Rightarrow> bool" where
  "IsRestrictedLabel key =
     (if key \<in> WellKnownLabels then False
      else if list_ex (\<lambda>d. GetLabelDomain key = d \<or> has_suffix (GetLabelDomain key) (CHR ''.'' # d))
                RestrictedLabelDomains then True
      else key \<in> RestrictedLabels)"

text \<open>\<^verbatim>\<open>if normalized, ok := v1.NormalizedLabels[key]; ok { key = normalized }\<close>\<close>

definition normalize_key :: "string \<Rightarrow> string" where
  "normalize_key key = get_or key NormalizedLabels key"

text \<open>The value normalisation for an already normalised key, applied to each value.\<close>

definition normalize_values :: "string \<Rightarrow> string list \<Rightarrow> string list" where
  "normalize_values key vs =
     (case map_of NormalizedLabelValues key of
        Some valueMap \<Rightarrow> if length valueMap > 0 then map (\<lambda>v. get_or v valueMap v) vs else vs
      | None \<Rightarrow> vs)"

text \<open>No normalised key is itself an alias, so normalisation is idempotent.\<close>

lemma normalize_key_idem [simp]: "normalize_key (normalize_key k) = normalize_key k"
  by (simp add: normalize_key_def get_or_def NormalizedLabels_def label_key_defs)

lemma normalize_values_id [simp]: "normalize_values k vs = vs"
  by (simp add: normalize_values_def NormalizedLabelValues_def)

lemma normalize_key_well_known: "k \<in> WellKnownLabels \<Longrightarrow> normalize_key k = k"
  by (auto simp: WellKnownLabels_def normalize_key_def get_or_def NormalizedLabels_def label_key_defs)

lemma normalize_key_hostname [simp]: "normalize_key LabelHostname = LabelHostname"
  by (simp add: normalize_key_def get_or_def NormalizedLabels_def label_key_defs)

lemma restricted_karpenter_label:
  "key = Group @ ''/'' @ rest \<Longrightarrow> key \<notin> WellKnownLabels \<Longrightarrow> IsRestrictedLabel key"
  by (simp add: IsRestrictedLabel_def GetLabelDomain_def RestrictedLabelDomains_def cut_before_def
      Group_def)

end
