(* ===== verification/Requirement.thy ===== *)
theory Requirement
  imports Labels
begin

text \<open>
  \<^verbatim>\<open>pkg/scheduling/requirement.go\<close>: a constraint on the values of one label key. A requirement
  is a finite set of values or the complement of one, with optional inclusive integer bounds.

  The theory gives the operations of the file, the well-formedness invariant of the values the
  constructors build, the meaning of a requirement as the set of label values it allows, and
  the interface \<open>constraint\<close> that the requirement maps of \<open>Requirements\<close> rely on.

  A panic of the source is \<open>None\<close>. \<^verbatim>\<open>rand.Intn\<close> and the first element of an unordered set are
  parameters of \<open>Any\<close>.
\<close>

section \<open>Data\<close>

datatype node_selector_operator =
  OpIn | OpNotIn | OpExists | OpDoesNotExist | OpGt | OpLt | OpGte | OpLte | OpUnknown string

record requirement =
  Key :: string
  complement :: bool
  valueSet :: "string set"
  gte :: "int option"
  lte :: "int option"
  minValues :: "int option"
  asString :: "string option"

text \<open>\<^verbatim>\<open>NodeSelectorRequirementWithMinValues\<close> of the API: the wire form of a requirement.\<close>

record node_selector_requirement =
  nsrKey :: string
  nsrOperator :: node_selector_operator
  nsrValues :: "string list"
  nsrMinValues :: "int option"

section \<open>Construction\<close>

definition newDoesNotExist :: "string \<Rightarrow> int option \<Rightarrow> requirement" where
  "newDoesNotExist key mv =
     \<lparr> Key = normalize_key key, complement = False, valueSet = {}, gte = None, lte = None,
       minValues = mv, asString = None \<rparr>"

text \<open>
  \<^verbatim>\<open>NewRequirementWithFlexibility\<close>. The numeric operators index \<^verbatim>\<open>values[0]\<close>, which panics on an
  empty list; the error of \<^verbatim>\<open>Atoi\<close> is dropped and its value kept; \<^verbatim>\<open>value++\<close> and \<^verbatim>\<open>value--\<close> are
  64-bit.
\<close>

definition NewRequirementWithFlexibility ::
  "string \<Rightarrow> node_selector_operator \<Rightarrow> int option \<Rightarrow> string list \<Rightarrow> requirement option" where
  "NewRequirementWithFlexibility key0 operator mv values0 =
     (let key = normalize_key key0;
          values = normalize_values key values0;
          r = \<lparr> Key = key, complement = True, valueSet = {}, gte = None, lte = None,
                minValues = mv, asString = None \<rparr>
      in case operator of
           OpIn \<Rightarrow> Some (r \<lparr> complement := False, valueSet := set values \<rparr>)
         | OpDoesNotExist \<Rightarrow> Some (r \<lparr> complement := False \<rparr>)
         | OpNotIn \<Rightarrow> Some (r \<lparr> valueSet := set values \<rparr>)
         | OpExists \<Rightarrow> Some r
         | OpUnknown _ \<Rightarrow> Some r
         | OpGt \<Rightarrow>
             (case values of [] \<Rightarrow> None
              | v # _ \<Rightarrow>
                  let n = fst (atoi v)
                  in if n = MaxInt64 then Some (newDoesNotExist key None)
                     else Some (r \<lparr> gte := Some (wrap64 (n + 1)) \<rparr>))
         | OpLt \<Rightarrow>
             (case values of [] \<Rightarrow> None
              | v # _ \<Rightarrow> Some (r \<lparr> lte := Some (wrap64 (fst (atoi v) - 1)) \<rparr>))
         | OpGte \<Rightarrow>
             (case values of [] \<Rightarrow> None | v # _ \<Rightarrow> Some (r \<lparr> gte := Some (fst (atoi v)) \<rparr>))
         | OpLte \<Rightarrow>
             (case values of [] \<Rightarrow> None | v # _ \<Rightarrow> Some (r \<lparr> lte := Some (fst (atoi v)) \<rparr>)))"

definition NewRequirement ::
  "string \<Rightarrow> node_selector_operator \<Rightarrow> string list \<Rightarrow> requirement option" where
  "NewRequirement key operator values = NewRequirementWithFlexibility key operator None values"

text \<open>The calls of \<^verbatim>\<open>NewRequirement\<close> with an operator that cannot panic.\<close>

definition reqIn :: "string \<Rightarrow> string list \<Rightarrow> requirement" where
  "reqIn key values = the (NewRequirement key OpIn values)"

definition reqExists :: "string \<Rightarrow> requirement" where
  "reqExists key = the (NewRequirement key OpExists [])"

definition reqDoesNotExist :: "string \<Rightarrow> requirement" where
  "reqDoesNotExist key = the (NewRequirement key OpDoesNotExist [])"

section \<open>Bounds\<close>

definition withinBounds :: "string \<Rightarrow> int option \<Rightarrow> int option \<Rightarrow> bool" where
  "withinBounds s g l =
     (if g = None \<and> l = None then True
      else case atoi s of
             (_, Some _) \<Rightarrow> False
           | (val, None) \<Rightarrow>
               if (case g of Some b \<Rightarrow> val < b | None \<Rightarrow> False) then False
               else if (case l of Some b \<Rightarrow> val > b | None \<Rightarrow> False) then False
               else True)"

fun minIntPtr :: "int option \<Rightarrow> int option \<Rightarrow> int option" where
  "minIntPtr None b = b"
| "minIntPtr a None = a"
| "minIntPtr (Some a) (Some b) = (if a < b then Some a else Some b)"

fun maxIntPtr :: "int option \<Rightarrow> int option \<Rightarrow> int option" where
  "maxIntPtr None b = b"
| "maxIntPtr a None = a"
| "maxIntPtr (Some a) (Some b) = (if a > b then Some a else Some b)"

text \<open>\<^verbatim>\<open>gte != nil && lte != nil && *gte > *lte\<close>\<close>

definition crossed :: "int option \<Rightarrow> int option \<Rightarrow> bool" where
  "crossed g l = (case (g, l) of (Some a, Some b) \<Rightarrow> a > b | _ \<Rightarrow> False)"

section \<open>Operations\<close>

definition Has :: "requirement \<Rightarrow> string \<Rightarrow> bool" where
  "Has r v =
     (if complement r then v \<notin> valueSet r \<and> withinBounds v (gte r) (lte r)
      else v \<in> valueSet r \<and> withinBounds v (gte r) (lte r))"

definition Len :: "requirement \<Rightarrow> int" where
  "Len r = (if complement r then MaxInt64 - int (card (valueSet r)) else int (card (valueSet r)))"

definition Operator :: "requirement \<Rightarrow> node_selector_operator" where
  "Operator r =
     (if complement r then (if Len r < MaxInt64 then OpNotIn else OpExists)
      else if Len r > 0 then OpIn else OpDoesNotExist)"

definition Intersection :: "requirement \<Rightarrow> requirement \<Rightarrow> requirement" where
  "Intersection r requirement =
     (let compl = complement r \<and> complement requirement;
          g = maxIntPtr (gte r) (gte requirement);
          l = minIntPtr (lte r) (lte requirement);
          mv = maxIntPtr (minValues r) (minValues requirement)
      in if crossed g l then newDoesNotExist (Key r) mv
         else
           let vs = (if complement r \<and> complement requirement
                     then valueSet r \<union> valueSet requirement
                     else if complement r \<and> \<not> complement requirement
                     then valueSet requirement - valueSet r
                     else if \<not> complement r \<and> complement requirement
                     then valueSet r - valueSet requirement
                     else valueSet r \<inter> valueSet requirement);
               kept = Set.filter (\<lambda>v. withinBounds v g l) vs
           in \<lparr> Key = Key r, complement = compl, valueSet = kept,
                gte = (if compl then g else None), lte = (if compl then l else None),
                minValues = mv, asString = None \<rparr>)"

definition HasIntersection :: "requirement \<Rightarrow> requirement \<Rightarrow> bool" where
  "HasIntersection r requirement =
     (let g = maxIntPtr (gte r) (gte requirement);
          l = minIntPtr (lte r) (lte requirement)
      in if crossed g l then False
         else if complement r \<and> complement requirement then True
         else if complement r \<and> \<not> complement requirement
         then (\<exists>v \<in> valueSet requirement. v \<notin> valueSet r \<and> withinBounds v g l)
         else if \<not> complement r \<and> complement requirement
         then (\<exists>v \<in> valueSet r. v \<notin> valueSet requirement \<and> withinBounds v g l)
         else (\<exists>v \<in> valueSet r. v \<in> valueSet requirement \<and> withinBounds v g l))"

text \<open>
  \<^verbatim>\<open>Any\<close>: \<open>pick\<close> is the first element of \<^verbatim>\<open>UnsortedList\<close>, \<open>intn\<close> is \<^verbatim>\<open>rand.Intn\<close>, which panics on
  an argument that is not positive. The arithmetic on the bounds is 64-bit.
\<close>

definition Any ::
  "(string set \<Rightarrow> string) \<Rightarrow> (int \<Rightarrow> int) \<Rightarrow> requirement \<Rightarrow> string option" where
  "Any pick intn r =
     (if Operator r = OpIn then Some (pick (valueSet r))
      else if Operator r = OpNotIn \<or> Operator r = OpExists then
        let mn = (case gte r of Some b \<Rightarrow> b | None \<Rightarrow> 0);
            mx = (case lte r of Some b \<Rightarrow> wrap64 (b + 1) | None \<Rightarrow> MaxInt64);
            n = wrap64 (mx - mn)
        in if n \<le> 0 then None else Some (format_int (wrap64 (intn n + mn)))
      else Some [])"

definition Insert :: "string list \<Rightarrow> requirement \<Rightarrow> requirement" where
  "Insert items r = r \<lparr> valueSet := valueSet r \<union> set items, asString := None \<rparr>"

definition SetMinValues :: "int \<Rightarrow> requirement \<Rightarrow> requirement" where
  "SetMinValues n r = r \<lparr> minValues := Some n, asString := None \<rparr>"

text \<open>\<^verbatim>\<open>DeepCopyInto\<close> copies every field except the cached string.\<close>

definition DeepCopy :: "requirement \<Rightarrow> requirement" where
  "DeepCopy r =
     \<lparr> Key = Key r, complement = complement r, valueSet = valueSet r, gte = gte r, lte = lte r,
       minValues = minValues r, asString = None \<rparr>"

section \<open>Printing\<close>

definition BoundedNodeSelectorRequirements ::
  "requirement \<Rightarrow> node_selector_requirement list option" where
  "BoundedNodeSelectorRequirements r =
     (case (gte r, lte r) of
        (Some g, Some l) \<Rightarrow>
          Some [\<lparr> nsrKey = Key r, nsrOperator = OpGte, nsrValues = [format_int g],
                  nsrMinValues = minValues r \<rparr>,
                \<lparr> nsrKey = Key r, nsrOperator = OpLte, nsrValues = [format_int l],
                  nsrMinValues = minValues r \<rparr>]
      | _ \<Rightarrow> None)"

definition NodeSelectorRequirement :: "requirement \<Rightarrow> node_selector_requirement" where
  "NodeSelectorRequirement r =
     (let mk = (\<lambda>op vs. \<lparr> nsrKey = Key r, nsrOperator = op, nsrValues = vs,
                          nsrMinValues = minValues r \<rparr>)
      in case gte r of
           Some g \<Rightarrow> mk OpGte [format_int g]
         | None \<Rightarrow>
             (case lte r of
                Some l \<Rightarrow> mk OpLte [format_int l]
              | None \<Rightarrow>
                  if complement r
                  then (if card (valueSet r) > 0
                        then mk OpNotIn (sorted_list_of_set (valueSet r)) else mk OpExists [])
                  else (if card (valueSet r) > 0
                        then mk OpIn (sorted_list_of_set (valueSet r)) else mk OpDoesNotExist [])))"

fun operator_string :: "node_selector_operator \<Rightarrow> string" where
  "operator_string OpIn = ''In''"
| "operator_string OpNotIn = ''NotIn''"
| "operator_string OpExists = ''Exists''"
| "operator_string OpDoesNotExist = ''DoesNotExist''"
| "operator_string OpGt = ''Gt''"
| "operator_string OpLt = ''Lt''"
| "operator_string OpGte = ''Gte''"
| "operator_string OpLte = ''Lte''"
| "operator_string (OpUnknown s) = s"

fun join_strings :: "string \<Rightarrow> string list \<Rightarrow> string" where
  "join_strings sep [] = []"
| "join_strings sep [x] = x"
| "join_strings sep (x # y # zs) = x @ sep @ join_strings sep (y # zs)"

text \<open>The text that \<^verbatim>\<open>String\<close> computes when nothing is cached.\<close>

definition renderString :: "requirement \<Rightarrow> string" where
  "renderString r =
     (let vs = sorted_list_of_set (valueSet r);
          shown = (if length vs > 5
                   then take 5 vs @ [''and '' @ format_int (int (length vs) - 5) @ '' others'']
                   else vs);
          head = (if Operator r = OpExists \<or> Operator r = OpDoesNotExist
                  then Key r @ '' '' @ operator_string (Operator r)
                  else Key r @ '' '' @ operator_string (Operator r) @ '' ['' @
                       join_strings '' '' shown @ '']'')
      in head @ (case gte r of Some g \<Rightarrow> '' >='' @ format_int g | None \<Rightarrow> [])
              @ (case lte r of Some l \<Rightarrow> '' <='' @ format_int l | None \<Rightarrow> [])
              @ (case minValues r of Some n \<Rightarrow> '' minValues '' @ format_int n | None \<Rightarrow> []))"

text \<open>\<^verbatim>\<open>String\<close> returns the cached text, or computes and caches it.\<close>

definition StringReq :: "requirement \<Rightarrow> string \<times> requirement" where
  "StringReq r =
     (case asString r of
        Some s \<Rightarrow> (s, r)
      | None \<Rightarrow> (let s = renderString r in (s, r \<lparr> asString := Some s \<rparr>)))"

section \<open>Well-formed requirements\<close>

text \<open>
  What the constructors and \<^verbatim>\<open>Intersection\<close> guarantee: the key is not an alias, the value set is
  finite, only a complement has bounds, bounds are 64-bit integers and never cross, and a cached
  string is the one that would be computed now.
\<close>

definition wf_requirement :: "requirement \<Rightarrow> bool" where
  "wf_requirement r \<longleftrightarrow>
     normalize_key (Key r) = Key r \<and> finite (valueSet r) \<and>
     (\<not> complement r \<longrightarrow> gte r = None \<and> lte r = None) \<and>
     pred_option int64 (gte r) \<and> pred_option int64 (lte r) \<and> \<not> crossed (gte r) (lte r) \<and>
     (asString r = None \<or> asString r = Some (renderString r))"

lemmas requirement_cases = requirement.cases

lemma newDoesNotExist_wf [wf_intros]: "wf_requirement (newDoesNotExist k mv)"
  by (simp add: wf_requirement_def newDoesNotExist_def crossed_def)

lemma NewRequirementWithFlexibility_wf [wf_intros]:
  "NewRequirementWithFlexibility k op mv vs = Some r \<Longrightarrow> wf_requirement r"
  by (cases op; cases vs)
     (auto simp: NewRequirementWithFlexibility_def wf_requirement_def Let_def crossed_def atoi_int64
        newDoesNotExist_def split: if_splits)

lemma NewRequirementWithFlexibility_Key:
  "NewRequirementWithFlexibility k op mv vs = Some r \<Longrightarrow> Key r = normalize_key k"
  by (cases op; cases vs)
     (auto simp: NewRequirementWithFlexibility_def Let_def newDoesNotExist_def split: if_splits)

lemma NewRequirementWithFlexibility_panic_iff:
  "NewRequirementWithFlexibility k op mv vs = None \<longleftrightarrow> op \<in> {OpGt, OpLt, OpGte, OpLte} \<and> vs = []"
  by (cases op; cases vs) (auto simp: NewRequirementWithFlexibility_def Let_def)

lemma NewRequirement_wf_values [simp, wf_intros]:
  "vs \<noteq> [] \<Longrightarrow> wf_requirement (the (NewRequirement k op vs))"
  using NewRequirementWithFlexibility_wf NewRequirementWithFlexibility_panic_iff
  by (metis NewRequirement_def option.exhaust_sel)

lemma reqIn_simps [simp]:
  "Key (reqIn k vs) = normalize_key k" "complement (reqIn k vs) = False"
  "valueSet (reqIn k vs) = set vs" "gte (reqIn k vs) = None" "lte (reqIn k vs) = None"
  "minValues (reqIn k vs) = None" "asString (reqIn k vs) = None"
  by (simp_all add: reqIn_def NewRequirement_def NewRequirementWithFlexibility_def Let_def)

lemma reqExists_simps [simp]:
  "Key (reqExists k) = normalize_key k" "complement (reqExists k) = True"
  "valueSet (reqExists k) = {}" "gte (reqExists k) = None" "lte (reqExists k) = None"
  "minValues (reqExists k) = None" "asString (reqExists k) = None"
  by (simp_all add: reqExists_def NewRequirement_def NewRequirementWithFlexibility_def Let_def)

lemma reqDoesNotExist_simps [simp]:
  "Key (reqDoesNotExist k) = normalize_key k" "complement (reqDoesNotExist k) = False"
  "valueSet (reqDoesNotExist k) = {}" "gte (reqDoesNotExist k) = None"
  "lte (reqDoesNotExist k) = None" "minValues (reqDoesNotExist k) = None"
  "asString (reqDoesNotExist k) = None"
  by (simp_all add: reqDoesNotExist_def NewRequirement_def NewRequirementWithFlexibility_def Let_def)

lemma NewRequirement_total:
  "NewRequirement k OpIn vs = Some (reqIn k vs)"
  "NewRequirement k OpExists [] = Some (reqExists k)"
  "NewRequirement k OpDoesNotExist [] = Some (reqDoesNotExist k)"
  by (simp_all add: reqIn_def reqExists_def reqDoesNotExist_def NewRequirement_def
      NewRequirementWithFlexibility_def Let_def)

lemma req_total_wf [simp, wf_intros]:
  "wf_requirement (reqIn k vs)" "wf_requirement (reqExists k)" "wf_requirement (reqDoesNotExist k)"
  by (simp_all add: wf_requirement_def crossed_def)

section \<open>The values a requirement allows\<close>

lemma withinBounds_simps [simp]:
  "withinBounds v None None"
  "withinBounds v (Some a) None \<longleftrightarrow> snd (atoi v) = None \<and> a \<le> fst (atoi v)"
  "withinBounds v None (Some b) \<longleftrightarrow> snd (atoi v) = None \<and> fst (atoi v) \<le> b"
  "withinBounds v (Some a) (Some b) \<longleftrightarrow> snd (atoi v) = None \<and> a \<le> fst (atoi v) \<and> fst (atoi v) \<le> b"
  by (auto simp: withinBounds_def split: prod.splits option.splits)

text \<open>Merged bounds accept exactly what both pairs of bounds accept.\<close>

lemma withinBounds_merge:
  "withinBounds v (maxIntPtr g g') (minIntPtr l l') \<longleftrightarrow> withinBounds v g l \<and> withinBounds v g' l'"
  by (cases g; cases g'; cases l; cases l') auto

lemma crossed_empty: "crossed g l \<Longrightarrow> \<not> withinBounds v g l"
  by (cases g; cases l) (auto simp: crossed_def)

lemma Has_newDoesNotExist [simp]: "\<not> Has (newDoesNotExist k mv) v"
  by (simp add: Has_def newDoesNotExist_def)

lemma Has_req [simp]:
  "Has (reqIn k vs) v \<longleftrightarrow> v \<in> set vs" "Has (reqExists k) v" "\<not> Has (reqDoesNotExist k) v"
  by (simp_all add: Has_def)

lemma Has_iff:
  "Has r v \<longleftrightarrow> (if complement r then v \<notin> valueSet r else v \<in> valueSet r) \<and>
     withinBounds v (gte r) (lte r)"
  by (simp add: Has_def)

lemma Has_Intersection: "Has (Intersection r s) v \<longleftrightarrow> Has r v \<and> Has s v"
proof (cases "crossed (maxIntPtr (gte r) (gte s)) (minIntPtr (lte r) (lte s))")
  case True
  then have "\<not> Has (Intersection r s) v"
    by (simp add: Intersection_def)
  moreover have "\<not> (Has r v \<and> Has s v)"
    using True crossed_empty withinBounds_merge by (metis Has_iff)
  ultimately show ?thesis by blast
next
  case False
  then show ?thesis
    by (auto simp: Intersection_def Let_def Has_iff withinBounds_merge)
qed

lemma maxIntPtr_int64: "pred_option int64 a \<Longrightarrow> pred_option int64 b \<Longrightarrow> pred_option int64 (maxIntPtr a b)"
  by (cases a; cases b) auto

lemma minIntPtr_int64: "pred_option int64 a \<Longrightarrow> pred_option int64 b \<Longrightarrow> pred_option int64 (minIntPtr a b)"
  by (cases a; cases b) auto

lemma crossed_None [simp]: "\<not> crossed None l" "\<not> crossed g None"
  by (simp_all add: crossed_def split: option.splits)

lemma Intersection_wf [wf_intros]:
  assumes "wf_requirement r" "wf_requirement s" shows "wf_requirement (Intersection r s)"
proof (cases "crossed (maxIntPtr (gte r) (gte s)) (minIntPtr (lte r) (lte s))")
  case True
  then show ?thesis by (simp add: Intersection_def newDoesNotExist_wf)
next
  case False
  with assms show ?thesis
    by (simp add: wf_requirement_def Intersection_def Let_def maxIntPtr_int64 minIntPtr_int64)
qed

lemma Intersection_Key: "wf_requirement r \<Longrightarrow> Key (Intersection r s) = Key r"
  by (simp add: Intersection_def Let_def newDoesNotExist_def wf_requirement_def)

lemma Intersection_minValues [simp]:
  "minValues (Intersection r s) = maxIntPtr (minValues r) (minValues s)"
  by (simp add: Intersection_def Let_def newDoesNotExist_def)

lemma Operator_DoesNotExist_iff:
  "finite (valueSet r) \<Longrightarrow> Operator r = OpDoesNotExist \<longleftrightarrow> \<not> complement r \<and> valueSet r = {}"
  by (auto simp: Operator_def Len_def card_gt_0_iff)

lemma Operator_simps:
  "finite (valueSet r) \<Longrightarrow>
     Operator r = (if complement r then (if valueSet r = {} then OpExists else OpNotIn)
                   else (if valueSet r = {} then OpDoesNotExist else OpIn))"
  by (auto simp: Operator_def Len_def card_gt_0_iff)

lemma Operator_req [simp]:
  "Operator (reqExists k) = OpExists" "Operator (reqDoesNotExist k) = OpDoesNotExist"
  "Operator (reqIn k vs) = (if vs = [] then OpDoesNotExist else OpIn)"
  by (simp_all add: Operator_simps)

text \<open>The optimised test agrees with building the intersection and looking at its operator.\<close>

lemma HasIntersection_Operator:
  assumes "finite (valueSet r)" "finite (valueSet s)"
  shows "HasIntersection r s \<longleftrightarrow> Operator (Intersection r s) \<noteq> OpDoesNotExist"
proof -
  have "finite (valueSet (Intersection r s))"
    using assms by (simp add: Intersection_def Let_def newDoesNotExist_def)
  then show ?thesis
    by (auto simp: Operator_DoesNotExist_iff HasIntersection_def Intersection_def Let_def
        newDoesNotExist_def)
qed

text \<open>
  Every 64-bit integer has infinitely many decimal spellings, because \<^verbatim>\<open>Atoi\<close> accepts leading
  zeros. A bounded complement therefore always allows some value outside a finite set.
\<close>

definition padded :: "nat \<Rightarrow> int \<Rightarrow> string" where
  "padded k i = (if i < 0 then CHR ''-'' # replicate k (CHR ''0'') @ show_nat (nat (- i))
                 else replicate k (CHR ''0'') @ show_nat (nat i))"

lemma parse_digits_zeros: "parse_digits 0 (replicate k (CHR ''0'') @ s) = parse_digits 0 s"
  by (induction k) (simp_all add: is_digit_def Let_def)

lemma padded_head:
  "\<exists>c cs. replicate k (CHR ''0'') @ show_nat n = c # cs \<and> c \<noteq> CHR ''-'' \<and> c \<noteq> CHR ''+''"
  using show_nat_no_sign [of n] by (cases k) auto

lemma atoi_padded: assumes "int64 i" shows "atoi (padded k i) = (i, None)"
proof (cases "i < 0")
  case True
  then have "parse_digits 0 (replicate k (CHR ''0'') @ show_nat (nat (- i))) = Inr (- i)"
    using assms parse_show_nat [of "nat (- i)"]
    by (simp add: parse_digits_zeros int64_def MinInt64_def)
  with True assms show ?thesis
    by (simp add: atoi_def padded_def parse_uint_def Let_def int64_def MinInt64_def)
next
  case False
  obtain c cs where s: "replicate k (CHR ''0'') @ show_nat (nat i) = c # cs"
    and c: "c \<noteq> CHR ''-''" "c \<noteq> CHR ''+''"
    using padded_head [of k "nat i"] by blast
  have "parse_digits 0 (replicate k (CHR ''0'') @ show_nat (nat i)) = Inr i"
    using assms False parse_show_nat [of "nat i"]
    by (simp add: parse_digits_zeros int64_def MaxInt64_def)
  then have p: "parse_digits 0 (c # cs) = Inr i" by (simp only: s)
  have f: "padded k i = c # cs" using False s by (simp add: padded_def)
  show ?thesis
    unfolding f using False assms p c
    by (simp add: atoi_def parse_uint_def Let_def int64_def MaxInt64_def del: parse_digits.simps)
qed

lemma inj_padded: "inj (\<lambda>k. padded k i)"
proof (rule injI)
  fix x y assume "padded x i = padded y i"
  then have "length (padded x i) = length (padded y i)" by simp
  then show "x = y" by (simp add: padded_def split: if_splits)
qed

lemma padded_outside: assumes "finite A" shows "\<exists>k. padded k i \<notin> A"
proof (rule ccontr)
  assume "\<not> ?thesis"
  then have "range (\<lambda>k. padded k i) \<subseteq> A" by auto
  then have "finite (range (\<lambda>k. padded k i))" using assms finite_subset by blast
  then show False using finite_imageD [OF _ inj_padded] infinite_UNIV_nat by blast
qed

lemma bounded_value_outside:
  assumes "finite A" "pred_option int64 g" "pred_option int64 l" "\<not> crossed g l"
  shows "\<exists>v. v \<notin> A \<and> withinBounds v g l"
proof -
  define i where "i = (case g of Some a \<Rightarrow> a | None \<Rightarrow> (case l of Some b \<Rightarrow> b | None \<Rightarrow> 0))"
  have "int64 i"
    using assms(2,3) by (auto simp: i_def int64_def MinInt64_def MaxInt64_def split: option.splits)
  obtain k where k: "padded k i \<notin> A" using padded_outside assms(1) by blast
  have "withinBounds (padded k i) g l"
    using assms(4) atoi_padded [OF \<open>int64 i\<close>]
    by (cases g; cases l) (auto simp: i_def crossed_def)
  with k show ?thesis by blast
qed

lemma wf_requirement_D:
  assumes "wf_requirement r"
  shows "finite (valueSet r)" "pred_option int64 (gte r)" "pred_option int64 (lte r)"
    "\<not> crossed (gte r) (lte r)" "normalize_key (Key r) = Key r"
    "\<not> complement r \<Longrightarrow> gte r = None \<and> lte r = None"
  using assms by (simp_all add: wf_requirement_def)

lemma Operator_empty_iff:
  assumes "wf_requirement r" shows "Operator r = OpDoesNotExist \<longleftrightarrow> (\<forall>v. \<not> Has r v)"
proof (cases "complement r")
  case True
  then have "\<exists>v. Has r v"
    using bounded_value_outside [of "valueSet r" "gte r" "lte r"] wf_requirement_D [OF assms]
    by (auto simp: Has_iff)
  with True show ?thesis using wf_requirement_D(1) [OF assms] by (auto simp: Operator_simps)
next
  case False
  then show ?thesis
    using wf_requirement_D(1,6) [OF assms] by (auto simp: Operator_simps Has_iff)
qed

lemma HasIntersection_exact:
  assumes "wf_requirement r" "wf_requirement s"
  shows "HasIntersection r s \<longleftrightarrow> (\<exists>v. Has r v \<and> Has s v)"
  using HasIntersection_Operator Operator_empty_iff Intersection_wf Has_Intersection
    wf_requirement_D(1) assms by metis

section \<open>The cached string\<close>

text \<open>Rendering depends on the fields, never on the cache; every update that changes a field resets
  the cache, so the cached text stays the current one.\<close>

lemma renderString_cache [simp]: "renderString (r \<lparr> asString := c \<rparr>) = renderString r"
  by (simp add: renderString_def Operator_def Len_def Let_def)

lemma StringReq_correct:
  assumes "wf_requirement r"
  shows "fst (StringReq r) = renderString r" "wf_requirement (snd (StringReq r))"
  using assms
  by (auto simp: StringReq_def wf_requirement_def Let_def split: option.splits)

lemma SetMinValues_wf [wf_intros]: "wf_requirement r \<Longrightarrow> wf_requirement (SetMinValues n r)"
  by (simp add: SetMinValues_def wf_requirement_def)

lemma Insert_wf [wf_intros]: "wf_requirement r \<Longrightarrow> wf_requirement (Insert vs r)"
  by (simp add: Insert_def wf_requirement_def)

lemma DeepCopy_wf [wf_intros]: "wf_requirement r \<Longrightarrow> wf_requirement (DeepCopy r)"
  by (simp add: DeepCopy_def wf_requirement_def)

lemma DeepCopy_Has [simp]: "Has (DeepCopy r) v = Has r v"
  by (simp add: DeepCopy_def Has_def)

section \<open>Meaning of the operators\<close>

text \<open>
  The documented meaning of a node selector requirement on a label that is present with value
  \<open>v\<close>: membership, or comparison of integers for the numeric operators.
\<close>

fun selector_allows :: "node_selector_operator \<Rightarrow> string list \<Rightarrow> string \<Rightarrow> bool" where
  "selector_allows OpIn vs v = (v \<in> set vs)"
| "selector_allows OpNotIn vs v = (v \<notin> set vs)"
| "selector_allows OpExists vs v = True"
| "selector_allows OpDoesNotExist vs v = False"
| "selector_allows OpGt vs v = (snd (atoi v) = None \<and> fst (atoi v) > fst (atoi (hd vs)))"
| "selector_allows OpLt vs v = (snd (atoi v) = None \<and> fst (atoi v) < fst (atoi (hd vs)))"
| "selector_allows OpGte vs v = (snd (atoi v) = None \<and> fst (atoi v) \<ge> fst (atoi (hd vs)))"
| "selector_allows OpLte vs v = (snd (atoi v) = None \<and> fst (atoi v) \<le> fst (atoi (hd vs)))"
| "selector_allows (OpUnknown s) vs v = False"

definition numericOp :: "node_selector_operator \<Rightarrow> bool" where
  "numericOp op \<longleftrightarrow> op \<in> {OpGt, OpLt, OpGte, OpLte}"

definition knownOp :: "node_selector_operator \<Rightarrow> bool" where
  "knownOp op \<longleftrightarrow> (case op of OpUnknown _ \<Rightarrow> False | _ \<Rightarrow> True)"

text \<open>A request that \<^verbatim>\<open>ValidateRequirement\<close> lets through, as far as construction depends on it.\<close>

definition wellFormedSelector :: "node_selector_operator \<Rightarrow> string list \<Rightarrow> bool" where
  "wellFormedSelector op vs \<longleftrightarrow> knownOp op \<and>
     (numericOp op \<longrightarrow> (\<exists>b. vs = [b] \<and> snd (atoi b) = None \<and> fst (atoi b) \<ge> 0))"

lemma int64_succ: "int64 n \<Longrightarrow> n \<noteq> MaxInt64 \<Longrightarrow> int64 (n + 1)"
  by (simp add: int64_def MinInt64_def)

lemma int64_pred: "int64 n \<Longrightarrow> 0 \<le> n \<Longrightarrow> int64 (n - 1)"
  by (simp add: int64_def MinInt64_def)

lemma atoi_le_MaxInt64: "fst (atoi v) \<le> MaxInt64"
  using atoi_int64 [of v] by (simp add: int64_def)

lemma NewRequirement_meaning:
  assumes "wellFormedSelector op vs"
  obtains r where "NewRequirementWithFlexibility k op mv vs = Some r"
    and "\<And>v. Has r v \<longleftrightarrow> selector_allows op vs v"
proof -
  obtain r where r: "NewRequirementWithFlexibility k op mv vs = Some r"
    using assms NewRequirementWithFlexibility_panic_iff [of k op mv vs]
    by (fastforce simp: wellFormedSelector_def numericOp_def)
  have "Has r v \<longleftrightarrow> selector_allows op vs v" for v
    using r assms atoi_int64 [of "hd vs"] atoi_le_MaxInt64 [of v]
      int64_succ [of "fst (atoi (hd vs))"] int64_pred [of "fst (atoi (hd vs))"]
    by (cases op)
       (auto simp: NewRequirementWithFlexibility_def wellFormedSelector_def numericOp_def
          knownOp_def newDoesNotExist_def Let_def Has_iff split: if_splits)
  with r show thesis by (rule that)
qed

lemma NewRequirement_exists:
  assumes "wellFormedSelector op vs"
  shows "\<exists>r. NewRequirementWithFlexibility k op mv vs = Some r \<and> wf_requirement r \<and>
           Key r = normalize_key k \<and> (\<forall>v. Has r v \<longleftrightarrow> selector_allows op vs v)"
  using NewRequirement_meaning [OF assms] NewRequirementWithFlexibility_wf
    NewRequirementWithFlexibility_Key by metis

section \<open>Wire form and back\<close>

text \<open>How \<^verbatim>\<open>Requirements.NodeSelectorRequirements\<close> writes one requirement: as two when it has both
  bounds.\<close>

definition emit :: "requirement \<Rightarrow> node_selector_requirement list" where
  "emit r = (case BoundedNodeSelectorRequirements r of Some rs \<Rightarrow> rs
             | None \<Rightarrow> [NodeSelectorRequirement r])"

definition readBack :: "node_selector_requirement \<Rightarrow> requirement option" where
  "readBack n = NewRequirementWithFlexibility (nsrKey n) (nsrOperator n) (nsrMinValues n) (nsrValues n)"

text \<open>What is read back allows what the requirement allowed, except that exclusions next to a bound
  are forgotten.\<close>

definition emitted_allows :: "requirement \<Rightarrow> string \<Rightarrow> bool" where
  "emitted_allows r v \<longleftrightarrow> withinBounds v (gte r) (lte r) \<and>
     (gte r \<noteq> None \<or> lte r \<noteq> None \<or> (if complement r then v \<notin> valueSet r else v \<in> valueSet r))"

lemma emit_readBack:
  assumes "wf_requirement r" "n \<in> set (emit r)"
  shows "\<exists>s. readBack n = Some s \<and> wf_requirement s \<and> Key s = Key r \<and> minValues s = minValues r"
proof -
  have "\<exists>s. readBack n = Some s \<and> Key s = Key r \<and> minValues s = minValues r"
    using assms wf_requirement_D [OF assms(1)]
    by (auto simp: emit_def BoundedNodeSelectorRequirements_def NodeSelectorRequirement_def
        readBack_def NewRequirementWithFlexibility_def Let_def split: option.splits if_splits)
  then show ?thesis using NewRequirementWithFlexibility_wf readBack_def by metis
qed

lemma emit_meaning:
  assumes "wf_requirement r"
  shows "(\<forall>n \<in> set (emit r). Has (the (readBack n)) v) \<longleftrightarrow> emitted_allows r v"
  using wf_requirement_D [OF assms]
  by (cases "gte r"; cases "lte r"; cases "complement r"; cases "valueSet r = {}")
     (auto simp: emit_def BoundedNodeSelectorRequirements_def NodeSelectorRequirement_def
        emitted_allows_def card_gt_0_iff readBack_def NewRequirementWithFlexibility_def Let_def
        Has_iff)

lemma emitted_allows_iff:
  "valueSet r = {} \<or> (gte r = None \<and> lte r = None) \<Longrightarrow> wf_requirement r \<Longrightarrow>
     emitted_allows r v \<longleftrightarrow> Has r v"
  by (auto simp: emitted_allows_def Has_iff wf_requirement_def)

lemma Has_emitted: "Has r v \<Longrightarrow> emitted_allows r v"
  by (simp add: emitted_allows_def Has_iff)

section \<open>Picking a value\<close>

lemma Any_allowed:
  assumes "wf_requirement r" "Operator r \<in> {OpIn, OpExists}"
    and pick: "\<And>A. finite A \<Longrightarrow> A \<noteq> {} \<Longrightarrow> pick A \<in> A"
    and intn: "\<And>n. 0 < n \<Longrightarrow> 0 \<le> intn n \<and> intn n < n"
    and "pred_option (\<lambda>a. 0 \<le> a \<and> a < MaxInt64) (gte r)"
    and "pred_option (\<lambda>b. 0 \<le> b \<and> b < MaxInt64) (lte r)"
  shows "\<exists>v. Any pick intn r = Some v \<and> Has r v"
proof (cases "complement r")
  case False
  then have "valueSet r \<noteq> {}" "Operator r = OpIn"
    using assms(2) wf_requirement_D(1) [OF assms(1)] by (auto simp: Operator_simps split: if_splits)
  then show ?thesis
    using False pick wf_requirement_D(1,6) [OF assms(1)] by (simp add: Any_def Has_iff)
next
  case True
  then have e: "valueSet r = {}" "Operator r = OpExists"
    using assms(2) wf_requirement_D(1) [OF assms(1)] by (auto simp: Operator_simps split: if_splits)
  define a where "a = (case gte r of Some a \<Rightarrow> a | None \<Rightarrow> 0)"
  define b where "b = (case lte r of Some b \<Rightarrow> b + 1 | None \<Rightarrow> MaxInt64)"
  have ab: "0 \<le> a" "a < b" "b \<le> MaxInt64"
    using assms(5,6) wf_requirement_D(4) [OF assms(1)]
    by (auto simp: a_def b_def crossed_def MaxInt64_def split: option.splits)
  then have w: "wrap64 (b - a) = b - a" "wrap64 b = b" "int64 (intn (b - a) + a)"
    using intn [of "b - a"] by (auto simp: int64_def MinInt64_def intro!: wrap64_id)
  have "Any pick intn r = Some (format_int (intn (b - a) + a))"
    using e ab w by (auto simp: Any_def a_def b_def Let_def split: option.splits)
  moreover have "Has r (format_int (intn (b - a) + a))"
    using True e w(3) intn [of "b - a"] ab
    by (auto simp: Has_iff a_def b_def split: option.splits)
  ultimately show ?thesis by blast
qed

section \<open>The interface of a constraint\<close>

text \<open>
  What a map from keys to constraints relies on: the meet of two constraints on the same key is a
  constraint on that key that allows exactly what both allow.
\<close>

locale constraint =
  fixes invar :: "'r \<Rightarrow> bool" and key :: "'r \<Rightarrow> 'k"
    and allows :: "'r \<Rightarrow> 'v \<Rightarrow> bool" and meet :: "'r \<Rightarrow> 'r \<Rightarrow> 'r"
  assumes allows_meet: "allows (meet r s) v \<longleftrightarrow> allows r v \<and> allows s v"
    and key_meet: "invar r \<Longrightarrow> invar s \<Longrightarrow> key r = key s \<Longrightarrow> key (meet r s) = key r"
    and invar_meet: "invar r \<Longrightarrow> invar s \<Longrightarrow> invar (meet r s)"
begin

lemma allows_meet_commute: "allows (meet r s) = allows (meet s r)"
  by (auto simp: allows_meet fun_eq_iff)

lemma allows_meet_assoc: "allows (meet (meet r s) t) = allows (meet r (meet s t))"
  by (auto simp: allows_meet fun_eq_iff)

lemma allows_fold_meet: "allows (fold meet rs r) v \<longleftrightarrow> allows r v \<and> (\<forall>s \<in> set rs. allows s v)"
  by (induction rs arbitrary: r) (auto simp: allows_meet)

end

interpretation req: constraint wf_requirement Key Has Intersection
  by unfold_locales (auto simp: Has_Intersection Intersection_Key Intersection_wf)

section \<open>Properties\<close>

text \<open>
  C1. \<^verbatim>\<open>Requirement.Intersection\<close> is conjunction: for every pair of requirements, in every
  combination of complement and value set and with every combination of bounds, the result
  allows a value exactly when both requirements allow it.
\<close>
theorem Intersection_is_conjunction:
  "Has (Intersection r s) v \<longleftrightarrow> Has r v \<and> Has s v"
  by (rule req.allows_meet)

text \<open>
  C17. \<^verbatim>\<open>Requirement.HasIntersection\<close>, the test that avoids building the intersection, answers yes
  exactly when some label value is allowed by both requirements, and agrees with the operator of
  the intersection that \<^verbatim>\<open>Intersection\<close> would build.
\<close>
theorem HasIntersection_is_exact:
  assumes "wf_requirement r" "wf_requirement s"
  shows "(HasIntersection r s \<longleftrightarrow> (\<exists>v. Has r v \<and> Has s v)) \<and>
         (HasIntersection r s \<longleftrightarrow> Operator (Intersection r s) \<noteq> OpDoesNotExist)"
  using HasIntersection_exact [OF assms] HasIntersection_Operator wf_requirement_D(1) assms by blast

theorem HasIntersection_is_exact_witness:
  "wf_requirement (the (NewRequirement ''cpu'' OpGt [''3''])) \<and>
   wf_requirement (the (NewRequirement ''cpu'' OpLt [''5''])) \<and>
   HasIntersection (the (NewRequirement ''cpu'' OpGt [''3'']))
     (the (NewRequirement ''cpu'' OpLt [''5''])) \<and>
   (\<exists>v. Has (the (NewRequirement ''cpu'' OpGt [''3''])) v \<and>
        Has (the (NewRequirement ''cpu'' OpLt [''5''])) v)"
proof -
  let ?g = "the (NewRequirement ''cpu'' OpGt [''3''])"
  let ?l = "the (NewRequirement ''cpu'' OpLt [''5''])"
  have wf: "wf_requirement ?g" "wf_requirement ?l" by simp_all
  have "HasIntersection ?g ?l" by code_simp
  with wf HasIntersection_is_exact [of ?g ?l] show ?thesis by blast
qed

text \<open>
  C23. \<^verbatim>\<open>NewRequirementWithFlexibility\<close> gives each operator its documented meaning: on a validated
  operator and value list it does not panic, the requirement is well formed and sits at the
  normalised key, and it allows exactly the label values the operator selects. The canonical
  forms (\<^verbatim>\<open>Gt n\<close> as \<^verbatim>\<open>Gte n+1\<close>, \<^verbatim>\<open>Lt n\<close> as \<^verbatim>\<open>Lte n-1\<close>) lose nothing, including at the largest
  64-bit integer.
\<close>
theorem NewRequirement_operator_meaning:
  assumes "wellFormedSelector op vs"
  shows "\<exists>r. NewRequirementWithFlexibility k op mv vs = Some r \<and> wf_requirement r \<and>
           Key r = normalize_key k \<and> (\<forall>v. Has r v \<longleftrightarrow> selector_allows op vs v)"
  using assms by (rule NewRequirement_exists)

theorem NewRequirement_operator_meaning_witness:
  "\<exists>r. NewRequirementWithFlexibility ''cpu'' OpGt None [''9223372036854775807''] = Some r \<and>
     wf_requirement r \<and> Key r = normalize_key ''cpu'' \<and>
     (\<forall>v. Has r v \<longleftrightarrow> selector_allows OpGt [''9223372036854775807''] v)"
proof -
  have "wellFormedSelector OpGt [''9223372036854775807'']"
    unfolding wellFormedSelector_def by (rule conjI, code_simp) (intro impI exI conjI, rule refl, code_simp+)
  then show ?thesis by (rule NewRequirement_operator_meaning)
qed

text \<open>
  \<^verbatim>\<open>Requirement.Any\<close> does not panic and returns a value the requirement allows, for every value
  set and every requirement without exclusions whose bounds are non-negative and below the
  largest integer. The set's first element and \<^verbatim>\<open>rand.Intn\<close> are arbitrary within their contracts.
\<close>
theorem Any_returns_allowed_value:
  assumes "wf_requirement r" "Operator r \<in> {OpIn, OpExists}"
    and "\<And>A. finite A \<Longrightarrow> A \<noteq> {} \<Longrightarrow> pick A \<in> A"
    and "\<And>n. 0 < n \<Longrightarrow> 0 \<le> intn n \<and> intn n < n"
    and "pred_option (\<lambda>a. 0 \<le> a \<and> a < MaxInt64) (gte r)"
    and "pred_option (\<lambda>b. 0 \<le> b \<and> b < MaxInt64) (lte r)"
  shows "\<exists>v. Any pick intn r = Some v \<and> Has r v"
  using assms by (rule Any_allowed)

theorem Any_returns_allowed_value_witness:
  "\<exists>v. Any Min (\<lambda>n. n - 1) (the (NewRequirement ''cpu'' OpGt [''3''])) = Some v \<and>
     Has (the (NewRequirement ''cpu'' OpGt [''3''])) v"
proof (rule Any_returns_allowed_value)
  let ?r = "the (NewRequirement ''cpu'' OpGt [''3''])"
  show "wf_requirement ?r" by simp
  show "Operator ?r \<in> {OpIn, OpExists}" by code_simp
  have "gte ?r = Some 4" "lte ?r = None" by code_simp+
  then show "pred_option (\<lambda>a. 0 \<le> a \<and> a < MaxInt64) (gte ?r)"
    "pred_option (\<lambda>b. 0 \<le> b \<and> b < MaxInt64) (lte ?r)"
    by (simp_all add: MaxInt64_def)
qed simp_all

end
