(* ===== verification/K8sTypes.thy ===== *)
theory K8sTypes
  imports Requirement
begin

text \<open>
  The Kubernetes objects the components read, with the fields the sources use. A pointer that may
  be nil is an option; times and durations are nanoseconds.
\<close>

section \<open>Selectors and affinity\<close>

datatype label_selector_operator = LsIn | LsNotIn | LsExists | LsDoesNotExist

record label_selector_requirement =
  lsrKey :: string
  lsrOperator :: label_selector_operator
  lsrValues :: "string list"

record label_selector =
  matchLabels :: "(string, string) gomap"
  lsMatchExpressions :: "label_selector_requirement list"

record match_expression =
  meKey :: string
  meOperator :: node_selector_operator
  meValues :: "string list"

record node_selector_term =
  matchExpressions :: "match_expression list"

record preferred_scheduling_term =
  pstWeight :: int
  pstPreference :: node_selector_term

record node_affinity =
  requiredNodeTerms :: "node_selector_term list option"
  preferredNodeTerms :: "preferred_scheduling_term list"

record pod_affinity_term =
  patLabelSelector :: "label_selector option"
  patNamespaces :: "string list"
  patNamespaceSelector :: "label_selector option"
  patTopologyKey :: string

record weighted_pod_affinity_term =
  wpatWeight :: int
  wpatTerm :: pod_affinity_term

record pod_affinity =
  paRequired :: "pod_affinity_term list"
  paPreferred :: "weighted_pod_affinity_term list"

record affinity =
  nodeAffinity :: "node_affinity option"
  podAffinity :: "pod_affinity option"
  podAntiAffinity :: "pod_affinity option"

section \<open>Taints and tolerations\<close>

datatype taint_effect = NoSchedule | PreferNoSchedule | NoExecute | NoEffect

datatype toleration_operator = TolExists | TolEqual | TolDefault

record taint =
  taintKey :: string
  taintValue :: string
  taintEffect :: taint_effect

record toleration =
  tolKey :: string
  tolOperator :: toleration_operator
  tolValue :: string
  tolEffect :: taint_effect

section \<open>Topology spread\<close>

datatype unsatisfiable_action = DoNotSchedule | ScheduleAnyway

datatype inclusion_policy = PolicyHonor | PolicyIgnore

record topology_spread_constraint =
  tscMaxSkew :: int
  tscTopologyKey :: string
  tscWhenUnsatisfiable :: unsatisfiable_action
  tscLabelSelector :: "label_selector option"
  tscMinDomains :: "int option"
  tscNodeAffinityPolicy :: "inclusion_policy option"
  tscNodeTaintsPolicy :: "inclusion_policy option"
  tscMatchLabelKeys :: "string list"

section \<open>Pods\<close>

datatype pod_phase = PodPending | PodRunning | PodSucceeded | PodFailed | PodUnknown

record container_port =
  cpHostPort :: int
  cpHostIP :: string
  cpProtocol :: string

record container =
  ctrPorts :: "container_port list"
  ctrClaims :: "string list"

record pod_volume =
  pvolName :: string
  pvolClaimName :: "string option"
  pvolEphemeral :: bool

record owner_reference =
  orAPIVersion :: string
  orKind :: string
  orController :: "bool option"
  orUID :: string

record pod_condition =
  pcType :: string
  pcStatus :: string
  pcReason :: string

record pod =
  podUID :: string
  podNamespace :: string
  podName :: string
  podLabels :: "(string, string) gomap"
  podAnnotations :: "(string, string) gomap"
  podOwners :: "owner_reference list"
  podCreation :: int
  podDeletionTimestamp :: "int option"
  nodeSelector :: "(string, string) gomap"
  podAffinityField :: "affinity option"
  tolerations :: "toleration list"
  topologySpread :: "topology_spread_constraint list"
  initContainers :: "container list"
  containers :: "container list"
  resourceClaims :: "string list"
  specVolumes :: "pod_volume list"
  podPriority :: "int option"
  nodeName :: string
  podPhase :: pod_phase
  podConditions :: "pod_condition list"
  podStartTime :: "int option"
  nominatedNodeName :: string

definition emptyPod :: "string \<Rightarrow> pod" where
  "emptyPod uid =
     \<lparr> podUID = uid, podNamespace = ''default'', podName = uid, podLabels = [], podAnnotations = [],
       podOwners = [], podCreation = 0, podDeletionTimestamp = None, nodeSelector = [],
       podAffinityField = None, tolerations = [], topologySpread = [], initContainers = [],
       containers = [], resourceClaims = [], specVolumes = [], podPriority = None, nodeName = [], podPhase = PodPending,
       podConditions = [], podStartTime = None, nominatedNodeName = [] \<rparr>"

end
