(* ===== verification/Requirements.thy ===== *)
theory Requirements
  imports K8sTypes
begin

text \<open>
  \<^verbatim>\<open>pkg/scheduling/requirements.go\<close>: a map from label keys to requirements, the form in which node
  pools, instance types, offerings and pods state their constraints.

  \<^verbatim>\<open>Add\<close> intersects with what is already at the key. \<^verbatim>\<open>Intersects\<close> and \<^verbatim>\<open>Compatible\<close> collect or
  return errors, which are values here. Constructors that call \<^verbatim>\<open>NewRequirement\<close> on an arbitrary
  operator can panic and return an option.
\<close>

type_synonym requirements = "(string, requirement) gomap"

section \<open>Construction\<close>

definition Add1 :: "requirement \<Rightarrow> requirements \<Rightarrow> requirements" where
  "Add1 requirement r =
     (let req = (case map_of r (Key requirement) of
                   Some existing \<Rightarrow> Intersection requirement existing
                 | None \<Rightarrow> requirement)
      in AList.update (Key req) req r)"

definition Add :: "requirement list \<Rightarrow> requirements \<Rightarrow> requirements" where
  "Add reqs r = fold Add1 reqs r"

definition NewRequirements :: "requirement list \<Rightarrow> requirements" where
  "NewRequirements reqs = Add reqs []"

text \<open>Evaluate a list of constructor calls; one panic is a panic of the whole loop.\<close>

fun sequence_opt :: "'a option list \<Rightarrow> 'a list option" where
  "sequence_opt [] = Some []"
| "sequence_opt (x # xs) =
     (case x of None \<Rightarrow> None
      | Some a \<Rightarrow> (case sequence_opt xs of None \<Rightarrow> None | Some as \<Rightarrow> Some (a # as)))"

definition NewNodeSelectorRequirementsWithMinValues ::
  "node_selector_requirement list \<Rightarrow> requirements option" where
  "NewNodeSelectorRequirementsWithMinValues ns =
     map_option (\<lambda>rs. Add rs (NewRequirements []))
       (sequence_opt (map (\<lambda>n. NewRequirementWithFlexibility (nsrKey n) (nsrOperator n)
                                 (nsrMinValues n) (nsrValues n)) ns))"

definition NewNodeSelectorRequirements :: "match_expression list \<Rightarrow> requirements option" where
  "NewNodeSelectorRequirements ms =
     map_option (\<lambda>rs. Add rs (NewRequirements []))
       (sequence_opt (map (\<lambda>m. NewRequirementWithFlexibility (meKey m) (meOperator m) None
                                 (meValues m)) ms))"

definition NewLabelRequirements :: "(string, string) gomap \<Rightarrow> requirements" where
  "NewLabelRequirements labels = Add (map (\<lambda>(k, v). reqIn k [v]) labels) (NewRequirements [])"

definition reqValues :: "requirements \<Rightarrow> requirement list" where
  "reqValues r = map snd r"

section \<open>Pod requirements\<close>

datatype pod_requirement_type = podRequirementTypeAll | podRequirementTypeRequiredOnly

text \<open>
  \<^verbatim>\<open>sort.Slice(preferred, weight descending)\<close> leaves equal weights in an unspecified order: the
  sorted list is a parameter \<open>sorter\<close>, a permutation in which the weights descend. The sort also
  reorders the pod's own list of preferences, which every reader sorts again.
\<close>

definition heaviest_preference ::
  "(preferred_scheduling_term list \<Rightarrow> preferred_scheduling_term list) \<Rightarrow> node_affinity \<Rightarrow>
   preferred_scheduling_term option" where
  "heaviest_preference sorter na =
     (case sorter (preferredNodeTerms na) of [] \<Rightarrow> None | p # _ \<Rightarrow> Some p)"

definition add_term :: "match_expression list \<Rightarrow> requirements \<Rightarrow> requirements option" where
  "add_term ms r = map_option (\<lambda>rs. Add (reqValues rs) r) (NewNodeSelectorRequirements ms)"

definition newPodRequirements ::
  "(preferred_scheduling_term list \<Rightarrow> preferred_scheduling_term list) \<Rightarrow> pod \<Rightarrow>
   pod_requirement_type \<Rightarrow> requirements option" where
  "newPodRequirements sorter p ptype =
     (let r0 = NewLabelRequirements (nodeSelector p)
      in case Option.bind (podAffinityField p) nodeAffinity of
           None \<Rightarrow> Some r0
         | Some na \<Rightarrow>
             (let r1 = (if ptype = podRequirementTypeAll
                        then (case heaviest_preference sorter na of
                                Some pref \<Rightarrow> add_term (matchExpressions (pstPreference pref)) r0
                              | None \<Rightarrow> Some r0)
                        else Some r0)
              in case requiredNodeTerms na of
                   Some (t # _) \<Rightarrow> Option.bind r1 (add_term (matchExpressions t))
                 | _ \<Rightarrow> r1))"

definition NewPodRequirements ::
  "(preferred_scheduling_term list \<Rightarrow> preferred_scheduling_term list) \<Rightarrow> pod \<Rightarrow>
   requirements option" where
  "NewPodRequirements sorter p = newPodRequirements sorter p podRequirementTypeAll"

definition NewStrictPodRequirements :: "pod \<Rightarrow> requirements option" where
  "NewStrictPodRequirements p = newPodRequirements (\<lambda>xs. xs) p podRequirementTypeRequiredOnly"

definition HasPreferredNodeAffinity :: "pod option \<Rightarrow> bool" where
  "HasPreferredNodeAffinity p =
     (case p of None \<Rightarrow> False
      | Some p \<Rightarrow> (case Option.bind (podAffinityField p) nodeAffinity of
                    None \<Rightarrow> False | Some na \<Rightarrow> length (preferredNodeTerms na) > 0))"

section \<open>Access\<close>

definition NodeSelectorRequirements :: "requirements \<Rightarrow> node_selector_requirement list" where
  "NodeSelectorRequirements r =
     concat (map (\<lambda>(_, req).
               if gte req \<noteq> None \<and> lte req \<noteq> None
               then (case BoundedNodeSelectorRequirements req of Some ns \<Rightarrow> ns | None \<Rightarrow> [])
               else [NodeSelectorRequirement req]) r)"

definition Keys :: "requirements \<Rightarrow> string set" where
  "Keys r = set (map fst r)"

definition HasKey :: "requirements \<Rightarrow> string \<Rightarrow> bool" where
  "HasKey r key = (case map_of r key of Some _ \<Rightarrow> True | None \<Rightarrow> False)"

definition Get :: "requirements \<Rightarrow> string \<Rightarrow> requirement" where
  "Get r key = (case map_of r key of None \<Rightarrow> reqExists key | Some req \<Rightarrow> req)"

definition HasMinValues :: "requirements \<Rightarrow> bool" where
  "HasMinValues r = list_ex (\<lambda>(_, req). minValues req \<noteq> None) r"

definition StringReqs :: "requirements \<Rightarrow> string" where
  "StringReqs r =
     join_strings '', '' (sort (map (\<lambda>(_, req). fst (StringReq req))
       (filter (\<lambda>(_, req). Key req \<notin> RestrictedLabels) r)))"

section \<open>Compatibility\<close>

record bad_key_error =
  bkKey :: string
  bkIncoming :: requirement
  bkExisting :: requirement

datatype compat_error = UnknownLabel string string | BadKeys "bad_key_error list"

definition getSuffix :: "string \<Rightarrow> string" where
  "getSuffix key = (if CHR ''/'' \<in> set key then cut_after (CHR ''/'') key else key)"

text \<open>The hint in the error message: the first label, in iteration order, that looks like the key.\<close>

definition similar_label :: "string \<Rightarrow> string \<Rightarrow> bool" where
  "similar_label key candidate \<longleftrightarrow>
     contains_str candidate key \<or> has_suffix candidate (getSuffix key)"

definition labelHint :: "requirements \<Rightarrow> string \<Rightarrow> string list \<Rightarrow> string" where
  "labelHint r key allowedUndefined =
     (case find (similar_label key) allowedUndefined of
        Some w \<Rightarrow> '' (typo of '' @ [CHR 0x22] @ w @ [CHR 0x22] @ ''?)''
      | None \<Rightarrow> (case find (similar_label key) (map fst r) of
                  Some e \<Rightarrow> '' (typo of '' @ [CHR 0x22] @ e @ [CHR 0x22] @ ''?)''
                | None \<Rightarrow> []))"

definition intersectKeys :: "requirements \<Rightarrow> requirements \<Rightarrow> string list" where
  "intersectKeys r rhs =
     (let smallest = (if length r > length rhs then rhs else r);
          largest = (if length r > length rhs then r else rhs)
      in filter (HasKey largest) (map fst smallest))"

definition negativeOp :: "node_selector_operator \<Rightarrow> bool" where
  "negativeOp op \<longleftrightarrow> op = OpNotIn \<or> op = OpDoesNotExist"

definition key_conflict :: "requirements \<Rightarrow> requirements \<Rightarrow> string \<Rightarrow> bad_key_error option" where
  "key_conflict r requirements key =
     (let existing = Get r key; incoming = Get requirements key
      in if \<not> HasIntersection existing incoming \<and>
            \<not> (negativeOp (Operator incoming) \<and> negativeOp (Operator existing))
         then Some \<lparr> bkKey = key, bkIncoming = incoming, bkExisting = existing \<rparr>
         else None)"

definition Intersects :: "requirements \<Rightarrow> requirements \<Rightarrow> bad_key_error list" where
  "Intersects r requirements = List.map_filter (key_conflict r requirements) (intersectKeys r requirements)"

text \<open>\<open>allowUndefined\<close> is the set of \<^verbatim>\<open>CompatibilityOptions\<close>, as a list in iteration order.\<close>

definition undefined_key :: "requirements \<Rightarrow> requirements \<Rightarrow> string list \<Rightarrow> string \<Rightarrow> bool" where
  "undefined_key r requirements allowUndefined key \<longleftrightarrow>
     key \<notin> set allowUndefined \<and>
     \<not> (HasKey r key \<or> negativeOp (Operator (Get requirements key)))"

definition Compatible ::
  "requirements \<Rightarrow> requirements \<Rightarrow> string list \<Rightarrow> compat_error option" where
  "Compatible r requirements allowUndefined =
     (case find (undefined_key r requirements allowUndefined) (map fst requirements) of
        Some key \<Rightarrow> Some (UnknownLabel key (labelHint r key allowUndefined))
      | None \<Rightarrow>
          (case Intersects r requirements of [] \<Rightarrow> None | errs \<Rightarrow> Some (BadKeys errs)))"

definition IsCompatible :: "requirements \<Rightarrow> requirements \<Rightarrow> string list \<Rightarrow> bool" where
  "IsCompatible r requirements allowUndefined = (Compatible r requirements allowUndefined = None)"

definition AllowUndefinedWellKnownLabels :: "string list" where
  "AllowUndefinedWellKnownLabels =
     [NodePoolLabelKey, LabelTopologyZone, LabelTopologyRegion, LabelInstanceTypeStable,
      LabelArchStable, LabelOSStable, CapacityTypeLabelKey, LabelWindowsBuild]"

section \<open>Well-formed requirement maps\<close>

definition wf_requirements :: "requirements \<Rightarrow> bool" where
  "wf_requirements r \<longleftrightarrow> gomap_wf r \<and> (\<forall>(k, req) \<in> set r. wf_requirement req \<and> Key req = k)"

lemma wf_requirements_Nil [simp, wf_intros]: "wf_requirements []"
  by (simp add: wf_requirements_def)

lemma wf_requirements_iff:
  "wf_requirements r \<longleftrightarrow>
     gomap_wf r \<and> (\<forall>k req. map_of r k = Some req \<longrightarrow> wf_requirement req \<and> Key req = k)"
  unfolding wf_requirements_def using gomap_ball_map_of [of r "\<lambda>k req. wf_requirement req \<and> Key req = k"]
  by blast

lemma wf_requirements_lookup:
  "wf_requirements r \<Longrightarrow> map_of r k = Some req \<Longrightarrow> wf_requirement req \<and> Key req = k"
  by (simp add: wf_requirements_iff)

lemma Add1_key:
  assumes "wf_requirements m" "wf_requirement r"
  shows "Key (case map_of m (Key r) of Some e \<Rightarrow> Intersection r e | None \<Rightarrow> r) = Key r"
  using assms by (simp add: Intersection_Key split: option.splits)

lemma map_of_Add1:
  assumes "wf_requirements m" "wf_requirement r"
  shows "map_of (Add1 r m) k =
    (if k = Key r then Some (case map_of m k of None \<Rightarrow> r | Some e \<Rightarrow> Intersection r e) else map_of m k)"
  using Add1_key [OF assms] by (auto simp: Add1_def Let_def gomap_simps split: option.splits)

lemma Add1_wf:
  assumes "wf_requirements m" "wf_requirement r" shows "wf_requirements (Add1 r m)"
proof -
  have "gomap_wf (Add1 r m)" using assms(1) by (simp add: Add1_def Let_def wf_requirements_def)
  moreover have "wf_requirement req \<and> Key req = k" if "map_of (Add1 r m) k = Some req" for k req
    using that assms
    by (auto simp: map_of_Add1 Intersection_wf Intersection_Key wf_requirements_lookup
        split: if_splits option.splits)
  ultimately show ?thesis by (simp add: wf_requirements_iff)
qed

section \<open>The interface of a constraint map\<close>

text \<open>
  A store that keeps, for every key, the meet of the constraints added at that key. The lemmas of
  the locale hold for every such store: adding a list of constraints permits exactly the values
  that were permitted and that every added constraint allows, in whatever order they are added.
\<close>

locale constraint_store = constraint invar key allows meet
  for invar :: "'r \<Rightarrow> bool" and key :: "'r \<Rightarrow> 'k" and allows :: "'r \<Rightarrow> 'v \<Rightarrow> bool"
    and meet :: "'r \<Rightarrow> 'r \<Rightarrow> 'r" +
  fixes store_invar :: "'m \<Rightarrow> bool" and lookup :: "'m \<Rightarrow> 'k \<Rightarrow> 'r option"
    and add :: "'r \<Rightarrow> 'm \<Rightarrow> 'm"
  assumes lookup_add: "store_invar m \<Longrightarrow> invar r \<Longrightarrow>
      lookup (add r m) k =
        (if k = key r then Some (case lookup m k of None \<Rightarrow> r | Some e \<Rightarrow> meet r e) else lookup m k)"
    and store_add: "store_invar m \<Longrightarrow> invar r \<Longrightarrow> store_invar (add r m)"
begin

lemma store_fold_add:
  "store_invar m \<Longrightarrow> \<forall>r \<in> set rs. invar r \<Longrightarrow> store_invar (fold add rs m)"
  by (induction rs arbitrary: m) (auto simp: store_add)

lemma permits_add:
  assumes "store_invar m" "invar r"
  shows "pred_option (\<lambda>c. allows c v) (lookup (add r m) k) \<longleftrightarrow>
     pred_option (\<lambda>c. allows c v) (lookup m k) \<and> (key r = k \<longrightarrow> allows r v)"
  using assms by (auto simp: lookup_add allows_meet split: option.splits)

lemma permits_fold_add:
  assumes "store_invar m" "\<forall>r \<in> set rs. invar r"
  shows "pred_option (\<lambda>c. allows c v) (lookup (fold add rs m) k) \<longleftrightarrow>
     pred_option (\<lambda>c. allows c v) (lookup m k) \<and> (\<forall>r \<in> set rs. key r = k \<longrightarrow> allows r v)"
  using assms
proof (induction rs arbitrary: m)
  case (Cons r rs)
  then have "store_invar (add r m)" "invar r" by (simp_all add: store_add)
  then show ?case using Cons by (auto simp: permits_add)
qed simp

lemma lookup_fold_add_None:
  assumes "store_invar m" "\<forall>r \<in> set rs. invar r"
  shows "lookup (fold add rs m) k = None \<longleftrightarrow> lookup m k = None \<and> (\<forall>r \<in> set rs. key r \<noteq> k)"
  using assms
proof (induction rs arbitrary: m)
  case (Cons r rs)
  then show ?case by (auto simp: store_add lookup_add)
qed simp

lemma permits_order_irrelevant:
  assumes "store_invar m" "\<forall>r \<in> set rs. invar r" "set rs' = set rs"
  shows "pred_option (\<lambda>c. allows c v) (lookup (fold add rs' m) k) \<longleftrightarrow>
     pred_option (\<lambda>c. allows c v) (lookup (fold add rs m) k)"
  using assms permits_fold_add [of m rs v k] permits_fold_add [of m rs' v k] by simp

end

interpretation reqs: constraint_store wf_requirement Key Has Intersection wf_requirements map_of Add1
  by unfold_locales (auto simp: map_of_Add1 Add1_wf)

text \<open>\<^verbatim>\<open>Get\<close> on a missing key allows everything, so it reads off what the store permits.\<close>

lemma Has_Get: "Has (Get m k) v \<longleftrightarrow> pred_option (\<lambda>c. Has c v) (map_of m k)"
  by (simp add: Get_def split: option.splits)

lemma Add_wf [wf_intros]:
  "wf_requirements m \<Longrightarrow> \<forall>r \<in> set rs. wf_requirement r \<Longrightarrow> wf_requirements (Add rs m)"
  by (simp add: Add_def reqs.store_fold_add)

lemma Has_Get_Add:
  "wf_requirements m \<Longrightarrow> \<forall>r \<in> set rs. wf_requirement r \<Longrightarrow>
     Has (Get (Add rs m) k) v \<longleftrightarrow> Has (Get m k) v \<and> (\<forall>r \<in> set rs. Key r = k \<longrightarrow> Has r v)"
  by (simp add: Has_Get Add_def reqs.permits_fold_add)

lemma HasKey_Add:
  "wf_requirements m \<Longrightarrow> \<forall>r \<in> set rs. wf_requirement r \<Longrightarrow>
     HasKey (Add rs m) k \<longleftrightarrow> HasKey m k \<or> (\<exists>r \<in> set rs. Key r = k)"
  using reqs.lookup_fold_add_None [of m rs k] by (auto simp: HasKey_def Add_def split: option.splits)

lemma NewRequirements_Nil [simp]: "NewRequirements [] = []"
  by (simp add: NewRequirements_def Add_def)

lemma Get_wf [wf_intros]: "wf_requirements m \<Longrightarrow> wf_requirement (Get m k)"
  by (auto simp: Get_def wf_requirements_lookup split: option.splits)

lemma Get_Key:
  "wf_requirements m \<Longrightarrow> normalize_key k = k \<Longrightarrow> Key (Get m k) = k"
  by (auto simp: Get_def wf_requirements_lookup split: option.splits)

lemma HasKey_iff: "HasKey m k \<longleftrightarrow> k \<in> fst ` set m"
  by (auto simp: HasKey_def keys_iff_map_of split: option.splits)

section \<open>Compatibility\<close>

text \<open>The smaller map is scanned, but the keys found are those of both maps.\<close>

lemma set_intersectKeys:
  "set (intersectKeys r s) = fst ` set r \<inter> fst ` set s"
  by (auto simp: intersectKeys_def HasKey_iff Let_def)

lemma Intersects_Nil_iff:
  "Intersects r s = [] \<longleftrightarrow> (\<forall>k. HasKey r k \<and> HasKey s k \<longrightarrow> key_conflict r s k = None)"
  by (auto simp: Intersects_def map_filter_def filter_empty_conv set_intersectKeys HasKey_iff)

text \<open>When two requirements at a key are compatible: a common value, or both are satisfied by a
  node without the label.\<close>

definition keys_agree :: "requirement \<Rightarrow> requirement \<Rightarrow> bool" where
  "keys_agree e i \<longleftrightarrow> (\<exists>v. Has e v \<and> Has i v) \<or> negativeOp (Operator i) \<and> negativeOp (Operator e)"

lemma key_conflict_None_iff:
  assumes "wf_requirements r" "wf_requirements s"
  shows "key_conflict r s k = None \<longleftrightarrow> keys_agree (Get r k) (Get s k)"
  using HasIntersection_exact [OF Get_wf Get_wf, OF assms, of k k]
  by (auto simp: key_conflict_def keys_agree_def Let_def)

lemma Compatible_None_iff:
  assumes "wf_requirements r" "wf_requirements s"
  shows "Compatible r s allow = None \<longleftrightarrow>
    (\<forall>k. HasKey s k \<longrightarrow>
       (if HasKey r k then keys_agree (Get r k) (Get s k)
        else k \<in> set allow \<or> negativeOp (Operator (Get s k))))"
proof -
  have "find (undefined_key r s allow) (map fst s) = None \<longleftrightarrow>
        (\<forall>k. HasKey s k \<longrightarrow> \<not> undefined_key r s allow k)"
    by (auto simp: find_None_iff HasKey_iff)
  then show ?thesis
    using Intersects_Nil_iff [of r s] key_conflict_None_iff [OF assms]
    by (auto simp: Compatible_def undefined_key_def split: option.splits list.splits)
qed

section \<open>Node labels\<close>

text \<open>Label maps whose keys are not aliases, such as the labels of a node that registered.\<close>

definition canonical_labels :: "(string, string) gomap \<Rightarrow> bool" where
  "canonical_labels labels \<longleftrightarrow> gomap_wf labels \<and> (\<forall>k \<in> fst ` set labels. normalize_key k = k)"

lemma NewLabelRequirements_wf [simp, wf_intros]: "wf_requirements (NewLabelRequirements labels)"
  by (auto simp: NewLabelRequirements_def intro!: Add_wf)

lemma Has_NewLabelRequirements:
  "Has (Get (NewLabelRequirements labels) k) v \<longleftrightarrow>
     (\<forall>(k', v') \<in> set labels. normalize_key k' = k \<longrightarrow> v' = v)"
  by (subst NewLabelRequirements_def, subst Has_Get_Add) (auto simp: Get_def)

lemma HasKey_NewLabelRequirements:
  "HasKey (NewLabelRequirements labels) k \<longleftrightarrow> (\<exists>l \<in> set labels. normalize_key (fst l) = k)"
  by (subst NewLabelRequirements_def, subst HasKey_Add) (auto simp: HasKey_def split_def)

lemma canonical_HasKey:
  assumes "canonical_labels labels"
  shows "HasKey (NewLabelRequirements labels) k \<longleftrightarrow> map_of labels k \<noteq> None"
  using assms
  by (force simp: HasKey_NewLabelRequirements canonical_labels_def in_gomap_iff map_of_eq_None_iff)

lemma canonical_Has:
  assumes "canonical_labels labels" "map_of labels k = Some w"
  shows "Has (Get (NewLabelRequirements labels) k) v \<longleftrightarrow> v = w"
proof -
  have "(\<forall>(k', v') \<in> set labels. normalize_key k' = k \<longrightarrow> v' = v) \<longleftrightarrow> w = v"
    using assms by (force simp: canonical_labels_def in_gomap_iff dest: map_of_SomeD)
  then show ?thesis by (auto simp: Has_NewLabelRequirements)
qed

text \<open>A requirement against one label of a node: the value must be allowed; a missing label is
  accepted by the negative operators only.\<close>

definition label_satisfies :: "requirement \<Rightarrow> string option \<Rightarrow> bool" where
  "label_satisfies r l = (case l of Some v \<Rightarrow> Has r v | None \<Rightarrow> negativeOp (Operator r))"

lemma negativeOp_no_values:
  assumes "wf_requirement r" "\<not> complement r" "negativeOp (Operator r)"
  shows "\<not> Has r v"
  using assms Operator_empty_iff [OF assms(1)] wf_requirement_D(1) [OF assms(1)]
  by (auto simp: negativeOp_def Operator_simps split: if_splits)

lemma keys_agree_label:
  assumes "canonical_labels labels" "map_of labels k = Some w"
  shows "keys_agree (Get (NewLabelRequirements labels) k) i \<longleftrightarrow> Has i w"
proof -
  let ?e = "Get (NewLabelRequirements labels) k"
  have has: "Has ?e v \<longleftrightarrow> v = w" for v using canonical_Has [OF assms] .
  have wf: "wf_requirement ?e" by (intro Get_wf NewLabelRequirements_wf)
  have "\<not> negativeOp (Operator ?e)"
  proof
    assume neg: "negativeOp (Operator ?e)"
    then have compl: "complement ?e" using has negativeOp_no_values [OF wf] by blast
    have "finite (insert w (valueSet ?e))" using wf_requirement_D(1) [OF wf] by simp
    then obtain v where "v \<noteq> w" "v \<notin> valueSet ?e" "withinBounds v (gte ?e) (lte ?e)"
      using bounded_value_outside [of "insert w (valueSet ?e)" "gte ?e" "lte ?e"]
        wf_requirement_D [OF wf] by blast
    with compl have "Has ?e v" by (simp add: Has_iff)
    with has \<open>v \<noteq> w\<close> show False by blast
  qed
  with has show ?thesis by (auto simp: keys_agree_def)
qed

lemma Compatible_labels_iff:
  assumes "canonical_labels labels" "wf_requirements s"
  shows "Compatible (NewLabelRequirements labels) s [] = None \<longleftrightarrow>
     (\<forall>k r. map_of s k = Some r \<longrightarrow> label_satisfies r (map_of labels k))"
proof -
  have "(if HasKey (NewLabelRequirements labels) k
         then keys_agree (Get (NewLabelRequirements labels) k) (Get s k)
         else k \<in> set [] \<or> negativeOp (Operator (Get s k))) \<longleftrightarrow>
        label_satisfies (Get s k) (map_of labels k)" for k
    using canonical_HasKey [OF assms(1), of k] keys_agree_label [OF assms(1)]
    by (cases "map_of labels k") (auto simp: label_satisfies_def)
  then have "Compatible (NewLabelRequirements labels) s [] = None \<longleftrightarrow>
     (\<forall>k. HasKey s k \<longrightarrow> label_satisfies (Get s k) (map_of labels k))"
    using Compatible_None_iff [OF NewLabelRequirements_wf assms(2), of labels "[]"] by metis
  then show ?thesis by (force simp: HasKey_def Get_def split: option.splits)
qed

section \<open>Wire form\<close>

lemma sequence_opt_map:
  "\<forall>x \<in> set xs. f x \<noteq> None \<Longrightarrow> sequence_opt (map f xs) = Some (map (the \<circ> f) xs)"
  by (induction xs) auto

lemma NodeSelectorRequirements_emit:
  "NodeSelectorRequirements r = concat (map (\<lambda>(_, req). emit req) r)"
  unfolding NodeSelectorRequirements_def emit_def BoundedNodeSelectorRequirements_def
  by (rule arg_cong [where f = concat]) (auto split: option.splits)

lemma wire_roundtrip:
  assumes wf: "wf_requirements r"
  shows "\<exists>r'. NewNodeSelectorRequirementsWithMinValues (NodeSelectorRequirements r) = Some r' \<and>
    wf_requirements r' \<and> (\<forall>k. HasKey r' k \<longleftrightarrow> HasKey r k) \<and>
    (\<forall>k v. Has (Get r' k) v \<longleftrightarrow> pred_option (\<lambda>q. emitted_allows q v) (map_of r k))"
proof -
  let ?ns = "NodeSelectorRequirements r"
  have mem: "n \<in> set ?ns \<longleftrightarrow> (\<exists>k q. map_of r k = Some q \<and> n \<in> set (emit q))" for n
  proof -
    have "n \<in> set ?ns \<longleftrightarrow> (\<exists>(k, q) \<in> set r. n \<in> set (emit q))"
      by (auto simp: NodeSelectorRequirements_emit)
    also have "\<dots> \<longleftrightarrow> (\<exists>k q. map_of r k = Some q \<and> n \<in> set (emit q))"
      using wf by (intro gomap_bex_map_of) (simp add: wf_requirements_def)
    finally show ?thesis .
  qed
  have rb: "\<exists>s. readBack n = Some s \<and> wf_requirement s \<and> Key s = k"
    if "map_of r k = Some q" "n \<in> set (emit q)" for n k q
    using emit_readBack that wf_requirements_lookup [OF wf] by blast
  have ok: "\<forall>n \<in> set ?ns. readBack n \<noteq> None"
  proof
    fix n assume "n \<in> set ?ns"
    then obtain k q where "map_of r k = Some q" "n \<in> set (emit q)" using mem by blast
    then show "readBack n \<noteq> None" using rb by fastforce
  qed
  have at: "n \<in> set ?ns \<and> Key (the (readBack n)) = k \<longleftrightarrow>
      (\<exists>q. map_of r k = Some q \<and> n \<in> set (emit q))" for n k
    unfolding mem using rb [of k _ n] rb [of _ _ n] by (metis option.sel)
  let ?rs = "map (the \<circ> readBack) ?ns"
  have new: "NewNodeSelectorRequirementsWithMinValues ?ns = Some (Add ?rs [])"
    using sequence_opt_map [OF ok] unfolding NewNodeSelectorRequirementsWithMinValues_def readBack_def
    by (simp add: comp_def)
  have wfs: "\<forall>s \<in> set ?rs. wf_requirement s"
  proof
    fix s assume "s \<in> set ?rs"
    then obtain n where "n \<in> set ?ns" "s = the (readBack n)" by auto
    moreover then obtain k q where "map_of r k = Some q" "n \<in> set (emit q)" using mem by blast
    ultimately show "wf_requirement s" using rb by fastforce
  qed
  have "HasKey (Add ?rs []) k \<longleftrightarrow> HasKey r k" for k
  proof -
    have ne: "emit q \<noteq> []" for q
      by (auto simp: emit_def BoundedNodeSelectorRequirements_def split: option.splits)
    have "HasKey (Add ?rs []) k \<longleftrightarrow> (\<exists>n \<in> set ?ns. Key (the (readBack n)) = k)"
      using HasKey_Add [OF wf_requirements_Nil wfs, of k] by (auto simp: HasKey_def)
    also have "\<dots> \<longleftrightarrow> (\<exists>n q. map_of r k = Some q \<and> n \<in> set (emit q))"
      using at [of _ k] by blast
    also have "\<dots> \<longleftrightarrow> HasKey r k"
      using ne by (auto simp: HasKey_def ex_in_conv split: option.splits)
    finally show ?thesis .
  qed
  moreover have "Has (Get (Add ?rs []) k) v \<longleftrightarrow> pred_option (\<lambda>q. emitted_allows q v) (map_of r k)"
    for k v
  proof -
    have "Has (Get (Add ?rs []) k) v \<longleftrightarrow>
        (\<forall>n \<in> set ?ns. Key (the (readBack n)) = k \<longrightarrow> Has (the (readBack n)) v)"
      using Has_Get_Add [OF wf_requirements_Nil wfs, of k v] by (simp add: Get_def)
    also have "\<dots> \<longleftrightarrow> (\<forall>q. map_of r k = Some q \<longrightarrow> (\<forall>n \<in> set (emit q). Has (the (readBack n)) v))"
      using at [of _ k] by blast
    also have "\<dots> \<longleftrightarrow> pred_option (\<lambda>q. emitted_allows q v) (map_of r k)"
      using emit_meaning wf_requirements_lookup [OF wf] by (auto simp: option.pred_set)
    finally show ?thesis .
  qed
  ultimately show ?thesis using new Add_wf [OF wf_requirements_Nil wfs] by blast
qed

section \<open>Pod requirements\<close>

definition expression_ok :: "match_expression \<Rightarrow> bool" where
  "expression_ok m = wellFormedSelector (meOperator m) (meValues m)"

definition expression_allows :: "match_expression \<Rightarrow> string \<Rightarrow> bool" where
  "expression_allows m v = selector_allows (meOperator m) (meValues m) v"

text \<open>The match expressions that become requirements: the heaviest preference, when preferences
  count, and the first required term.\<close>

definition chosen_expressions ::
  "(preferred_scheduling_term list \<Rightarrow> preferred_scheduling_term list) \<Rightarrow> pod \<Rightarrow>
   pod_requirement_type \<Rightarrow> match_expression list" where
  "chosen_expressions sorter p ptype =
     (case Option.bind (podAffinityField p) nodeAffinity of
        None \<Rightarrow> []
      | Some na \<Rightarrow>
          (if ptype = podRequirementTypeAll
           then (case heaviest_preference sorter na of
                   Some pref \<Rightarrow> matchExpressions (pstPreference pref) | None \<Rightarrow> []) else []) @
          (case requiredNodeTerms na of Some (t # _) \<Rightarrow> matchExpressions t | _ \<Rightarrow> []))"

text \<open>A pod pinned to a zone that also requires more than three CPUs, for the witnesses.\<close>

definition examplePod :: pod where
  "examplePod =
     (emptyPod ''p'') \<lparr> nodeSelector := [(''zone'', ''a'')],
       podAffinityField := Some
         \<lparr> nodeAffinity = Some
             \<lparr> requiredNodeTerms = Some [\<lparr> matchExpressions =
                 [\<lparr> meKey = ''cpu'', meOperator = OpGt, meValues = [''3''] \<rparr>] \<rparr>],
               preferredNodeTerms = [] \<rparr>,
           podAffinity = None, podAntiAffinity = None \<rparr> \<rparr>"

lemma built_requirements:
  assumes "\<forall>m \<in> set ms. \<exists>r. mk m = Some r \<and> wf_requirement r \<and> Key r = key m \<and> (\<forall>v. Has r v \<longleftrightarrow> allows m v)"
  shows "\<exists>qs. sequence_opt (map mk ms) = Some qs \<and> wf_requirements (Add qs []) \<and>
    (\<forall>k v. Has (Get (Add qs []) k) v \<longleftrightarrow> (\<forall>m \<in> set ms. key m = k \<longrightarrow> allows m v))"
proof -
  let ?qs = "map (the \<circ> mk) ms"
  have seq: "sequence_opt (map mk ms) = Some ?qs"
    using assms by (intro sequence_opt_map) fastforce
  have wfs: "\<forall>r \<in> set ?qs. wf_requirement r" using assms by fastforce
  have "Has (Get (Add ?qs []) k) v \<longleftrightarrow> (\<forall>m \<in> set ms. key m = k \<longrightarrow> allows m v)" for k v
    using assms by (subst Has_Get_Add [OF wf_requirements_Nil wfs]) (fastforce simp: Get_def)
  with seq show ?thesis using Add_wf [OF wf_requirements_Nil wfs] by blast
qed

lemma NewNodeSelectorRequirements_meaning:
  assumes "\<forall>m \<in> set ms. expression_ok m"
  shows "\<exists>rs. NewNodeSelectorRequirements ms = Some rs \<and> wf_requirements rs \<and>
    (\<forall>k v. Has (Get rs k) v \<longleftrightarrow>
       (\<forall>m \<in> set ms. normalize_key (meKey m) = k \<longrightarrow> expression_allows m v))"
proof -
  have "\<forall>m \<in> set ms. \<exists>r. NewRequirementWithFlexibility (meKey m) (meOperator m) None (meValues m) = Some r \<and>
      wf_requirement r \<and> Key r = normalize_key (meKey m) \<and> (\<forall>v. Has r v \<longleftrightarrow> expression_allows m v)"
    using assms NewRequirement_exists unfolding expression_ok_def expression_allows_def by blast
  from built_requirements [OF this] show ?thesis
    by (auto simp: NewNodeSelectorRequirements_def)
qed

lemma NewNodeSelectorRequirementsWithMinValues_meaning:
  assumes "\<forall>n \<in> set ns. wellFormedSelector (nsrOperator n) (nsrValues n)"
  shows "\<exists>rs. NewNodeSelectorRequirementsWithMinValues ns = Some rs \<and> wf_requirements rs \<and>
    (\<forall>k v. Has (Get rs k) v \<longleftrightarrow>
       (\<forall>n \<in> set ns. normalize_key (nsrKey n) = k \<longrightarrow> selector_allows (nsrOperator n) (nsrValues n) v))"
proof -
  have "\<forall>n \<in> set ns. \<exists>r. NewRequirementWithFlexibility (nsrKey n) (nsrOperator n) (nsrMinValues n) (nsrValues n) = Some r \<and>
      wf_requirement r \<and> Key r = normalize_key (nsrKey n) \<and>
      (\<forall>v. Has r v \<longleftrightarrow> selector_allows (nsrOperator n) (nsrValues n) v)"
    using assms NewRequirement_exists by blast
  from built_requirements [OF this] show ?thesis
    by (auto simp: NewNodeSelectorRequirementsWithMinValues_def)
qed

lemma Has_Get_Add_values:
  assumes "wf_requirements rs" "wf_requirements r"
  shows "wf_requirements (Add (reqValues rs) r)"
    "Has (Get (Add (reqValues rs) r) k) v \<longleftrightarrow> Has (Get r k) v \<and> Has (Get rs k) v"
proof -
  have wfs: "\<forall>q \<in> set (reqValues rs). wf_requirement q"
    using assms(1) by (auto simp: reqValues_def wf_requirements_def)
  then show "wf_requirements (Add (reqValues rs) r)" using assms(2) by (intro Add_wf)
  have "q \<in> set (reqValues rs) \<and> Key q = k \<longleftrightarrow> map_of rs k = Some q" for q
    using assms(1) by (force simp: reqValues_def wf_requirements_def in_gomap_iff [symmetric])
  then show "Has (Get (Add (reqValues rs) r) k) v \<longleftrightarrow> Has (Get r k) v \<and> Has (Get rs k) v"
    using Has_Get_Add [OF assms(2) wfs, of k v] Has_Get [of rs k v] by (auto simp: option.pred_set)
qed

lemma add_term_meaning:
  assumes "\<forall>m \<in> set ms. expression_ok m" "wf_requirements r"
  shows "\<exists>r'. add_term ms r = Some r' \<and> wf_requirements r' \<and>
    (\<forall>k v. Has (Get r' k) v \<longleftrightarrow> Has (Get r k) v \<and>
       (\<forall>m \<in> set ms. normalize_key (meKey m) = k \<longrightarrow> expression_allows m v))"
proof -
  obtain rs where rs: "NewNodeSelectorRequirements ms = Some rs" "wf_requirements rs"
    "\<forall>k v. Has (Get rs k) v \<longleftrightarrow>
       (\<forall>m \<in> set ms. normalize_key (meKey m) = k \<longrightarrow> expression_allows m v)"
    using NewNodeSelectorRequirements_meaning [OF assms(1)] by blast
  then show ?thesis
    using Has_Get_Add_values [OF rs(2) assms(2)] by (simp add: add_term_def)
qed

lemma newPodRequirements_meaning:
  assumes "\<forall>m \<in> set (chosen_expressions sorter p ptype). expression_ok m"
  shows "\<exists>r. newPodRequirements sorter p ptype = Some r \<and> wf_requirements r \<and>
    (\<forall>k v. Has (Get r k) v \<longleftrightarrow>
       (\<forall>(k', v') \<in> set (nodeSelector p). normalize_key k' = k \<longrightarrow> v' = v) \<and>
       (\<forall>m \<in> set (chosen_expressions sorter p ptype).
          normalize_key (meKey m) = k \<longrightarrow> expression_allows m v))"
proof (cases "Option.bind (podAffinityField p) nodeAffinity")
  case None
  then show ?thesis
    by (simp add: newPodRequirements_def chosen_expressions_def Has_NewLabelRequirements)
next
  case (Some na)
  let ?r0 = "NewLabelRequirements (nodeSelector p)"
  define pref where "pref = (if ptype = podRequirementTypeAll
    then (case heaviest_preference sorter na of
            Some pref \<Rightarrow> matchExpressions (pstPreference pref) | None \<Rightarrow> []) else [])"
  define req where
    "req = (case requiredNodeTerms na of Some (t # _) \<Rightarrow> matchExpressions t | _ \<Rightarrow> [])"
  have chosen: "chosen_expressions sorter p ptype = pref @ req"
    by (simp add: chosen_expressions_def Some pref_def req_def)
  have "add_term [] r = Some r" for r
    by (simp add: add_term_def NewNodeSelectorRequirements_def Add_def reqValues_def)
  then have skip: "add_term [] = Some" by (rule ext)
  have new: "newPodRequirements sorter p ptype = Option.bind (add_term pref ?r0) (add_term req)"
    by (auto simp: newPodRequirements_def Some pref_def req_def skip Let_def
        split: option.splits list.splits)
  obtain r1 where r1: "add_term pref ?r0 = Some r1" "wf_requirements r1"
    "\<forall>k v. Has (Get r1 k) v \<longleftrightarrow> Has (Get ?r0 k) v \<and>
       (\<forall>m \<in> set pref. normalize_key (meKey m) = k \<longrightarrow> expression_allows m v)"
    using add_term_meaning [of pref ?r0] assms chosen by auto
  obtain r2 where r2: "add_term req r1 = Some r2" "wf_requirements r2"
    "\<forall>k v. Has (Get r2 k) v \<longleftrightarrow> Has (Get r1 k) v \<and>
       (\<forall>m \<in> set req. normalize_key (meKey m) = k \<longrightarrow> expression_allows m v)"
    using add_term_meaning [of req r1] assms chosen r1(2) by auto
  show ?thesis
    using new r1(1) r2(1,2) by (auto simp: chosen r2(3) r1(3) Has_NewLabelRequirements)
qed

section \<open>Properties\<close>

text \<open>
  C22. \<^verbatim>\<open>Requirements.Add\<close> narrows: after adding a list of requirements, in any order and with any
  repetition of keys, the map stays well formed, defines exactly the old and the added keys, and
  at each key allows exactly the values that it allowed before and that every added requirement
  on that key allows.
\<close>
theorem Add_narrows:
  assumes "wf_requirements m" "\<forall>r \<in> set rs. wf_requirement r"
  shows "wf_requirements (Add rs m) \<and>
    (\<forall>k. HasKey (Add rs m) k \<longleftrightarrow> HasKey m k \<or> (\<exists>r \<in> set rs. Key r = k)) \<and>
    (\<forall>k v. Has (Get (Add rs m) k) v \<longleftrightarrow> Has (Get m k) v \<and> (\<forall>r \<in> set rs. Key r = k \<longrightarrow> Has r v))"
  using assms by (simp add: Add_wf HasKey_Add Has_Get_Add)

theorem Add_narrows_witness:
  "Has (Get (Add [reqIn ''zone'' [''a'', ''b''], reqIn ''zone'' [''b'', ''c'']] []) ''zone'') ''b'' \<and>
   \<not> Has (Get (Add [reqIn ''zone'' [''a'', ''b''], reqIn ''zone'' [''b'', ''c'']] []) ''zone'') ''a''"
proof -
  have "normalize_key ''zone'' = ''zone''" by code_simp
  then show ?thesis
    using Add_narrows [of "[]" "[reqIn ''zone'' [''a'', ''b''], reqIn ''zone'' [''b'', ''c'']]"]
    by (simp add: Get_def [of "[]"])
qed

text \<open>
  C2. \<^verbatim>\<open>Requirements.Compatible\<close> returns no error exactly when every incoming key is either
  defined on the receiver with a common value (or with both sides satisfied by an absent label),
  or undefined there and tolerated: listed in \<^verbatim>\<open>AllowUndefined\<close> or carrying a negative operator.
  The answer does not depend on the iteration order of either map nor on which map is smaller.
\<close>
theorem Compatible_is_exact:
  assumes "wf_requirements r" "wf_requirements s"
  shows "Compatible r s allow = None \<longleftrightarrow>
    (\<forall>k. HasKey s k \<longrightarrow>
       (if HasKey r k
        then (\<exists>v. Has (Get r k) v \<and> Has (Get s k) v) \<or>
             Operator (Get s k) \<in> {OpNotIn, OpDoesNotExist} \<and>
             Operator (Get r k) \<in> {OpNotIn, OpDoesNotExist}
        else k \<in> set allow \<or> Operator (Get s k) \<in> {OpNotIn, OpDoesNotExist}))"
  using Compatible_None_iff [OF assms, of allow] by (simp add: keys_agree_def negativeOp_def)

theorem Compatible_is_exact_witness:
  "Compatible (NewLabelRequirements [(''zone'', ''a'')]) (NewLabelRequirements [(''zone'', ''b'')]) [] \<noteq> None \<and>
   \<not> (\<exists>v. Has (Get (NewLabelRequirements [(''zone'', ''a'')]) ''zone'') v \<and>
          Has (Get (NewLabelRequirements [(''zone'', ''b'')]) ''zone'') v)"
proof -
  let ?r = "NewLabelRequirements [(''zone'', ''a'')]" and ?s = "NewLabelRequirements [(''zone'', ''b'')]"
  have k: "HasKey ?r ''zone''" "HasKey ?s ''zone''"
    "Operator (Get ?s ''zone'') = OpIn" by code_simp+
  have none: "\<not> (\<exists>v. Has (Get ?r ''zone'') v \<and> Has (Get ?s ''zone'') v)"
  proof -
    have "normalize_key ''zone'' = ''zone''" by code_simp
    then show ?thesis by (simp add: Has_NewLabelRequirements)
  qed
  show ?thesis
    using Compatible_is_exact [of ?r ?s "[]"] k none by fastforce
qed



text \<open>
  C21. Writing a requirement map to its API form (\<^verbatim>\<open>NodeSelectorRequirements\<close>) and reading it back
  (\<^verbatim>\<open>NewNodeSelectorRequirementsWithMinValues\<close>) never panics, keeps the keys, and keeps the allowed
  values at every key whose requirement does not combine a bound with excluded values; there it
  can only widen.
\<close>
theorem wire_form_roundtrip:
  assumes "wf_requirements r"
  shows "\<exists>r'. NewNodeSelectorRequirementsWithMinValues (NodeSelectorRequirements r) = Some r' \<and>
     (\<forall>k. HasKey r' k \<longleftrightarrow> HasKey r k) \<and>
     (\<forall>k v. Has (Get r k) v \<longrightarrow> Has (Get r' k) v) \<and>
     (\<forall>k v. valueSet (Get r k) = {} \<or> (gte (Get r k) = None \<and> lte (Get r k) = None) \<longrightarrow>
        Has (Get r' k) v \<longrightarrow> Has (Get r k) v)"
proof -
  obtain r' where r': "NewNodeSelectorRequirementsWithMinValues (NodeSelectorRequirements r) = Some r'"
    "\<forall>k. HasKey r' k \<longleftrightarrow> HasKey r k"
    "\<forall>k v. Has (Get r' k) v \<longleftrightarrow> pred_option (\<lambda>q. emitted_allows q v) (map_of r k)"
    using wire_roundtrip [OF assms] by blast
  have "Has (Get r k) v \<Longrightarrow> Has (Get r' k) v" for k v
    using r'(3) Has_Get [of r k v] Has_emitted by (auto simp: option.pred_set)
  moreover have "Has (Get r k) v"
    if "valueSet (Get r k) = {} \<or> (gte (Get r k) = None \<and> lte (Get r k) = None)" "Has (Get r' k) v"
    for k v
  proof (cases "map_of r k")
    case (Some q)
    then have "emitted_allows q v" "Get r k = q" using that(2) r'(3) by (simp_all add: Get_def)
    with Some that(1) show ?thesis
      using emitted_allows_iff [of q v] wf_requirements_lookup [OF assms Some] by simp
  qed (simp add: Get_def)
  ultimately show ?thesis using r' by blast
qed

theorem wire_form_roundtrip_witness:
  "\<exists>r'. NewNodeSelectorRequirementsWithMinValues
          (NodeSelectorRequirements (NewRequirements [reqIn ''zone'' [''a'', ''b'']])) = Some r' \<and>
     Has (Get r' ''zone'') ''a''"
proof -
  let ?r = "NewRequirements [reqIn ''zone'' [''a'', ''b'']]"
  have "wf_requirements ?r" by (simp add: NewRequirements_def Add_wf)
  moreover have "Has (Get ?r ''zone'') ''a''" by code_simp
  ultimately show ?thesis using wire_form_roundtrip [of ?r] by blast
qed

text \<open>
  The requirements taken from a pod (\<^verbatim>\<open>NewPodRequirements\<close> with preferences,
  \<^verbatim>\<open>NewStrictPodRequirements\<close> without) are its node selector, the first term of its required node
  affinity, and the heaviest preferred term when preferences count: at every key exactly the
  values all of those select are allowed, and no panic occurs on validated expressions.
\<close>
theorem newPodRequirements_selects:
  assumes "\<forall>m \<in> set (chosen_expressions sorter p ptype). wellFormedSelector (meOperator m) (meValues m)"
  shows "\<exists>r. newPodRequirements sorter p ptype = Some r \<and> wf_requirements r \<and>
    (\<forall>k v. Has (Get r k) v \<longleftrightarrow>
       (\<forall>(k', v') \<in> set (nodeSelector p). normalize_key k' = k \<longrightarrow> v' = v) \<and>
       (\<forall>m \<in> set (chosen_expressions sorter p ptype).
          normalize_key (meKey m) = k \<longrightarrow> selector_allows (meOperator m) (meValues m) v))"
  using newPodRequirements_meaning [of sorter p ptype] assms
  by (simp add: expression_ok_def expression_allows_def)

theorem newPodRequirements_selects_witness:
  "\<exists>r. newPodRequirements (\<lambda>xs. xs) examplePod podRequirementTypeRequiredOnly = Some r \<and>
     Has (Get r ''cpu'') ''4'' \<and> \<not> Has (Get r ''cpu'') ''3''"
proof -
  have c: "chosen_expressions (\<lambda>xs. xs) examplePod podRequirementTypeRequiredOnly =
      [\<lparr> meKey = ''cpu'', meOperator = OpGt, meValues = [''3''] \<rparr>]"
    and s: "nodeSelector examplePod = [(''zone'', ''a'')]"
    by (simp_all add: chosen_expressions_def examplePod_def emptyPod_def)
  have n: "normalize_key ''cpu'' = ''cpu''" "normalize_key ''zone'' = ''zone''" by code_simp+
  have a: "atoi ''3'' = (3, None)" "atoi ''4'' = (4, None)" by code_simp+
  have ok: "wellFormedSelector OpGt [''3'']"
    using a by (simp add: wellFormedSelector_def knownOp_def numericOp_def)
  show ?thesis
    using newPodRequirements_selects [of "\<lambda>xs. xs" examplePod podRequirementTypeRequiredOnly] ok n a
    unfolding c s by auto
qed

end
