(* ===== verification/Taints.thy ===== *)
theory Taints
  imports K8sTypes
begin

text \<open>
  \<^verbatim>\<open>pkg/scheduling/taints.go\<close>: whether a set of tolerations covers a list of taints, and merging
  of taint lists.

  \<^verbatim>\<open>Toleration.ToleratesTaint\<close> and \<^verbatim>\<open>Taint.MatchTaint\<close> belong to Kubernetes: they are the parameters
  \<open>tt\<close> and \<open>mt\<close>. The documented behaviour of the second, that a taint is identified by key and
  effect, is the hypothesis \<open>matches_key_effect\<close>.
\<close>

definition DisruptedTaintKey :: string where "DisruptedTaintKey = Group @ ''/disrupted''"
definition UnregisteredTaintKey :: string where "UnregisteredTaintKey = Group @ ''/unregistered''"

definition DisruptedNoScheduleTaint :: taint where
  "DisruptedNoScheduleTaint =
     \<lparr> taintKey = DisruptedTaintKey, taintValue = [], taintEffect = NoSchedule \<rparr>"

definition UnregisteredNoExecuteTaint :: taint where
  "UnregisteredNoExecuteTaint =
     \<lparr> taintKey = UnregisteredTaintKey, taintValue = [], taintEffect = NoExecute \<rparr>"

definition KnownEphemeralTaints :: "taint list" where
  "KnownEphemeralTaints =
     [\<lparr> taintKey = ''node.kubernetes.io/not-ready'', taintValue = [], taintEffect = NoSchedule \<rparr>,
      \<lparr> taintKey = ''node.kubernetes.io/not-ready'', taintValue = [], taintEffect = NoExecute \<rparr>,
      \<lparr> taintKey = ''node.kubernetes.io/unreachable'', taintValue = [], taintEffect = NoSchedule \<rparr>,
      \<lparr> taintKey = ''node.cloudprovider.kubernetes.io/uninitialized'', taintValue = ''true'',
        taintEffect = NoSchedule \<rparr>,
      UnregisteredNoExecuteTaint]"

definition KnownEphemeralTaintKeyPrefixes :: "string list" where
  "KnownEphemeralTaintKeyPrefixes = [''readiness.k8s.io/'']"

definition IsKnownEphemeralTaint :: "(taint \<Rightarrow> taint \<Rightarrow> bool) \<Rightarrow> taint option \<Rightarrow> bool" where
  "IsKnownEphemeralTaint mt t =
     (case t of None \<Rightarrow> False
      | Some t \<Rightarrow>
          if list_ex (\<lambda>k. mt k t) KnownEphemeralTaints then True
          else list_ex (\<lambda>p. has_prefix (taintKey t) p) KnownEphemeralTaintKeyPrefixes)"

text \<open>\<^verbatim>\<open>Tolerates\<close> collects one error per taint that no toleration covers.\<close>

definition Tolerates ::
  "(toleration \<Rightarrow> taint \<Rightarrow> bool) \<Rightarrow> taint list \<Rightarrow> toleration list \<Rightarrow> taint list" where
  "Tolerates tt ts tols =
     fold (\<lambda>t errs. let tolerates = fold (\<lambda>tol acc. acc \<or> tt tol t) tols False
                    in if \<not> tolerates then errs @ [t] else errs) ts []"

definition ToleratesPod :: "(toleration \<Rightarrow> taint \<Rightarrow> bool) \<Rightarrow> taint list \<Rightarrow> pod \<Rightarrow> taint list" where
  "ToleratesPod tt ts p = Tolerates tt ts (tolerations p)"

definition MergeTaints :: "(taint \<Rightarrow> taint \<Rightarrow> bool) \<Rightarrow> taint list \<Rightarrow> taint list \<Rightarrow> taint list" where
  "MergeTaints mt ts others =
     fold (\<lambda>t res. if list_ex (\<lambda>x. mt t x) res then res else res @ [t]) others ts"

section \<open>Lemmas\<close>

definition matches_key_effect :: "(taint \<Rightarrow> taint \<Rightarrow> bool) \<Rightarrow> bool" where
  "matches_key_effect mt \<longleftrightarrow>
     (\<forall>a b. mt a b \<longleftrightarrow> taintKey a = taintKey b \<and> taintEffect a = taintEffect b)"

definition keyEffect :: "taint \<Rightarrow> string \<times> taint_effect" where
  "keyEffect t = (taintKey t, taintEffect t)"

lemma fold_or: "fold (\<lambda>x acc. acc \<or> P x) xs b \<longleftrightarrow> b \<or> (\<exists>x \<in> set xs. P x)"
  by (induction xs arbitrary: b) auto

lemma Tolerates_filter: "Tolerates tt ts tols = filter (\<lambda>t. \<not> (\<exists>tol \<in> set tols. tt tol t)) ts"
proof -
  have "fold (\<lambda>t errs. let tolerates = fold (\<lambda>tol acc. acc \<or> tt tol t) tols False
          in if \<not> tolerates then errs @ [t] else errs) ts errs =
        errs @ filter (\<lambda>t. \<not> (\<exists>tol \<in> set tols. tt tol t)) ts" for errs
    by (induction ts arbitrary: errs) (auto simp: fold_or Let_def)
  then show ?thesis by (simp add: Tolerates_def)
qed

lemma Tolerates_Nil_iff:
  "Tolerates tt ts tols = [] \<longleftrightarrow> (\<forall>t \<in> set ts. \<exists>tol \<in> set tols. tt tol t)"
  by (auto simp: Tolerates_filter filter_empty_conv)

lemma MergeTaints_step:
  assumes "matches_key_effect mt"
  shows "list_ex (\<lambda>x. mt t x) res \<longleftrightarrow> keyEffect t \<in> keyEffect ` set res"
  using assms by (auto simp: list_ex_iff matches_key_effect_def keyEffect_def)

lemma MergeTaints_invariant:
  assumes "matches_key_effect mt"
  shows "keyEffect ` set (MergeTaints mt ts us) = keyEffect ` (set ts \<union> set us)"
    "distinct (map keyEffect ts) \<Longrightarrow> distinct (map keyEffect (MergeTaints mt ts us))"
    "\<exists>zs. MergeTaints mt ts us = ts @ zs \<and> set zs \<subseteq> set us"
proof -
  show "keyEffect ` set (MergeTaints mt ts us) = keyEffect ` (set ts \<union> set us)"
    unfolding MergeTaints_def
    by (induction us arbitrary: ts) (auto simp: MergeTaints_step [OF assms])
  show "distinct (map keyEffect ts) \<Longrightarrow> distinct (map keyEffect (MergeTaints mt ts us))"
    unfolding MergeTaints_def
    by (induction us arbitrary: ts) (auto simp: MergeTaints_step [OF assms])
  show "\<exists>zs. MergeTaints mt ts us = ts @ zs \<and> set zs \<subseteq> set us"
    unfolding MergeTaints_def
  proof (induction us arbitrary: ts)
    case (Cons u us)
    show ?case
    proof (cases "list_ex (\<lambda>x. mt u x) ts")
      case True
      then show ?thesis using Cons [of ts] by auto
    next
      case False
      then show ?thesis using Cons [of "ts @ [u]"] by auto
    qed
  qed simp
qed

section \<open>Properties\<close>

text \<open>
  \<^verbatim>\<open>Taints.Tolerates\<close> reports an error for exactly the taints that none of the tolerations
  covers, in the order of the taint list, and \<^verbatim>\<open>Taints.Merge\<close> keeps the receiver's taints as a
  prefix, adds only taints of its argument, covers every key and effect of both lists and never
  introduces a second taint with the same key and effect.
\<close>
theorem taints_tolerate_and_merge:
  assumes "matches_key_effect mt"
  shows "Tolerates tt ts tols = filter (\<lambda>t. \<not> (\<exists>tol \<in> set tols. tt tol t)) ts \<and>
    keyEffect ` set (MergeTaints mt ts us) = keyEffect ` (set ts \<union> set us) \<and>
    (distinct (map keyEffect ts) \<longrightarrow> distinct (map keyEffect (MergeTaints mt ts us))) \<and>
    (\<exists>zs. MergeTaints mt ts us = ts @ zs \<and> set zs \<subseteq> set us)"
  using Tolerates_filter MergeTaints_invariant [OF assms] by blast

theorem taints_tolerate_and_merge_witness:
  "MergeTaints (\<lambda>a b. taintKey a = taintKey b \<and> taintEffect a = taintEffect b)
     [DisruptedNoScheduleTaint] [DisruptedNoScheduleTaint, UnregisteredNoExecuteTaint] =
     [DisruptedNoScheduleTaint, UnregisteredNoExecuteTaint] \<and>
   distinct (map keyEffect (MergeTaints (\<lambda>a b. taintKey a = taintKey b \<and> taintEffect a = taintEffect b)
     [DisruptedNoScheduleTaint] [DisruptedNoScheduleTaint, UnregisteredNoExecuteTaint]))"
proof -
  let ?mt = "\<lambda>a b :: taint. taintKey a = taintKey b \<and> taintEffect a = taintEffect b"
  have mt: "matches_key_effect ?mt" by (simp add: matches_key_effect_def)
  have "MergeTaints ?mt [DisruptedNoScheduleTaint]
      [DisruptedNoScheduleTaint, UnregisteredNoExecuteTaint] =
      [DisruptedNoScheduleTaint, UnregisteredNoExecuteTaint]" by code_simp
  with taints_tolerate_and_merge [OF mt, where ts = "[DisruptedNoScheduleTaint]"
      and us = "[DisruptedNoScheduleTaint, UnregisteredNoExecuteTaint]"]
  show ?thesis by simp
qed

end
