(* ===== verification/HostPorts.thy ===== *)
theory HostPorts
  imports K8sTypes
begin

text \<open>
  \<^verbatim>\<open>pkg/scheduling/hostportusage.go\<close>: the host ports in use on a node, by pod.

  An address is the 16-byte form that \<^verbatim>\<open>net.ParseIP\<close> returns, or nil (\<open>None\<close>) when the text is not
  an address. \<^verbatim>\<open>net.ParseIP\<close> itself is the parameter \<open>parseIP\<close>. The theory also holds the interface
  \<open>usage\<close> shared by the per-node usage trackers.
\<close>

type_synonym ip = "nat list option"
type_synonym namespaced_name = "string \<times> string"

definition IPv4zero :: "nat list" where "IPv4zero = replicate 10 0 @ [255, 255, 0, 0, 0, 0]"
definition IPv6unspecified :: "nat list" where "IPv6unspecified = replicate 16 0"

definition IsUnspecified :: "ip \<Rightarrow> bool" where
  "IsUnspecified a \<longleftrightarrow> a = Some IPv4zero \<or> a = Some IPv6unspecified"

record host_port =
  IP :: ip
  Port :: int
  Protocol :: string

definition Matches :: "host_port \<Rightarrow> host_port \<Rightarrow> bool" where
  "Matches p rhs =
     (if Protocol p \<noteq> Protocol rhs then False
      else if Port p \<noteq> Port rhs then False
      else if IP p \<noteq> IP rhs \<and> \<not> IsUnspecified (IP p) \<and> \<not> IsUnspecified (IP rhs) then False
      else True)"

type_synonym host_port_usage = "(namespaced_name, host_port list) gomap"

definition NewHostPortUsage :: host_port_usage where
  "NewHostPortUsage = []"

definition podKey :: "pod \<Rightarrow> namespaced_name" where
  "podKey p = (podNamespace p, podName p)"

definition AddPorts :: "pod \<Rightarrow> host_port list \<Rightarrow> host_port_usage \<Rightarrow> host_port_usage" where
  "AddPorts usedBy ports u = AList.update (podKey usedBy) ports u"

definition DeletePodPorts :: "namespaced_name \<Rightarrow> host_port_usage \<Rightarrow> host_port_usage" where
  "DeletePodPorts key u = AList.delete key u"

text \<open>\<^verbatim>\<open>Conflicts\<close> returns the first conflicting pair of new and existing port.\<close>

definition Conflicts ::
  "host_port_usage \<Rightarrow> pod \<Rightarrow> host_port list \<Rightarrow> (host_port \<times> host_port) option" where
  "Conflicts u usedBy ports =
     (let candidates = concat (map (\<lambda>newEntry.
            concat (map (\<lambda>(key, entries). map (\<lambda>existing. (newEntry, existing, key)) entries) u)) ports)
      in case find (\<lambda>(new, existing, key). Matches new existing \<and> key \<noteq> podKey usedBy) candidates of
           None \<Rightarrow> None | Some (new, existing, _) \<Rightarrow> Some (new, existing))"

definition GetHostPorts :: "(string \<Rightarrow> ip) \<Rightarrow> pod \<Rightarrow> host_port list" where
  "GetHostPorts parseIP p =
     concat (map (\<lambda>c. List.map_filter (\<lambda>q.
         if cpHostPort q = 0 then None
         else let hostIP = (if cpHostIP q = [] then ''0.0.0.0'' else cpHostIP q)
              in Some \<lparr> IP = parseIP hostIP, Port = cpHostPort q, Protocol = cpProtocol q \<rparr>)
       (ctrPorts c)) (containers p))"

section \<open>The interface of a usage tracker\<close>

text \<open>
  What a per-node usage tracker promises: recording a pod's use replaces what was recorded for
  that pod and deleting a pod forgets exactly that pod.
\<close>

locale usage =
  fixes uses :: "'u \<Rightarrow> 'k \<Rightarrow> 'x option"
    and add :: "'k \<Rightarrow> 'x \<Rightarrow> 'u \<Rightarrow> 'u" and del :: "'k \<Rightarrow> 'u \<Rightarrow> 'u"
  assumes uses_add: "uses (add k x u) = (uses u)(k \<mapsto> x)"
    and uses_del: "uses (del k u) = (uses u)(k := None)"
begin

lemma uses_del_add: "uses u k = None \<Longrightarrow> uses (del k (add k x u)) = uses u"
  by (auto simp: uses_add uses_del)

lemma uses_add_other: "k \<noteq> k' \<Longrightarrow> uses (add k x u) k' = uses u k'"
  by (simp add: uses_add)

lemma uses_del_other: "k \<noteq> k' \<Longrightarrow> uses (del k u) k' = uses u k'"
  by (simp add: uses_del)

lemma uses_readd: "uses (add k y (add k x u)) = uses (add k y u)"
  by (simp add: uses_add)

text \<open>A relation between the entries of different pods survives every deletion, and every addition
  whose entry is related to all the others.\<close>

lemma pairwise_del:
  assumes "\<And>k k' x y. k \<noteq> k' \<Longrightarrow> uses u k = Some x \<Longrightarrow> uses u k' = Some y \<Longrightarrow> R x y"
    and "k \<noteq> k'" "uses (del d u) k = Some x" "uses (del d u) k' = Some y"
  shows "R x y"
  using assms by (auto simp: uses_del split: if_splits)

lemma pairwise_add:
  assumes "\<And>k k' x y. k \<noteq> k' \<Longrightarrow> uses u k = Some x \<Longrightarrow> uses u k' = Some y \<Longrightarrow> R x y"
    and "\<And>k x. k \<noteq> d \<Longrightarrow> uses u k = Some x \<Longrightarrow> R z x \<and> R x z"
    and "k \<noteq> k'" "uses (add d z u) k = Some x" "uses (add d z u) k' = Some y"
  shows "R x y"
  using assms(3-5) assms(1) [of k k' x y] assms(2) [of k x] assms(2) [of k' y]
  by (auto simp: uses_add split: if_splits)

end

interpretation ports: usage map_of "\<lambda>k x u. AList.update k x u" DeletePodPorts
  by unfold_locales (auto simp: DeletePodPorts_def gomap_simps)

section \<open>Lemmas\<close>

lemma Matches_iff:
  "Matches p q \<longleftrightarrow> Protocol p = Protocol q \<and> Port p = Port q \<and>
     (IP p = IP q \<or> IsUnspecified (IP p) \<or> IsUnspecified (IP q))"
  by (auto simp: Matches_def)

lemma Matches_sym: "Matches p q \<longleftrightarrow> Matches q p"
  by (auto simp: Matches_iff)

lemma Matches_refl [simp]: "Matches p p"
  by (simp add: Matches_iff)

lemma Conflicts_None_iff:
  "Conflicts u p ports = None \<longleftrightarrow>
     (\<forall>new \<in> set ports. \<forall>(key, entries) \<in> set u. \<forall>existing \<in> set entries.
        key \<noteq> podKey p \<longrightarrow> \<not> Matches new existing)"
proof -
  have "Conflicts u p ports = None \<longleftrightarrow>
     find (\<lambda>(new, existing, key). Matches new existing \<and> key \<noteq> podKey p)
       (concat (map (\<lambda>newEntry. concat (map (\<lambda>(key, entries).
          map (\<lambda>existing. (newEntry, existing, key)) entries) u)) ports)) = None"
    by (auto simp: Conflicts_def split: option.splits prod.splits)
  also have "\<dots> \<longleftrightarrow> (\<forall>new \<in> set ports. \<forall>(key, entries) \<in> set u. \<forall>existing \<in> set entries.
        key \<noteq> podKey p \<longrightarrow> \<not> Matches new existing)"
    by (fastforce simp: find_None_iff)
  finally show ?thesis .
qed

text \<open>No two pods of the node share a host port.\<close>

definition disjointPorts :: "host_port list \<Rightarrow> host_port list \<Rightarrow> bool" where
  "disjointPorts ps qs \<longleftrightarrow> (\<forall>p \<in> set ps. \<forall>q \<in> set qs. \<not> Matches p q)"

definition conflict_free :: "host_port_usage \<Rightarrow> bool" where
  "conflict_free u \<longleftrightarrow> gomap_wf u \<and>
     (\<forall>k k' x y. k \<noteq> k' \<longrightarrow> map_of u k = Some x \<longrightarrow> map_of u k' = Some y \<longrightarrow> disjointPorts x y)"

lemma disjointPorts_sym: "disjointPorts x y \<longleftrightarrow> disjointPorts y x"
  unfolding disjointPorts_def using Matches_sym by blast

text \<open>How a scheduling simulation uses the tracker: a pod is added only after \<^verbatim>\<open>Conflicts\<close> returned
  nil, and pods are deleted at any time.\<close>

inductive port_step :: "host_port_usage \<Rightarrow> host_port_usage \<Rightarrow> bool" where
  add: "Conflicts u p ports = None \<Longrightarrow> port_step u (AddPorts p ports u)"
| del: "port_step u (DeletePodPorts key u)"

inductive_cases port_stepE: "port_step u u'"

inductive ports_reachable :: "host_port_usage \<Rightarrow> bool" where
  init: "ports_reachable NewHostPortUsage"
| step: "ports_reachable u \<Longrightarrow> port_step u u' \<Longrightarrow> ports_reachable u'"

lemma Conflicts_disjoint:
  assumes "gomap_wf u" "Conflicts u p ports = None" "k \<noteq> podKey p" "map_of u k = Some x"
  shows "disjointPorts ports x"
  using assms by (fastforce simp: Conflicts_None_iff disjointPorts_def in_gomap_iff)

lemma conflict_free_step:
  assumes "conflict_free u" "port_step u u'" shows "conflict_free u'"
  using assms(2)
proof cases
  case (add p ports)
  have old: "\<And>k k' x y. k \<noteq> k' \<Longrightarrow> map_of u k = Some x \<Longrightarrow> map_of u k' = Some y \<Longrightarrow> disjointPorts x y"
    using assms(1) unfolding conflict_free_def by blast
  have new: "\<And>k x. k \<noteq> podKey p \<Longrightarrow> map_of u k = Some x \<Longrightarrow> disjointPorts ports x \<and> disjointPorts x ports"
    using Conflicts_disjoint [of u p ports] assms(1) add(2) disjointPorts_sym
    by (auto simp: conflict_free_def)
  have "disjointPorts x y" if "k \<noteq> k'" "map_of u' k = Some x" "map_of u' k' = Some y" for k k' x y
    using ports.pairwise_add [of u disjointPorts "podKey p" ports k k' x y] old new that
    unfolding add(1) AddPorts_def by blast
  moreover have "gomap_wf u'" using assms(1) by (simp add: add(1) AddPorts_def conflict_free_def)
  ultimately show ?thesis unfolding conflict_free_def by blast
next
  case (del key)
  then show ?thesis
    using assms(1) by (auto simp: conflict_free_def DeletePodPorts_def gomap_simps split: if_splits)
qed

lemma reachable_conflict_free: "ports_reachable u \<Longrightarrow> conflict_free u"
proof (induction rule: ports_reachable.induct)
  case init
  then show ?case by (simp add: conflict_free_def NewHostPortUsage_def)
next
  case (step u u')
  then show ?case using conflict_free_step by blast
qed

section \<open>Properties\<close>



end
