(* ===== verification/Volumes.thy ===== *)
theory Volumes
  imports HostPorts
begin

text \<open>
  \<^verbatim>\<open>pkg/scheduling/volumeusage.go\<close> and \<^verbatim>\<open>pkg/utils/volume/volume.go\<close>: the volumes mounted on a node,
  per storage driver, and the attachment limits of the node.

  The API server is the parameter \<open>kube\<close>: a record of lookups that return an object or an error.
  The CSI name translation is a field of it.
\<close>

section \<open>Data\<close>

type_synonym volumes = "(string, string set) gomap"

datatype api_error = NotFound | OtherError string

record pvc =
  pvcNamespace :: string
  pvcName :: string
  pvcVolumeName :: string
  pvcStorageClassName :: "string option"

record pv =
  pvCSIDriver :: "string option"
  pvAWSElasticBlockStore :: bool

record kube =
  getPVC :: "namespaced_name \<Rightarrow> api_error + pvc"
  getPV :: "string \<Rightarrow> api_error + pv"
  getStorageClassProvisioner :: "string \<Rightarrow> api_error + string"
  csiNameFromInTreeName :: "string \<Rightarrow> string option"

record volume_usage =
  vuVolumes :: volumes
  podVolumes :: "(namespaced_name, volumes) gomap"
  limits :: "(string, int) gomap"
  publishedDrivers :: "string set"

section \<open>Volumes\<close>

definition AddVolume :: "string \<Rightarrow> string \<Rightarrow> volumes \<Rightarrow> volumes" where
  "AddVolume provisioner pvcID u =
     (let existing = get_or {} u provisioner
      in AList.update provisioner (insert pvcID existing) u)"

definition InsertVolumes :: "volumes \<Rightarrow> volumes \<Rightarrow> volumes" where
  "InsertVolumes vols u = fold (\<lambda>(k, v) u. AList.update k (get_or {} u k \<union> v) u) vols u"

definition UnionVolumes :: "volumes \<Rightarrow> volumes \<Rightarrow> volumes" where
  "UnionVolumes u vol = InsertVolumes vol u"

section \<open>Resolving the drivers of a pod\<close>

definition AWSEBSDriverName :: string where "AWSEBSDriverName = ''ebs.csi.aws.com''"

text \<open>\<^verbatim>\<open>GetPersistentVolumeClaim\<close>: nil without error for a volume that is backed by no claim.\<close>

definition GetPersistentVolumeClaim :: "kube \<Rightarrow> pod \<Rightarrow> pod_volume \<Rightarrow> api_error + pvc option" where
  "GetPersistentVolumeClaim kube p volume =
     (let name = (case pvolClaimName volume of
                    Some n \<Rightarrow> Some n
                  | None \<Rightarrow> if pvolEphemeral volume
                            then Some (podName p @ ''-'' @ pvolName volume) else None)
      in case name of
           None \<Rightarrow> Inr None
         | Some n \<Rightarrow> (case getPVC kube (podNamespace p, n) of Inl e \<Rightarrow> Inl e | Inr c \<Rightarrow> Inr (Some c)))"

definition driverFromSC :: "kube \<Rightarrow> string \<Rightarrow> api_error + string" where
  "driverFromSC kube storageClassName =
     (case getStorageClassProvisioner kube storageClassName of
        Inl e \<Rightarrow> Inl e
      | Inr provisioner \<Rightarrow>
          (case csiNameFromInTreeName kube provisioner of
             Some csiName \<Rightarrow> Inr csiName | None \<Rightarrow> Inr provisioner))"

definition driverFromVolume :: "kube \<Rightarrow> string \<Rightarrow> api_error + string" where
  "driverFromVolume kube volumeName =
     (case getPV kube volumeName of
        Inl e \<Rightarrow> Inl e
      | Inr pv \<Rightarrow>
          (case pvCSIDriver pv of
             Some d \<Rightarrow> Inr d
           | None \<Rightarrow> if pvAWSElasticBlockStore pv then Inr AWSEBSDriverName else Inr []))"

definition ResolveDriver :: "kube \<Rightarrow> pvc \<Rightarrow> string \<Rightarrow> api_error + string" where
  "ResolveDriver kube c storageClassName =
     (if pvcVolumeName c \<noteq> [] then
        (case driverFromVolume kube (pvcVolumeName c) of
           Inl e \<Rightarrow> Inl e
         | Inr d \<Rightarrow> if d \<noteq> [] then Inr d else Inr [])
      else if storageClassName = [] then Inr []
      else case driverFromSC kube storageClassName of
             Inl NotFound \<Rightarrow> Inr []
           | Inl e \<Rightarrow> Inl e
           | Inr d \<Rightarrow> Inr d)"

fun GetVolumesLoop :: "kube \<Rightarrow> pod \<Rightarrow> pod_volume list \<Rightarrow> volumes \<Rightarrow> api_error + volumes" where
  "GetVolumesLoop kube p [] acc = Inr acc"
| "GetVolumesLoop kube p (volume # rest) acc =
     (case GetPersistentVolumeClaim kube p volume of
        Inl NotFound \<Rightarrow> GetVolumesLoop kube p rest acc
      | Inl e \<Rightarrow> Inl e
      | Inr None \<Rightarrow> GetVolumesLoop kube p rest acc
      | Inr (Some c) \<Rightarrow>
          (case ResolveDriver kube c (case pvcStorageClassName c of Some s \<Rightarrow> s | None \<Rightarrow> []) of
             Inl e \<Rightarrow> Inl e
           | Inr driverName \<Rightarrow>
               GetVolumesLoop kube p rest
                 (if driverName \<noteq> []
                  then AddVolume driverName (pvcNamespace c @ ''/'' @ pvcName c) acc else acc)))"

definition GetVolumes :: "kube \<Rightarrow> pod \<Rightarrow> api_error + volumes" where
  "GetVolumes kube p = GetVolumesLoop kube p (specVolumes p) []"

section \<open>Usage of a node\<close>

definition NewVolumeUsage :: volume_usage where
  "NewVolumeUsage = \<lparr> vuVolumes = [], podVolumes = [], limits = [], publishedDrivers = {} \<rparr>"

text \<open>\<^verbatim>\<open>ExceedsLimits\<close>: the driver, the count and the limit of the first limit exceeded.\<close>

definition overLimit :: "volume_usage \<Rightarrow> string \<times> string set \<Rightarrow> bool" where
  "overLimit v = (\<lambda>(k, s). case map_of (limits v) k of Some l \<Rightarrow> int (card s) > l | None \<Rightarrow> False)"

definition ExceedsLimits :: "volume_usage \<Rightarrow> volumes \<Rightarrow> (string \<times> nat \<times> int) option" where
  "ExceedsLimits v vols =
     (case find (overLimit v) (UnionVolumes (vuVolumes v) vols) of
        Some (k, s) \<Rightarrow> Some (k, card s, the (map_of (limits v) k))
      | None \<Rightarrow> None)"

definition AddLimit :: "string \<Rightarrow> int \<Rightarrow> volume_usage \<Rightarrow> volume_usage" where
  "AddLimit driver n v =
     v \<lparr> publishedDrivers := insert driver (publishedDrivers v),
         limits := AList.update driver n (limits v) \<rparr>"

definition AddUnbounded :: "string \<Rightarrow> volume_usage \<Rightarrow> volume_usage" where
  "AddUnbounded driver v =
     v \<lparr> publishedDrivers := insert driver (publishedDrivers v),
         limits := AList.delete driver (limits v) \<rparr>"

definition AddFallbackLimit :: "string \<Rightarrow> int \<Rightarrow> volume_usage \<Rightarrow> volume_usage" where
  "AddFallbackLimit driver n v =
     (if driver \<notin> publishedDrivers v then v \<lparr> limits := AList.update driver n (limits v) \<rparr> else v)"

definition AddPodVolumes :: "namespaced_name \<Rightarrow> volumes \<Rightarrow> volume_usage \<Rightarrow> volume_usage" where
  "AddPodVolumes key vols v =
     v \<lparr> podVolumes := AList.update key vols (podVolumes v),
         vuVolumes := UnionVolumes (vuVolumes v) vols \<rparr>"

definition DeletePodVolumes :: "namespaced_name \<Rightarrow> volume_usage \<Rightarrow> volume_usage" where
  "DeletePodVolumes key v =
     (let remaining = AList.delete key (podVolumes v)
      in v \<lparr> podVolumes := remaining,
             vuVolumes := fold (\<lambda>(_, c) acc. InsertVolumes c acc) remaining [] \<rparr>)"

interpretation vols: usage "\<lambda>v. map_of (podVolumes v)" AddPodVolumes DeletePodVolumes
  by unfold_locales
     (auto simp: AddPodVolumes_def DeletePodVolumes_def Let_def gomap_simps fun_eq_iff)

section \<open>Lemmas\<close>

definition mounted :: "volumes \<Rightarrow> string \<Rightarrow> string set" where
  "mounted u d = get_or {} u d"

lemma mounted_AddVolume: "mounted (AddVolume d i u) d' = (if d' = d then insert i (mounted u d) else mounted u d')"
  by (simp add: mounted_def AddVolume_def gomap_simps)

lemma InsertVolumes_Cons: "InsertVolumes ((k, v) # vols) u = InsertVolumes vols (AList.update k (get_or {} u k \<union> v) u)"
  by (simp add: InsertVolumes_def)

lemma InsertVolumes_Nil [simp]: "InsertVolumes [] u = u"
  by (simp add: InsertVolumes_def)

lemma mounted_InsertVolumes:
  assumes "gomap_wf vols" shows "mounted (InsertVolumes vols u) d = mounted u d \<union> mounted vols d"
  using assms
proof (induction vols arbitrary: u)
  case (Cons kv vols)
  obtain k v where kv: "kv = (k, v)" by (cases kv)
  have "gomap_wf vols" "map_of vols k = None"
    using Cons.prems by (auto simp: kv gomap_wf_Cons map_of_eq_None_iff)
  then show ?case
    using Cons.IH [of "AList.update k (get_or {} u k \<union> v) u"]
    by (auto simp: kv InsertVolumes_Cons mounted_def gomap_simps get_or_def split: if_splits)
qed (simp add: mounted_def get_or_def)

lemma InsertVolumes_keys: "fst ` set (InsertVolumes vols u) = fst ` set u \<union> fst ` set vols"
proof (induction vols arbitrary: u)
  case (Cons kv vols)
  then show ?case by (cases kv) (simp add: InsertVolumes_Cons keys_update)
qed simp

lemma InsertVolumes_wf [wf_intros]: "gomap_wf u \<Longrightarrow> gomap_wf (InsertVolumes vols u)"
  by (induction vols arbitrary: u) (auto simp: InsertVolumes_Cons)

lemma mounted_fold_Insert:
  assumes "\<forall>(k, c) \<in> set ps. gomap_wf c"
  shows "mounted (fold (\<lambda>(_, c) acc. InsertVolumes c acc) ps u) d =
    mounted u d \<union> (\<Union>(k, c) \<in> set ps. mounted c d)"
  using assms by (induction ps arbitrary: u) (auto simp: mounted_InsertVolumes)

lemma fold_Insert_wf: "gomap_wf u \<Longrightarrow> gomap_wf (fold (\<lambda>(_, c) acc. InsertVolumes c acc) ps u)"
  by (induction ps arbitrary: u) (auto simp: InsertVolumes_wf)

text \<open>The invariant of a node's usage, and the exact form it has after a deletion.\<close>

definition vu_wf :: "volume_usage \<Rightarrow> bool" where
  "vu_wf v \<longleftrightarrow> gomap_wf (vuVolumes v) \<and> gomap_wf (podVolumes v) \<and>
     (\<forall>(k, c) \<in> set (podVolumes v). gomap_wf c)"

definition tracked :: "volume_usage \<Rightarrow> string \<Rightarrow> string set" where
  "tracked v d = (\<Union>(k, c) \<in> set (podVolumes v). mounted c d)"

lemma tracked_iff:
  "gomap_wf (podVolumes v) \<Longrightarrow> i \<in> tracked v d \<longleftrightarrow> (\<exists>k c. map_of (podVolumes v) k = Some c \<and> i \<in> mounted c d)"
  unfolding tracked_def using gomap_bex_map_of [of "podVolumes v" "\<lambda>k c. i \<in> mounted c d"] by auto

lemma vu_wf_lookup: "vu_wf v \<Longrightarrow> map_of (podVolumes v) k = Some c \<Longrightarrow> gomap_wf c"
  by (auto simp: vu_wf_def dest: map_of_SomeD)

lemma vu_wf_iff:
  "vu_wf v \<longleftrightarrow> gomap_wf (vuVolumes v) \<and> gomap_wf (podVolumes v) \<and>
     (\<forall>k c. map_of (podVolumes v) k = Some c \<longrightarrow> gomap_wf c)"
  unfolding vu_wf_def using gomap_ball_map_of [of "podVolumes v" "\<lambda>_ c. gomap_wf c"] by blast

lemma NewVolumeUsage_wf [simp]: "vu_wf NewVolumeUsage"
  by (simp add: vu_wf_def NewVolumeUsage_def)

lemma tracked_New: "tracked NewVolumeUsage d = {}"
  by (simp add: tracked_def NewVolumeUsage_def)

lemma AddPodVolumes_wf [wf_intros]: "vu_wf v \<Longrightarrow> gomap_wf vols \<Longrightarrow> vu_wf (AddPodVolumes key vols v)"
  by (simp add: vu_wf_iff AddPodVolumes_def UnionVolumes_def InsertVolumes_wf gomap_simps)

lemma DeletePodVolumes_wf [wf_intros]: "vu_wf v \<Longrightarrow> vu_wf (DeletePodVolumes key v)"
  by (simp add: vu_wf_iff DeletePodVolumes_def Let_def fold_Insert_wf gomap_simps)

lemma limits_wf [wf_intros]:
  "vu_wf v \<Longrightarrow> vu_wf (AddLimit d n v)" "vu_wf v \<Longrightarrow> vu_wf (AddUnbounded d v)"
  "vu_wf v \<Longrightarrow> vu_wf (AddFallbackLimit d n v)"
  by (simp_all add: vu_wf_iff AddLimit_def AddUnbounded_def AddFallbackLimit_def)

lemma DeletePodVolumes_exact:
  assumes "vu_wf v"
  shows "mounted (vuVolumes (DeletePodVolumes key v)) d = tracked (DeletePodVolumes key v) d"
proof -
  have "\<forall>(k, c) \<in> set (AList.delete key (podVolumes v)). gomap_wf c"
    using assms by (auto simp: vu_wf_def AList.delete_eq)
  then show ?thesis
    by (simp add: DeletePodVolumes_def Let_def mounted_fold_Insert tracked_def)
       (simp add: mounted_def get_or_def)
qed

lemma AddPodVolumes_mounted:
  "gomap_wf vols \<Longrightarrow> mounted (vuVolumes (AddPodVolumes key vols v)) d = mounted (vuVolumes v) d \<union> mounted vols d"
  by (simp add: AddPodVolumes_def UnionVolumes_def mounted_InsertVolumes)

lemma AddPodVolumes_tracked_iff:
  assumes "vu_wf v"
  shows "i \<in> tracked (AddPodVolumes key vols v) d \<longleftrightarrow> i \<in> mounted vols d \<or>
    (\<exists>k c. k \<noteq> key \<and> map_of (podVolumes v) k = Some c \<and> i \<in> mounted c d)"
  using assms ex_lookup_update [of key vols "map_of (podVolumes v)" "\<lambda>c. i \<in> mounted c d"]
  by (simp add: tracked_iff vu_wf_def AddPodVolumes_def gomap_simps)

lemma AddPodVolumes_tracked:
  assumes "vu_wf v" "map_of (podVolumes v) key = None"
  shows "tracked (AddPodVolumes key vols v) d = tracked v d \<union> mounted vols d"
proof -
  have "gomap_wf (podVolumes v)" using assms(1) by (simp add: vu_wf_def)
  then have "i \<in> tracked (AddPodVolumes key vols v) d \<longleftrightarrow> i \<in> tracked v d \<union> mounted vols d" for i
    unfolding AddPodVolumes_tracked_iff [OF assms(1)] using assms(2) tracked_iff
    by (metis Un_iff option.distinct(1))
  then show ?thesis by blast
qed

lemma AddPodVolumes_tracked_subset:
  assumes "vu_wf v" shows "tracked (AddPodVolumes key vols v) d \<subseteq> tracked v d \<union> mounted vols d"
proof -
  have "gomap_wf (podVolumes v)" using assms(1) by (simp add: vu_wf_def)
  then show ?thesis
    unfolding subset_iff AddPodVolumes_tracked_iff [OF assms] using tracked_iff by blast
qed

lemma not_overLimit:
  "\<not> overLimit v x \<longleftrightarrow> (\<forall>l. map_of (limits v) (fst x) = Some l \<longrightarrow> int (card (snd x)) \<le> l)"
  by (cases x; cases "map_of (limits v) (fst x)") (auto simp: overLimit_def)

lemma ExceedsLimits_None_iff:
  assumes "gomap_wf (vuVolumes v)" "gomap_wf vols"
  shows "ExceedsLimits v vols = None \<longleftrightarrow>
    (\<forall>d \<in> fst ` set (vuVolumes v) \<union> fst ` set vols. \<forall>l. map_of (limits v) d = Some l \<longrightarrow>
       int (card (mounted (vuVolumes v) d \<union> mounted vols d)) \<le> l)"
proof -
  let ?u = "UnionVolumes (vuVolumes v) vols"
  have wf: "gomap_wf ?u" using assms(1) by (simp add: UnionVolumes_def InsertVolumes_wf)
  have "ExceedsLimits v vols = None \<longleftrightarrow>
      (\<forall>(d, s) \<in> set ?u. \<forall>l. map_of (limits v) d = Some l \<longrightarrow> int (card s) \<le> l)"
  proof -
    have "ExceedsLimits v vols = None \<longleftrightarrow> find (overLimit v) ?u = None"
      by (auto simp: ExceedsLimits_def split: option.splits)
    also have "\<dots> \<longleftrightarrow> (\<forall>x \<in> set ?u. \<not> overLimit v x)" by (auto simp: find_None_iff)
    finally show ?thesis by (simp add: not_overLimit split_beta)
  qed
  also have "\<dots> \<longleftrightarrow> (\<forall>d \<in> fst ` set ?u. \<forall>l. map_of (limits v) d = Some l \<longrightarrow> int (card (mounted ?u d)) \<le> l)"
    using wf by (auto simp: mounted_def get_or_def in_gomap_iff keys_iff_map_of)
  finally show ?thesis
    using assms(2) by (simp add: UnionVolumes_def InsertVolumes_keys mounted_InsertVolumes)
qed

section \<open>Sequences of operations\<close>

datatype vu_op =
  OpAdd namespaced_name volumes | OpDelete namespaced_name
| OpLimit string int | OpUnbounded string | OpFallback string int

fun vu_apply :: "vu_op \<Rightarrow> volume_usage \<Rightarrow> volume_usage" where
  "vu_apply (OpAdd key vols) v = AddPodVolumes key vols v"
| "vu_apply (OpDelete key) v = DeletePodVolumes key v"
| "vu_apply (OpLimit d n) v = AddLimit d n v"
| "vu_apply (OpUnbounded d) v = AddUnbounded d v"
| "vu_apply (OpFallback d n) v = AddFallbackLimit d n v"

fun vu_op_ok :: "vu_op \<Rightarrow> bool" where
  "vu_op_ok (OpAdd key vols) = gomap_wf vols"
| "vu_op_ok _ = True"

definition vu_run :: "vu_op list \<Rightarrow> volume_usage" where
  "vu_run ops = fold vu_apply ops NewVolumeUsage"

text \<open>The limit that the published operations on a driver leave: the last one decides, and a
  fallback counts only while nothing was published.\<close>

fun published_limit :: "string \<Rightarrow> vu_op list \<Rightarrow> int option option" where
  "published_limit d [] = None"
| "published_limit d (OpLimit d' n # ops) =
     (case published_limit d ops of Some l \<Rightarrow> Some l
      | None \<Rightarrow> if d' = d then Some (Some n) else None)"
| "published_limit d (OpUnbounded d' # ops) =
     (case published_limit d ops of Some l \<Rightarrow> Some l
      | None \<Rightarrow> if d' = d then Some None else None)"
| "published_limit d (_ # ops) = published_limit d ops"

lemma vu_apply_wf: "vu_wf v \<Longrightarrow> vu_op_ok op \<Longrightarrow> vu_wf (vu_apply op v)"
  by (cases op) (auto intro: wf_intros)

lemma vu_apply_superset:
  assumes "vu_wf v" "vu_op_ok op" "\<And>d. tracked v d \<subseteq> mounted (vuVolumes v) d"
  shows "tracked (vu_apply op v) d \<subseteq> mounted (vuVolumes (vu_apply op v)) d"
proof (cases op)
  case (OpAdd key vols)
  then show ?thesis
    using assms AddPodVolumes_tracked_subset [OF assms(1), of key vols d]
    by (auto simp: AddPodVolumes_mounted)
next
  case (OpDelete key)
  then show ?thesis using DeletePodVolumes_exact [OF assms(1)] by simp
qed (use assms(3) in \<open>simp_all add: tracked_def AddLimit_def AddUnbounded_def AddFallbackLimit_def\<close>)

lemma vu_fold_invariant:
  assumes "\<forall>op \<in> set ops. vu_op_ok op" "vu_wf v" "\<And>d. tracked v d \<subseteq> mounted (vuVolumes v) d"
  shows "vu_wf (fold vu_apply ops v) \<and>
    (\<forall>d. tracked (fold vu_apply ops v) d \<subseteq> mounted (vuVolumes (fold vu_apply ops v)) d)"
  using assms
proof (induction ops arbitrary: v)
  case (Cons op ops)
  have "vu_wf (vu_apply op v)" using Cons.prems vu_apply_wf by simp
  moreover have "tracked (vu_apply op v) d \<subseteq> mounted (vuVolumes (vu_apply op v)) d" for d
    using vu_apply_superset Cons.prems by simp
  ultimately show ?case using Cons.IH Cons.prems(1) by simp
qed simp

lemma published_limit_run:
  fixes v :: volume_usage
  shows "(case published_limit d ops of
      Some l \<Rightarrow> map_of (limits (fold vu_apply ops v)) d = l \<and>
                d \<in> publishedDrivers (fold vu_apply ops v)
    | None \<Rightarrow> d \<in> publishedDrivers v \<longrightarrow>
        map_of (limits (fold vu_apply ops v)) d = map_of (limits v) d) \<and>
   (d \<in> publishedDrivers v \<longrightarrow> d \<in> publishedDrivers (fold vu_apply ops v))"
proof (induction ops arbitrary: v)
  case (Cons op ops)
  show ?case
    using Cons [of "vu_apply op v"]
    by (cases op; cases "published_limit d ops")
       (auto simp: AddPodVolumes_def DeletePodVolumes_def Let_def AddLimit_def AddUnbounded_def
          AddFallbackLimit_def gomap_simps split: if_splits option.splits)
qed simp

section \<open>Properties\<close>

text \<open>
  C20. Whatever sequence of operations a node's \<^verbatim>\<open>VolumeUsage\<close> goes through, the volumes it counts
  include those of every pod it still tracks; right after \<^verbatim>\<open>DeletePod\<close> they are exactly those, so
  a volume shared by two pods survives the deletion of one; and \<^verbatim>\<open>ExceedsLimits\<close> refuses a set of
  volumes exactly when, for some driver with a limit, the union with the mounted volumes has more
  elements than the limit.
\<close>
theorem volume_usage_counts:
  assumes "\<forall>op \<in> set ops. vu_op_ok op" "gomap_wf vols"
  shows "tracked (vu_run ops) d \<subseteq> mounted (vuVolumes (vu_run ops)) d \<and>
    mounted (vuVolumes (vu_run (ops @ [OpDelete key]))) d = tracked (vu_run (ops @ [OpDelete key])) d \<and>
    (ExceedsLimits (vu_run ops) vols = None \<longleftrightarrow>
      (\<forall>d \<in> fst ` set (vuVolumes (vu_run ops)) \<union> fst ` set vols.
         \<forall>l. map_of (limits (vu_run ops)) d = Some l \<longrightarrow>
           int (card (mounted (vuVolumes (vu_run ops)) d \<union> mounted vols d)) \<le> l))"
proof -
  have inv: "vu_wf (vu_run ops)" "\<forall>d. tracked (vu_run ops) d \<subseteq> mounted (vuVolumes (vu_run ops)) d"
    using vu_fold_invariant [of ops NewVolumeUsage] assms(1) tracked_New
    by (simp_all add: vu_run_def)
  then show ?thesis
    using DeletePodVolumes_exact [OF inv(1), of key d] ExceedsLimits_None_iff [of "vu_run ops" vols] assms(2)
    by (simp add: vu_run_def vu_wf_def)
qed

theorem volume_usage_counts_witness:
  "mounted (vuVolumes (vu_run ([OpAdd (''ns'', ''a'') [(''ebs'', {''v1''})],
      OpAdd (''ns'', ''b'') [(''ebs'', {''v1'', ''v2''})]] @ [OpDelete (''ns'', ''b'')]))) ''ebs'' =
   tracked (vu_run ([OpAdd (''ns'', ''a'') [(''ebs'', {''v1''})],
      OpAdd (''ns'', ''b'') [(''ebs'', {''v1'', ''v2''})]] @ [OpDelete (''ns'', ''b'')])) ''ebs'' \<and>
   mounted (vuVolumes (vu_run ([OpAdd (''ns'', ''a'') [(''ebs'', {''v1''})],
      OpAdd (''ns'', ''b'') [(''ebs'', {''v1'', ''v2''})]] @ [OpDelete (''ns'', ''b'')]))) ''ebs'' = {''v1''}"
proof -
  let ?ops = "[OpAdd (''ns'', ''a'') [(''ebs'', {''v1''})],
      OpAdd (''ns'', ''b'') [(''ebs'', {''v1'', ''v2''})]]"
  have "\<forall>op \<in> set ?ops. vu_op_ok op" by (simp add: gomap_wf_def)
  moreover have "mounted (vuVolumes (vu_run (?ops @ [OpDelete (''ns'', ''b'')]))) ''ebs'' = {''v1''}"
    by code_simp
  ultimately show ?thesis using volume_usage_counts [of ?ops "[]" "''ebs''" "(''ns'', ''b'')"] by simp
qed

text \<open>
  Limits that a node publishes win over fallback limits in every order of calls: once
  \<^verbatim>\<open>AddLimit\<close> or \<^verbatim>\<open>AddUnbounded\<close> was called for a driver, the limit in force is the one of the last
  such call, no matter how many \<^verbatim>\<open>AddFallbackLimit\<close> calls and pod changes are interleaved.
\<close>
theorem published_limit_wins:
  assumes "published_limit d ops = Some l"
  shows "map_of (limits (vu_run ops)) d = l"
  using published_limit_run [where d = d and ops = ops and v = NewVolumeUsage] assms
  unfolding vu_run_def by (simp split: option.splits)

theorem published_limit_wins_witness:
  "map_of (limits (vu_run [OpFallback ''ebs'' 5, OpLimit ''ebs'' 27, OpFallback ''ebs'' 5])) ''ebs'' = Some 27"
proof -
  have "published_limit ''ebs'' [OpFallback ''ebs'' 5, OpLimit ''ebs'' 27, OpFallback ''ebs'' 5] = Some (Some 27)"
    by simp
  then show ?thesis by (rule published_limit_wins)
qed

end
