(* ===== verification/Resources.thy ===== *)
theory Resources
  imports K8sTypes
begin

text \<open>
  \<^verbatim>\<open>pkg/utils/resources/resources.go\<close>: arithmetic on resource lists.

  \<^verbatim>\<open>resource.Quantity\<close> is an arbitrary-precision number of Kubernetes: its type is a type variable
  with a linearly ordered abelian group, where \<^verbatim>\<open>Add\<close>, \<^verbatim>\<open>Sub\<close> and \<^verbatim>\<open>Cmp\<close> are the group and order
  operations and the zero value is 0. The effective requests of one pod (\<^verbatim>\<open>resourcehelper.PodRequests\<close>)
  and \<^verbatim>\<open>resource.NewQuantity\<close> are parameters.
\<close>

type_synonym 'q resource_list = "(string, 'q) gomap"

definition ResourcePods :: string where "ResourcePods = ''pods''"
definition ResourceCPU :: string where "ResourceCPU = ''cpu''"
definition NodeResource :: string where "NodeResource = ''nodes''"
definition ResourceMemory :: string where "ResourceMemory = ''memory''"

abbreviation qty :: "'q::zero resource_list \<Rightarrow> string \<Rightarrow> 'q" where
  "qty r k \<equiv> get_or 0 r k"

section \<open>Operations\<close>

definition addQuantity :: "string \<times> 'q \<Rightarrow> 'q::linordered_ab_group_add resource_list \<Rightarrow> 'q resource_list" where
  "addQuantity = (\<lambda>(name, quantity) result. AList.update name (qty result name + quantity) result)"

definition Merge :: "'q::linordered_ab_group_add resource_list list \<Rightarrow> 'q resource_list" where
  "Merge resources =
     (if length resources = 0 then [] else fold (\<lambda>rl result. fold addQuantity rl result) resources [])"

definition MergeInto ::
  "'q::linordered_ab_group_add resource_list option \<Rightarrow> 'q resource_list \<Rightarrow> 'q resource_list" where
  "MergeInto dest src = fold addQuantity src (case dest of None \<Rightarrow> [] | Some d \<Rightarrow> d)"

definition Subtract ::
  "'q::linordered_ab_group_add resource_list \<Rightarrow> 'q resource_list \<Rightarrow> 'q resource_list" where
  "Subtract lhs rhs =
     map (\<lambda>(name, v). (name, case map_of rhs name of Some r \<Rightarrow> v - r | None \<Rightarrow> v)) lhs"

text \<open>\<^verbatim>\<open>SubtractFrom\<close> mutates \<open>dest\<close>; for a nil \<open>dest\<close> the caller keeps nil.\<close>

definition subQuantity :: "string \<times> 'q \<Rightarrow> 'q::linordered_ab_group_add resource_list \<Rightarrow> 'q resource_list" where
  "subQuantity = (\<lambda>(name, quantity) dest. AList.update name (qty dest name - quantity) dest)"

definition SubtractFrom ::
  "'q::linordered_ab_group_add resource_list option \<Rightarrow> 'q resource_list \<Rightarrow> 'q resource_list option" where
  "SubtractFrom dest src = map_option (\<lambda>d. fold subQuantity src d) dest"

definition maxQuantity :: "string \<times> 'q \<Rightarrow> 'q::linordered_ab_group_add resource_list \<Rightarrow> 'q resource_list" where
  "maxQuantity = (\<lambda>(name, quantity) acc.
     case map_of acc name of
       None \<Rightarrow> AList.update name quantity acc
     | Some current \<Rightarrow> if quantity > current then AList.update name quantity acc else acc)"

definition MaxResources :: "'q::linordered_ab_group_add resource_list list \<Rightarrow> 'q resource_list" where
  "MaxResources resources = fold (\<lambda>rl acc. fold maxQuantity rl acc) resources []"

definition minWith ::
  "'q::linordered_ab_group_add resource_list \<Rightarrow> 'q resource_list \<Rightarrow> 'q resource_list" where
  "minWith rl acc = List.map_filter (\<lambda>(name, quantity).
     case map_of rl name of
       Some r \<Rightarrow> Some (name, if r < quantity then r else quantity)
     | None \<Rightarrow> None) acc"

fun MinResources :: "'q::linordered_ab_group_add resource_list list \<Rightarrow> 'q resource_list" where
  "MinResources [] = []"
| "MinResources (r # rs) = fold minWith rs r"

definition Cmp :: "'q::linordered_ab_group_add \<Rightarrow> 'q \<Rightarrow> int" where
  "Cmp lhs rhs = (if lhs < rhs then - 1 else if lhs > rhs then 1 else 0)"

definition Fits :: "'q::linordered_ab_group_add resource_list \<Rightarrow> 'q resource_list \<Rightarrow> bool" where
  "Fits candidate tot =
     (if list_ex (\<lambda>(_, quantity). Cmp 0 quantity > 0) tot then False
      else \<not> list_ex (\<lambda>(name, quantity). Cmp quantity (qty tot name) > 0) candidate)"

definition RequestsForPods ::
  "(pod \<Rightarrow> 'q::linordered_ab_group_add resource_list) \<Rightarrow> (int \<Rightarrow> 'q) \<Rightarrow> pod list \<Rightarrow> 'q resource_list" where
  "RequestsForPods podRequests newQuantity pods =
     AList.update ResourcePods (newQuantity (int (length pods))) (Merge (map podRequests pods))"

definition LimitsForPods ::
  "(pod \<Rightarrow> 'q::linordered_ab_group_add resource_list) \<Rightarrow> (int \<Rightarrow> 'q) \<Rightarrow> pod list \<Rightarrow> 'q resource_list" where
  "LimitsForPods podLimits newQuantity pods =
     AList.update ResourcePods (newQuantity (int (length pods))) (Merge (map podLimits pods))"

section \<open>Lemmas\<close>

lemma qty_addQuantity [gomap_simps]:
  "qty (addQuantity (n, q) r) k = (if k = n then qty r k + q else qty r k)"
  by (simp add: addQuantity_def gomap_simps)

lemma qty_subQuantity [gomap_simps]:
  "qty (subQuantity (n, q) r) k = (if k = n then qty r k - q else qty r k)"
  by (simp add: subQuantity_def gomap_simps)

lemma addQuantity_wf [wf_intros]: "gomap_wf r \<Longrightarrow> gomap_wf (addQuantity x r)"
  by (cases x) (simp add: addQuantity_def)

lemma subQuantity_wf [wf_intros]: "gomap_wf r \<Longrightarrow> gomap_wf (subQuantity x r)"
  by (cases x) (simp add: subQuantity_def)

lemma fold_addQuantity_wf: "gomap_wf r \<Longrightarrow> gomap_wf (fold addQuantity xs r)"
  by (induction xs arbitrary: r) (auto simp: addQuantity_wf)

lemma fold_subQuantity_wf: "gomap_wf r \<Longrightarrow> gomap_wf (fold subQuantity xs r)"
  by (induction xs arbitrary: r) (auto simp: subQuantity_wf)

lemma qty_fold_add:
  "gomap_wf xs \<Longrightarrow> qty (fold addQuantity xs r) k = qty r k + qty xs k"
proof (induction xs arbitrary: r)
  case (Cons x xs)
  obtain n q where x: "x = (n, q)" by (cases x)
  have "gomap_wf xs" "map_of xs n = None"
    using Cons.prems by (auto simp: x gomap_wf_Cons map_of_eq_None_iff)
  then show ?case
    using Cons.IH [of "addQuantity (n, q) r"] by (simp add: x gomap_simps) (simp add: get_or_def)
qed (simp add: get_or_def)

lemma qty_fold_sub:
  "gomap_wf xs \<Longrightarrow> qty (fold subQuantity xs r) k = qty r k - qty xs k"
proof (induction xs arbitrary: r)
  case (Cons x xs)
  obtain n q where x: "x = (n, q)" by (cases x)
  have "gomap_wf xs" "map_of xs n = None"
    using Cons.prems by (auto simp: x gomap_wf_Cons map_of_eq_None_iff)
  then show ?case
    using Cons.IH [of "subQuantity (n, q) r"] by (simp add: x gomap_simps) (simp add: get_or_def)
qed (simp add: get_or_def)

lemma qty_fold_merge:
  "\<forall>rl \<in> set rs. gomap_wf rl \<Longrightarrow>
     qty (fold (\<lambda>rl result. fold addQuantity rl result) rs acc) k = qty acc k + (\<Sum>rl \<leftarrow> rs. qty rl k)"
  by (induction rs arbitrary: acc) (simp_all add: qty_fold_add add.assoc)

lemma qty_Merge: "\<forall>rl \<in> set rs. gomap_wf rl \<Longrightarrow> qty (Merge rs) k = (\<Sum>rl \<leftarrow> rs. qty rl k)"
  using qty_fold_merge [of rs "[]" k] by (simp add: Merge_def get_or_def)

lemma Merge_wf [wf_intros]: "gomap_wf (Merge rs)"
proof -
  have "gomap_wf acc \<Longrightarrow> gomap_wf (fold (\<lambda>rl result. fold addQuantity rl result) rs acc)" for acc :: "'a resource_list"
    by (induction rs arbitrary: acc) (auto simp: fold_addQuantity_wf)
  then show ?thesis by (simp add: Merge_def)
qed

lemma map_of_Subtract:
  "map_of (Subtract lhs rhs) k = map_option (\<lambda>v. v - qty rhs k) (map_of lhs k)"
proof -
  have "map_of (Subtract lhs rhs) k =
      map_option (\<lambda>v. case map_of rhs k of Some r \<Rightarrow> v - r | None \<Rightarrow> v) (map_of lhs k)"
    unfolding Subtract_def by (rule map_of_map_values)
  then show ?thesis
    by (cases "map_of lhs k") (auto simp: get_or_def split: option.splits)
qed

lemma Subtract_wf [wf_intros]: "gomap_wf lhs \<Longrightarrow> gomap_wf (Subtract lhs rhs)"
  by (simp add: Subtract_def)

lemma Fits_iff:
  "Fits candidate tot \<longleftrightarrow>
     (\<forall>(k, q) \<in> set tot. 0 \<le> q) \<and> (\<forall>(k, q) \<in> set candidate. q \<le> qty tot k)"
  by (auto simp: Fits_def Cmp_def list_ex_iff not_less split: if_splits)

lemma Fits_qty:
  assumes "gomap_wf candidate" "gomap_wf tot"
  shows "Fits candidate tot \<longleftrightarrow>
    (\<forall>k. 0 \<le> qty tot k) \<and> (\<forall>k. map_of candidate k \<noteq> None \<longrightarrow> qty candidate k \<le> qty tot k)"
proof -
  have "(\<forall>(k, q) \<in> set tot. 0 \<le> q) \<longleftrightarrow> (\<forall>k. 0 \<le> qty tot k)"
    unfolding gomap_ball_map_of [OF assms(2), of "\<lambda>_ q. 0 \<le> q"] by (auto simp: get_or_def split: option.splits)
  moreover have "(\<forall>(k, q) \<in> set candidate. q \<le> qty tot k) \<longleftrightarrow>
      (\<forall>k. map_of candidate k \<noteq> None \<longrightarrow> qty candidate k \<le> qty tot k)"
    unfolding gomap_ball_map_of [OF assms(1), of "\<lambda>k q. q \<le> qty tot k"] by (auto simp: get_or_def)
  ultimately show ?thesis by (simp add: Fits_iff)
qed

text \<open>A candidate that fits is covered at every resource, present or not.\<close>

lemma Fits_covers:
  assumes "gomap_wf candidate" "gomap_wf tot" "Fits candidate tot"
  shows "qty candidate k \<le> qty tot k"
proof (cases "map_of candidate k")
  case None
  then have "qty candidate k = 0" by (simp add: get_or_def)
  then show ?thesis using assms Fits_qty by metis
next
  case Some
  then show ?thesis using assms Fits_qty [OF assms(1,2)] by blast
qed

lemma Fits_covers_iff:
  assumes "gomap_wf candidate" "gomap_wf tot"
  shows "Fits candidate tot \<longleftrightarrow>
    (\<forall>k. 0 \<le> qty tot k) \<and> (\<forall>k. qty candidate k \<le> qty tot k)"
  using Fits_qty [OF assms] Fits_covers [OF assms] by blast

text \<open>Pointwise maximum and minimum.\<close>

lemma map_of_maxQuantity:
  "map_of (maxQuantity (n, q) acc) k =
     (if k = n then Some (case map_of acc k of None \<Rightarrow> q | Some c \<Rightarrow> max c q) else map_of acc k)"
  by (auto simp: maxQuantity_def gomap_simps max_def split: option.splits)

lemma map_of_fold_max:
  "gomap_wf xs \<Longrightarrow> map_of (fold maxQuantity xs acc) k =
     (case (map_of acc k, map_of xs k) of
        (None, y) \<Rightarrow> y | (Some c, None) \<Rightarrow> Some c | (Some c, Some q) \<Rightarrow> Some (max c q))"
proof (induction xs arbitrary: acc)
  case (Cons x xs)
  obtain n q where x: "x = (n, q)" by (cases x)
  have "gomap_wf xs" "map_of xs n = None"
    using Cons.prems by (auto simp: x gomap_wf_Cons map_of_eq_None_iff)
  then show ?case
    using Cons.IH [of "maxQuantity (n, q) acc"]
    by (auto simp: x map_of_maxQuantity split: option.splits)
qed (simp split: option.splits)

text \<open>The result bounds every list, and every entry of it comes from some list.\<close>

lemma MaxResources_fold:
  assumes "\<forall>rl \<in> set rs. gomap_wf rl"
  shows "map_of (fold (\<lambda>rl acc. fold maxQuantity rl acc) rs acc) k = Some m \<longleftrightarrow>
    (m \<in> set_option (map_of acc k) \<union> (\<Union>rl \<in> set rs. set_option (map_of rl k))) \<and>
    (\<forall>q \<in> set_option (map_of acc k) \<union> (\<Union>rl \<in> set rs. set_option (map_of rl k)). q \<le> m)"
  using assms
proof (induction rs arbitrary: acc)
  case (Cons rl rs)
  then have wf: "gomap_wf rl" by simp
  show ?case
    unfolding fold.simps comp_apply using Cons
    by (cases "map_of acc k"; cases "map_of rl k")
       (auto simp: map_of_fold_max [OF wf] max_def)
qed (auto simp: )

lemma map_of_minWith:
  "gomap_wf acc \<Longrightarrow> map_of (minWith rl acc) k =
     (case (map_of acc k, map_of rl k) of (Some q, Some r) \<Rightarrow> Some (min q r) | _ \<Rightarrow> None)"
proof (induction acc)
  case (Cons x acc)
  obtain n q where x: "x = (n, q)" by (cases x)
  have wf: "gomap_wf acc" "map_of acc n = None"
    using Cons.prems by (auto simp: x gomap_wf_Cons map_of_eq_None_iff)
  have step: "minWith rl ((n, q) # acc) =
      (case map_of rl n of Some r \<Rightarrow> (n, if r < q then r else q) # minWith rl acc | None \<Rightarrow> minWith rl acc)"
    by (simp add: minWith_def map_filter_simps split: option.splits)
  show ?case
    using Cons.IH [OF wf(1)] wf(2) by (auto simp: step x min_def split: option.splits)
qed (simp add: minWith_def map_filter_simps)

lemma minWith_wf [wf_intros]: "gomap_wf acc \<Longrightarrow> gomap_wf (minWith rl acc)"
proof (induction acc)
  case (Cons x acc)
  obtain n q where x: "x = (n, q)" by (cases x)
  have wf: "gomap_wf acc" "map_of acc n = None"
    using Cons.prems by (auto simp: x gomap_wf_Cons map_of_eq_None_iff)
  then have "map_of (minWith rl acc) n = None" by (simp add: map_of_minWith)
  then show ?case
    using Cons.IH [OF wf(1)]
    by (simp add: minWith_def map_filter_simps x gomap_wf_Cons map_of_eq_None_iff split: option.splits)
qed (simp add: minWith_def map_filter_simps)

lemma MinResources_fold:
  assumes "gomap_wf acc"
  shows "map_of (fold minWith rs acc) k = Some m \<longleftrightarrow>
    map_of acc k \<noteq> None \<and> (\<forall>rl \<in> set rs. map_of rl k \<noteq> None) \<and>
    m \<in> set_option (map_of acc k) \<union> (\<Union>rl \<in> set rs. set_option (map_of rl k)) \<and>
    (\<forall>q \<in> set_option (map_of acc k) \<union> (\<Union>rl \<in> set rs. set_option (map_of rl k)). m \<le> q)"
  using assms
proof (induction rs arbitrary: acc)
  case (Cons rl rs)
  show ?case
    unfolding fold.simps comp_apply Cons.IH [OF minWith_wf [OF Cons.prems]]
    by (cases "map_of acc k"; cases "map_of rl k")
       (auto simp: map_of_minWith [OF Cons.prems] min_def)
qed auto

section \<open>Placing pods on a node\<close>

text \<open>
  How a node with known capacity takes pods, one after the other: \<^verbatim>\<open>ExistingNode.CanAdd\<close> tests
  \<^verbatim>\<open>Fits(requests, remainingResources)\<close> and \<^verbatim>\<open>ExistingNode.Add\<close> calls \<^verbatim>\<open>SubtractFrom\<close>.
\<close>

fun placeAll ::
  "'q::linordered_ab_group_add resource_list \<Rightarrow> 'q resource_list list \<Rightarrow> 'q resource_list option" where
  "placeAll remaining [] = Some remaining"
| "placeAll remaining (req # reqs) =
     (if Fits req remaining
      then Option.bind (SubtractFrom (Some remaining) req) (\<lambda>r. placeAll r reqs)
      else None)"

lemma placeAll_Cons_iff:
  "placeAll rem (r # reqs) = Some rem' \<longleftrightarrow>
     Fits r rem \<and> placeAll (fold subQuantity r rem) reqs = Some rem'"
  by (simp add: SubtractFrom_def)

lemma placeAll_remaining:
  assumes "gomap_wf rem" "\<forall>r \<in> set reqs. gomap_wf r" "placeAll rem reqs = Some rem'"
  shows "qty rem' k = qty rem k - (\<Sum>r \<leftarrow> reqs. qty r k)"
  using assms
proof (induction reqs arbitrary: rem)
  case (Cons r reqs)
  then have "gomap_wf (fold subQuantity r rem)" "placeAll (fold subQuantity r rem) reqs = Some rem'"
    by (simp_all add: fold_subQuantity_wf placeAll_Cons_iff del: placeAll.simps)
  then have "qty rem' k = qty (fold subQuantity r rem) k - (\<Sum>r \<leftarrow> reqs. qty r k)"
    using Cons.IH Cons.prems(2) by simp
  then show ?case using Cons.prems(2) by (simp add: qty_fold_sub diff_diff_eq)
qed simp

lemma placeAll_nonneg:
  assumes "gomap_wf rem" "\<forall>r \<in> set reqs. gomap_wf r" "placeAll rem reqs = Some rem'"
    "\<forall>k. 0 \<le> qty rem k"
  shows "0 \<le> qty rem' k"
  using assms
proof (induction reqs arbitrary: rem)
  case (Cons r reqs)
  then have "gomap_wf (fold subQuantity r rem)" "placeAll (fold subQuantity r rem) reqs = Some rem'"
    and fits: "Fits r rem"
    by (simp_all add: fold_subQuantity_wf placeAll_Cons_iff del: placeAll.simps)
  moreover have "\<forall>k. 0 \<le> qty (fold subQuantity r rem) k"
    using Fits_covers [of r rem] fits Cons.prems by (simp add: qty_fold_sub)
  ultimately show ?case using Cons.IH Cons.prems(2) by simp
qed simp

section \<open>Properties\<close>

text \<open>
  \<^verbatim>\<open>Merge\<close> adds resource by resource, whatever the iteration order, \<^verbatim>\<open>Subtract\<close> keeps the
  resources of its first argument and subtracts, and \<^verbatim>\<open>MaxResources\<close> and \<^verbatim>\<open>MinResources\<close> return at
  each resource the largest entry of any list, and the smallest entry when every list has one.
\<close>
theorem resource_arithmetic:
  fixes rs :: "'q::linordered_ab_group_add resource_list list"
  assumes "\<forall>rl \<in> set rs. gomap_wf rl" "gomap_wf first"
  shows "qty (Merge rs) k = (\<Sum>rl \<leftarrow> rs. qty rl k) \<and>
    map_of (Subtract lhs rhs) k = map_option (\<lambda>v. v - qty rhs k) (map_of lhs k) \<and>
    (map_of (MaxResources rs) k = Some m \<longleftrightarrow>
       (\<exists>rl \<in> set rs. map_of rl k = Some m) \<and> (\<forall>rl \<in> set rs. \<forall>q. map_of rl k = Some q \<longrightarrow> q \<le> m)) \<and>
    (map_of (MinResources (first # rs)) k = Some m \<longleftrightarrow>
       (\<exists>rl \<in> set (first # rs). map_of rl k = Some m) \<and>
       (\<forall>rl \<in> set (first # rs). \<exists>q. map_of rl k = Some q \<and> m \<le> q))"
proof -
  have max: "map_of (MaxResources rs) k = Some m \<longleftrightarrow>
      (\<exists>rl \<in> set rs. map_of rl k = Some m) \<and> (\<forall>rl \<in> set rs. \<forall>q. map_of rl k = Some q \<longrightarrow> q \<le> m)"
    using MaxResources_fold [OF assms(1), of "[]" k m]
    by (auto simp: MaxResources_def elem_set)
  have min: "map_of (MinResources (first # rs)) k = Some m \<longleftrightarrow>
      (\<exists>rl \<in> set (first # rs). map_of rl k = Some m) \<and>
      (\<forall>rl \<in> set (first # rs). \<exists>q. map_of rl k = Some q \<and> m \<le> q)"
    using MinResources_fold [OF assms(2), of rs k m] by (auto simp: elem_set)
  show ?thesis using qty_Merge [OF assms(1)] map_of_Subtract max min by blast
qed

theorem resource_arithmetic_witness:
  "qty (Merge [[(''cpu'', 2 :: int)], [(''cpu'', 3), (''memory'', 1)]]) ''cpu'' = 5"
  using resource_arithmetic [of "[[(''cpu'', 2 :: int)], [(''cpu'', 3), (''memory'', 1)]]" "[]" "''cpu''"
      "[]" "[]" 0]
  by (auto simp: gomap_wf_def get_or_def)

text \<open>
  C9. A node never promises more than it has: when pods are placed one after the other, each only
  if \<^verbatim>\<open>Fits\<close> accepts its requests against what remains and each followed by \<^verbatim>\<open>SubtractFrom\<close>, the
  sum of all requests stays within the initial capacity at every resource, including resources
  the node does not list, and what remains is the difference and never negative.
\<close>
theorem placement_within_capacity:
  assumes "gomap_wf capacity" "\<forall>k. 0 \<le> qty capacity k" "\<forall>r \<in> set reqs. gomap_wf r"
    and "placeAll capacity reqs = Some remaining"
  shows "(\<Sum>r \<leftarrow> reqs. qty r k) \<le> qty capacity k \<and>
         qty remaining k = qty capacity k - (\<Sum>r \<leftarrow> reqs. qty r k) \<and> 0 \<le> qty remaining k"
  using placeAll_remaining [OF assms(1,3,4), of k] placeAll_nonneg [OF assms(1,3,4,2), of k]
  by simp

theorem placement_within_capacity_witness:
  "\<exists>remaining. placeAll [(''cpu'', 4 :: int)] [[(''cpu'', 1)], [(''cpu'', 2)]] = Some remaining \<and>
     qty remaining ''cpu'' = 1"
proof -
  let ?reqs = "[[(''cpu'', 1 :: int)], [(''cpu'', 2)]]"
  have "placeAll [(''cpu'', 4 :: int)] ?reqs = Some [(''cpu'', 1)]" by code_simp
  then show ?thesis
    using placement_within_capacity [of "[(''cpu'', 4 :: int)]" ?reqs "[(''cpu'', 1)]" "''cpu''"]
    by (simp add: gomap_wf_def get_or_def)
qed

end
