(* ===== verification/NodePoolHealth.thy ===== *)
theory NodePoolHealth
  imports Prelude
begin

text \<open>
  \<^verbatim>\<open>pkg/utils/ringbuffer/buffer.go\<close> and \<^verbatim>\<open>pkg/state/nodepoolhealth/tracker.go\<close>: a ring buffer of the
  latest launch outcomes of a node pool and the health status read from it.

  The locks of the tracker make each operation atomic, so operations are functions on the state.
  \<^verbatim>\<open>Insert\<close> into a buffer of capacity 0 panics, which is \<open>None\<close>.
\<close>

section \<open>Ring buffer\<close>

record 'a ring_buffer =
  rbValues :: "'a list"
  head :: nat
  capacity :: nat

definition NewRingBuffer :: "nat \<Rightarrow> 'a ring_buffer" where
  "NewRingBuffer n = \<lparr> rbValues = [], head = 0, capacity = n \<rparr>"

definition InsertRing :: "'a \<Rightarrow> 'a ring_buffer \<Rightarrow> 'a ring_buffer option" where
  "InsertRing v b =
     (if length (rbValues b) < capacity b then Some (b \<lparr> rbValues := rbValues b @ [v] \<rparr>)
      else if head b < length (rbValues b)
      then Some (b \<lparr> rbValues := (rbValues b)[head b := v], head := (head b + 1) mod capacity b \<rparr>)
      else None)"

definition LenRing :: "'a ring_buffer \<Rightarrow> nat" where
  "LenRing b = length (rbValues b)"

definition ResetRing :: "'a ring_buffer \<Rightarrow> 'a ring_buffer" where
  "ResetRing b = b \<lparr> rbValues := [], head := 0 \<rparr>"

definition Items :: "'a ring_buffer \<Rightarrow> 'a list" where
  "Items b = rbValues b"

section \<open>Tracker\<close>

definition BufferSize :: nat where "BufferSize = 4"
definition ThresholdFalse :: real where "ThresholdFalse = 1 / 2"

datatype status = StatusUnknown | StatusHealthy | StatusUnhealthy

type_synonym tracker = "bool ring_buffer"

definition NewTracker :: "nat \<Rightarrow> tracker" where
  "NewTracker n = NewRingBuffer n"

definition UpdateTracker :: "bool \<Rightarrow> tracker \<Rightarrow> tracker option" where
  "UpdateTracker success t = InsertRing success t"

definition ResetTracker :: "tracker \<Rightarrow> tracker" where
  "ResetTracker t = ResetRing t"

definition StatusTracker :: "tracker \<Rightarrow> status" where
  "StatusTracker t =
     (if LenRing t = 0 then StatusUnknown
      else let unhealthyCount = fold (\<lambda>v n. if \<not> v then n + 1 else n) (Items t) (0::nat)
           in if real unhealthyCount / real BufferSize \<ge> ThresholdFalse
              then StatusUnhealthy else StatusHealthy)"

text \<open>\<^verbatim>\<open>int(BufferSize * ThresholdFalse)\<close> is 2, the number of failures that make a pool unhealthy.\<close>

definition unhealthyInserts :: nat where
  "unhealthyInserts = nat \<lfloor>real BufferSize * ThresholdFalse\<rfloor>"

fun SetStatusTracker :: "status \<Rightarrow> tracker \<Rightarrow> tracker option" where
  "SetStatusTracker StatusUnknown t = Some (ResetRing t)"
| "SetStatusTracker StatusHealthy t = InsertRing True (ResetRing t)"
| "SetStatusTracker StatusUnhealthy t =
     fold (\<lambda>_ acc. Option.bind acc (InsertRing False)) [0..<unhealthyInserts] (Some (ResetRing t))"

section \<open>State\<close>

type_synonym health_state = "(string, tracker) gomap"

definition NewHealthState :: health_state where "NewHealthState = []"

text \<open>The tracker of a node pool, created on first use.\<close>

definition nodePoolNodeRegistration :: "string \<Rightarrow> health_state \<Rightarrow> tracker \<times> health_state" where
  "nodePoolNodeRegistration uid s =
     (case map_of s uid of
        Some t \<Rightarrow> (t, s)
      | None \<Rightarrow> (NewTracker BufferSize, AList.update uid (NewTracker BufferSize) s))"

definition StatusState :: "string \<Rightarrow> health_state \<Rightarrow> status \<times> health_state" where
  "StatusState uid s = (let (t, s') = nodePoolNodeRegistration uid s in (StatusTracker t, s'))"

definition UpdateState :: "string \<Rightarrow> bool \<Rightarrow> health_state \<Rightarrow> health_state option" where
  "UpdateState uid launchStatus s =
     (let (t, s') = nodePoolNodeRegistration uid s
      in map_option (\<lambda>t'. AList.update uid t' s') (UpdateTracker launchStatus t))"

definition SetStatusState :: "string \<Rightarrow> status \<Rightarrow> health_state \<Rightarrow> health_state option" where
  "SetStatusState uid st s =
     (let (t, s') = nodePoolNodeRegistration uid s
      in map_option (\<lambda>t'. AList.update uid t' s') (SetStatusTracker st t))"

text \<open>\<^verbatim>\<open>DryRun\<close> replays the items of the buffer, in storage order, into a fresh tracker and then
  updates the copy.\<close>

definition DryRun :: "string \<Rightarrow> bool \<Rightarrow> health_state \<Rightarrow> tracker option \<times> health_state" where
  "DryRun uid launchStatus s =
     (let (t, s') = nodePoolNodeRegistration uid s;
          copied = fold (\<lambda>item acc. Option.bind acc (InsertRing item)) (Items t)
                     (Some (NewTracker BufferSize))
      in (Option.bind copied (UpdateTracker launchStatus), s'))"

section \<open>The interface of a bounded log\<close>

text \<open>
  A ring buffer promises to be a log that keeps the latest entries: \<open>contents\<close> lists them from the
  oldest to the newest.
\<close>

locale bounded_log =
  fixes invar :: "'b \<Rightarrow> bool" and cap :: "'b \<Rightarrow> nat" and contents :: "'b \<Rightarrow> 'a list"
    and ins :: "'a \<Rightarrow> 'b \<Rightarrow> 'b option" and clear :: "'b \<Rightarrow> 'b"
  assumes ins_total: "invar b \<Longrightarrow> \<exists>b'. ins x b = Some b'"
    and ins_invar: "invar b \<Longrightarrow> ins x b = Some b' \<Longrightarrow> invar b' \<and> cap b' = cap b"
    and ins_contents: "invar b \<Longrightarrow> ins x b = Some b' \<Longrightarrow>
      contents b' = (if length (contents b) < cap b then contents b @ [x] else tl (contents b) @ [x])"
    and clear_invar: "invar b \<Longrightarrow> invar (clear b) \<and> cap (clear b) = cap b"
    and clear_contents: "contents (clear b) = []"
    and bounded: "invar b \<Longrightarrow> length (contents b) \<le> cap b"
    and cap_pos: "invar b \<Longrightarrow> 0 < cap b"
begin

lemma ins_last:
  assumes "invar b" "ins x b = Some b'" "contents b = drop (length h - cap b) h"
  shows "contents b' = drop (length (h @ [x]) - cap b) (h @ [x])"
  using ins_contents [OF assms(1,2)] assms(3) cap_pos [OF assms(1)]
  by (cases "length h < cap b") (auto simp: Suc_diff_le drop_Suc tl_drop)

text \<open>Any sequence of insertions succeeds and leaves the latest entries.\<close>

lemma insert_all:
  assumes "invar b" "contents b = drop (length h - cap b) h"
  shows "\<exists>b'. fold (\<lambda>x acc. Option.bind acc (ins x)) xs (Some b) = Some b' \<and> invar b' \<and>
    cap b' = cap b \<and> contents b' = drop (length (h @ xs) - cap b) (h @ xs)"
  using assms
proof (induction xs arbitrary: b h)
  case (Cons x xs)
  obtain b1 where b1: "ins x b = Some b1" using ins_total Cons.prems(1) by blast
  have i: "invar b1" "cap b1 = cap b" using ins_invar [OF Cons.prems(1) b1] by simp_all
  have "contents b1 = drop (length (h @ [x]) - cap b1) (h @ [x])"
    using ins_last [OF Cons.prems(1) b1 Cons.prems(2)] i(2) by simp
  from Cons.IH [OF i(1) this] show ?case using b1 i(2) by simp
qed auto

end

definition ring_wf :: "'a ring_buffer \<Rightarrow> bool" where
  "ring_wf b \<longleftrightarrow> 0 < capacity b \<and> head b < capacity b \<and> length (rbValues b) \<le> capacity b \<and>
     (length (rbValues b) < capacity b \<longrightarrow> head b = 0)"

definition chronological :: "'a ring_buffer \<Rightarrow> 'a list" where
  "chronological b = rotate (head b) (rbValues b)"

lemma rotate_overwrite:
  assumes "i < length xs"
  shows "rotate (Suc i mod length xs) (xs[i := v]) = tl (rotate i xs) @ [v]"
proof -
  have r: "rotate i xs = drop i xs @ take i xs" using assms by (simp add: rotate_drop_take)
  have d: "drop i xs = xs ! i # drop (Suc i) xs" using assms by (simp add: Cons_nth_drop_Suc)
  have rhs: "tl (rotate i xs) @ [v] = drop (Suc i) xs @ take i xs @ [v]" by (simp add: r d)
  have t: "take (Suc i) (xs[i := v]) = take i xs @ [v]"
    using assms by (simp add: take_Suc_conv_app_nth)
  have "rotate (Suc i mod length xs) (xs[i := v]) = rotate (Suc i) (xs[i := v])"
    by (metis length_list_update rotate_conv_mod)
  also have "\<dots> = drop (Suc i) xs @ take i xs @ [v]"
  proof (cases "Suc i = length xs")
    case True
    then have "take (length xs) (xs[i := v]) = take i xs @ [v]" using t by simp
    then show ?thesis
      using True by (metis append_Nil drop_all length_list_update order_refl rotate_id
          rotate_length01 take_all mod_self rotate_conv_mod rotate0 id_apply)
  next
    case False
    then show ?thesis using assms t by (simp add: rotate_drop_take)
  qed
  finally show ?thesis using rhs by simp
qed

lemma InsertRing_cases:
  assumes "ring_wf b"
  shows "InsertRing v b = Some (if length (rbValues b) < capacity b
     then b \<lparr> rbValues := rbValues b @ [v] \<rparr>
     else b \<lparr> rbValues := (rbValues b)[head b := v], head := (head b + 1) mod capacity b \<rparr>)"
  using assms by (auto simp: InsertRing_def ring_wf_def)

lemma chronological_InsertRing:
  assumes "ring_wf b" "InsertRing v b = Some b'"
  shows "chronological b' =
    (if length (chronological b) < capacity b then chronological b @ [v] else tl (chronological b) @ [v])"
proof (cases "length (rbValues b) < capacity b")
  case True
  then show ?thesis
    using assms by (simp add: InsertRing_cases ring_wf_def chronological_def) (auto simp: chronological_def)
next
  case False
  then have len: "length (rbValues b) = capacity b" and "head b < length (rbValues b)"
    using assms(1) by (auto simp: ring_wf_def)
  then show ?thesis
    using False assms rotate_overwrite [of "head b" "rbValues b" v]
    by (simp add: InsertRing_cases chronological_def) (auto simp: chronological_def)
qed

interpretation ring: bounded_log ring_wf capacity chronological InsertRing ResetRing
proof (unfold_locales, goal_cases)
  case (1 b x)
  then show ?case by (simp add: InsertRing_cases)
next
  case (2 b x b')
  then show ?case by (auto simp: InsertRing_cases ring_wf_def split: if_splits)
next
  case (3 b x b')
  then show ?case by (rule chronological_InsertRing)
next
  case (4 b)
  then show ?case by (simp add: ring_wf_def ResetRing_def)
qed (simp_all add: chronological_def ResetRing_def ring_wf_def)

section \<open>Status of a history\<close>

text \<open>The status that a history of outcomes since the last reset calls for.\<close>

definition lastOutcomes :: "bool list \<Rightarrow> bool list" where
  "lastOutcomes h = drop (length h - BufferSize) h"

definition statusOf :: "bool list \<Rightarrow> status" where
  "statusOf h = (if h = [] then StatusUnknown
                 else if length (filter Not (lastOutcomes h)) \<ge> 2 then StatusUnhealthy
                 else StatusHealthy)"

lemma count_fold: "fold (\<lambda>v n. if \<not> v then n + 1 else n) xs (k::nat) = k + length (filter Not xs)"
  by (induction xs arbitrary: k) auto

lemma filter_chronological: "length (filter P (chronological b)) = length (filter P (rbValues b))"
proof -
  have "mset (rotate n xs) = mset xs" for n and xs :: "'a list"
    by (metis append_take_drop_id mset_append rotate_drop_take union_commute)
  then have "mset (filter P (chronological b)) = mset (filter P (rbValues b))"
    by (simp add: chronological_def)
  then show ?thesis using mset_eq_length by blast
qed

lemma StatusTracker_iff:
  "StatusTracker t = (if chronological t = [] then StatusUnknown
     else if length (filter Not (chronological t)) \<ge> 2 then StatusUnhealthy else StatusHealthy)"
  unfolding filter_chronological
  by (auto simp: StatusTracker_def LenRing_def Items_def count_fold Let_def
      BufferSize_def ThresholdFalse_def chronological_def field_simps)

text \<open>A tracker that recorded the history \<open>h\<close> since it was last reset.\<close>

definition recorded :: "tracker \<Rightarrow> bool list \<Rightarrow> bool" where
  "recorded t h \<longleftrightarrow> ring_wf t \<and> capacity t = BufferSize \<and> chronological t = lastOutcomes h"

lemma recorded_New: "recorded (NewTracker BufferSize) []"
  by (simp add: recorded_def NewTracker_def NewRingBuffer_def ring_wf_def chronological_def
      lastOutcomes_def BufferSize_def)

lemma recorded_Reset: "recorded t h \<Longrightarrow> recorded (ResetRing t) []"
  using ring.clear_invar [of t] ring.clear_contents [of t]
  unfolding recorded_def lastOutcomes_def by auto

lemma recorded_all:
  assumes "recorded t h"
  shows "\<exists>t'. fold (\<lambda>x acc. Option.bind acc (InsertRing x)) xs (Some t) = Some t' \<and> recorded t' (h @ xs)"
  using ring.insert_all [of t h xs] assms by (auto simp: recorded_def lastOutcomes_def)

lemma recorded_Insert:
  assumes "recorded t h" shows "\<exists>t'. InsertRing x t = Some t' \<and> recorded t' (h @ [x])"
  using recorded_all [OF assms, of "[x]"] by simp

lemma lastOutcomes_Nil_iff [simp]: "lastOutcomes h = [] \<longleftrightarrow> h = []"
  by (cases h) (auto simp: lastOutcomes_def BufferSize_def)

lemma recorded_status: "recorded t h \<Longrightarrow> StatusTracker t = statusOf h"
  by (simp add: recorded_def StatusTracker_iff statusOf_def)

lemma unhealthyInserts_eq [simp]: "unhealthyInserts = 2"
  by (simp add: unhealthyInserts_def BufferSize_def ThresholdFalse_def)

fun setHistory :: "status \<Rightarrow> bool list" where
  "setHistory StatusUnknown = []"
| "setHistory StatusHealthy = [True]"
| "setHistory StatusUnhealthy = [False, False]"

lemma recorded_SetStatus:
  assumes "recorded t h" shows "\<exists>t'. SetStatusTracker st t = Some t' \<and> recorded t' (setHistory st)"
proof (cases st)
  case StatusUnknown
  then show ?thesis using recorded_Reset [OF assms] by simp
next
  case StatusHealthy
  then show ?thesis using recorded_Insert [OF recorded_Reset [OF assms], of True] by simp
next
  case StatusUnhealthy
  then show ?thesis
    using recorded_all [OF recorded_Reset [OF assms], of "[False, False]"] by (simp add: upt_rec)
qed

section \<open>Operations on the state of all node pools\<close>

datatype health_op = HUpdate string bool | HSet string status | HStatus string

fun health_apply :: "health_op \<Rightarrow> health_state \<Rightarrow> health_state option" where
  "health_apply (HUpdate uid b) s = UpdateState uid b s"
| "health_apply (HSet uid st) s = SetStatusState uid st s"
| "health_apply (HStatus uid) s = Some (snd (StatusState uid s))"

fun health_run :: "health_op list \<Rightarrow> health_state \<Rightarrow> health_state option" where
  "health_run [] s = Some s"
| "health_run (op # ops) s = Option.bind (health_apply op s) (health_run ops)"

text \<open>The outcomes recorded for a pool by a list of operations, after the history \<open>h\<close>.\<close>

fun history :: "string \<Rightarrow> health_op list \<Rightarrow> bool list \<Rightarrow> bool list" where
  "history uid [] h = h"
| "history uid (HUpdate u b # ops) h = history uid ops (if u = uid then h @ [b] else h)"
| "history uid (HSet u st # ops) h = history uid ops (if u = uid then setHistory st else h)"
| "history uid (HStatus u # ops) h = history uid ops h"

definition state_records :: "health_state \<Rightarrow> (string \<Rightarrow> bool list) \<Rightarrow> bool" where
  "state_records s h \<longleftrightarrow> (\<forall>uid. recorded (fst (nodePoolNodeRegistration uid s)) (h uid))"

lemma registration_update:
  "fst (nodePoolNodeRegistration uid (AList.update u t s)) =
     (if uid = u then t else fst (nodePoolNodeRegistration uid s))"
  by (simp add: nodePoolNodeRegistration_def gomap_simps split: option.splits)

lemma registration_create:
  "fst (nodePoolNodeRegistration uid (snd (nodePoolNodeRegistration u s))) =
     fst (nodePoolNodeRegistration uid s)"
  by (auto simp: nodePoolNodeRegistration_def gomap_simps split: option.splits)

lemma UpdateState_unfold:
  "UpdateState uid b s = map_option (\<lambda>t'. AList.update uid t' (snd (nodePoolNodeRegistration uid s)))
     (InsertRing b (fst (nodePoolNodeRegistration uid s)))"
  by (simp add: UpdateState_def UpdateTracker_def split_beta)

lemma SetStatusState_unfold:
  "SetStatusState uid st s = map_option (\<lambda>t'. AList.update uid t' (snd (nodePoolNodeRegistration uid s)))
     (SetStatusTracker st (fst (nodePoolNodeRegistration uid s)))"
  by (simp add: SetStatusState_def split_beta)

lemma state_records_update:
  assumes "state_records s h" "recorded t hs"
  shows "state_records (AList.update u t (snd (nodePoolNodeRegistration u s))) (h(u := hs))"
  using assms by (simp add: state_records_def registration_update registration_create)

lemma health_apply_records:
  assumes "state_records s h"
  shows "\<exists>s'. health_apply op s = Some s' \<and> state_records s' (\<lambda>uid. history uid [op] (h uid))"
proof (cases op)
  case (HUpdate u b)
  obtain t' where t': "InsertRing b (fst (nodePoolNodeRegistration u s)) = Some t'" "recorded t' (h u @ [b])"
    using recorded_Insert assms by (metis state_records_def)
  have "(\<lambda>uid. history uid [op] (h uid)) = h(u := h u @ [b])" by (auto simp: HUpdate)
  then show ?thesis
    using state_records_update [OF assms t'(2), of u] t'(1) by (simp add: HUpdate UpdateState_unfold)
next
  case (HSet u st)
  obtain t' where t': "SetStatusTracker st (fst (nodePoolNodeRegistration u s)) = Some t'"
    "recorded t' (setHistory st)"
    using recorded_SetStatus assms by (metis state_records_def)
  have "(\<lambda>uid. history uid [op] (h uid)) = h(u := setHistory st)" by (auto simp: HSet)
  then show ?thesis
    using state_records_update [OF assms t'(2), of u] t'(1) by (simp add: HSet SetStatusState_unfold)
next
  case (HStatus u)
  then show ?thesis
    using assms by (simp add: StatusState_def split_beta state_records_def registration_create)
qed

lemma history_Cons: "history uid (op # ops) h = history uid ops (history uid [op] h)"
  by (cases op) auto

lemma health_run_records:
  assumes "state_records s h"
  shows "\<exists>s'. health_run ops s = Some s' \<and> state_records s' (\<lambda>uid. history uid ops (h uid))"
  using assms
proof (induction ops arbitrary: s h)
  case (Cons op ops)
  obtain s1 where s1: "health_apply op s = Some s1" "state_records s1 (\<lambda>uid. history uid [op] (h uid))"
    using health_apply_records [OF Cons.prems] by blast
  then show ?case using Cons.IH [OF s1(2)] by (simp add: history_Cons [of _ op ops])
qed simp

lemma state_records_New: "state_records NewHealthState (\<lambda>_. [])"
  by (simp add: state_records_def NewHealthState_def nodePoolNodeRegistration_def recorded_New)

section \<open>Dry runs\<close>

lemma copied_ring:
  assumes "recorded t h" "head t = 0"
  shows "fold (\<lambda>item acc. Option.bind acc (InsertRing item)) (Items t) (Some (NewTracker BufferSize)) = Some t"
proof -
  have len: "length (rbValues t) \<le> BufferSize" "capacity t = BufferSize"
    using assms(1) by (auto simp: recorded_def ring_wf_def)
  have "length (ys @ xs) \<le> BufferSize \<Longrightarrow>
      fold (\<lambda>item acc. Option.bind acc (InsertRing item)) xs
        (Some \<lparr> rbValues = ys, head = 0, capacity = BufferSize \<rparr>) =
      Some \<lparr> rbValues = ys @ xs, head = 0, capacity = BufferSize \<rparr>" for xs ys :: "bool list"
    by (induction xs arbitrary: ys) (auto simp: InsertRing_def)
  from this [of "[]" "rbValues t"] show ?thesis
    using len assms(2) by (simp add: NewTracker_def NewRingBuffer_def Items_def)
qed

section \<open>Properties\<close>

text \<open>
  C5. The health of every node pool is decided by its last four launch outcomes: after any
  sequence of \<^verbatim>\<open>Update\<close>, \<^verbatim>\<open>SetStatus\<close> and \<^verbatim>\<open>Status\<close> calls on any pools, none of which panics, \<^verbatim>\<open>Status\<close>
  of a pool is unknown when nothing was recorded since the last reset, unhealthy when at least two
  of the last four outcomes recorded for that pool failed, and healthy otherwise. Other pools do
  not interfere.
\<close>
theorem status_is_decided_by_last_outcomes:
  "\<exists>s. health_run ops NewHealthState = Some s \<and>
     fst (StatusState uid s) =
       (let h = history uid ops []; recent = drop (length h - 4) h
        in if h = [] then StatusUnknown
           else if length (filter Not recent) \<ge> 2 then StatusUnhealthy
           else StatusHealthy)"
proof -
  obtain s where s: "health_run ops NewHealthState = Some s"
    "state_records s (\<lambda>uid. history uid ops [])"
    using health_run_records [OF state_records_New, of ops] by blast
  then have "recorded (fst (nodePoolNodeRegistration uid s)) (history uid ops [])"
    by (simp add: state_records_def)
  then have "fst (StatusState uid s) = statusOf (history uid ops [])"
    by (simp add: StatusState_def split_beta recorded_status)
  with s(1) show ?thesis
    by (simp add: statusOf_def lastOutcomes_def BufferSize_def Let_def)
qed

text \<open>
  C25. \<^verbatim>\<open>DryRun\<close> previews the status that \<^verbatim>\<open>Update\<close> would lead to as long as the ring buffer has not
  wrapped around (its head is 0). Once it has, the replay in storage order can drop a different
  entry than \<^verbatim>\<open>Update\<close> does: after the outcomes success, success, failure, success, failure a dry
  run of a success reports a healthy pool, while the update leaves the pool unhealthy.
\<close>
theorem dry_run_preview:
  "(\<forall>ops s. health_run ops NewHealthState = Some s \<longrightarrow>
      head (fst (nodePoolNodeRegistration uid s)) = 0 \<longrightarrow>
      (\<exists>t. fst (DryRun uid b s) = Some t \<and>
           map_option (\<lambda>s'. fst (StatusState uid s')) (UpdateState uid b s) = Some (StatusTracker t))) \<and>
   (\<exists>s t s'. health_run (map (HUpdate uid) [True, True, False, True, False]) NewHealthState = Some s \<and>
      fst (DryRun uid True s) = Some t \<and> UpdateState uid True s = Some s' \<and>
      StatusTracker t = StatusHealthy \<and> fst (StatusState uid s') = StatusUnhealthy)"
proof (intro conjI allI impI)
  fix ops s
  assume run: "health_run ops NewHealthState = Some s"
    and zero: "head (fst (nodePoolNodeRegistration uid s)) = 0"
  let ?t = "fst (nodePoolNodeRegistration uid s)"
  have "state_records s (\<lambda>uid. history uid ops [])"
    using health_run_records [OF state_records_New, of ops] run by auto
  then have rec: "recorded ?t (history uid ops [])" by (simp add: state_records_def)
  then obtain t' where t': "InsertRing b ?t = Some t'" using recorded_Insert by blast
  have "fst (DryRun uid b s) = Some t'"
    using copied_ring [OF rec zero] t' by (simp add: DryRun_def split_beta UpdateTracker_def)
  moreover have "map_option (\<lambda>s'. fst (StatusState uid s')) (UpdateState uid b s) =
      Some (StatusTracker t')"
    using t' by (simp add: UpdateState_unfold StatusState_def split_beta registration_update)
  ultimately show "\<exists>t. fst (DryRun uid b s) = Some t \<and>
      map_option (\<lambda>s'. fst (StatusState uid s')) (UpdateState uid b s) = Some (StatusTracker t)"
    by blast
next
  show "\<exists>s t s'. health_run (map (HUpdate uid) [True, True, False, True, False]) NewHealthState = Some s \<and>
      fst (DryRun uid True s) = Some t \<and> UpdateState uid True s = Some s' \<and>
      StatusTracker t = StatusHealthy \<and> fst (StatusState uid s') = StatusUnhealthy"
    by (simp add: UpdateState_def nodePoolNodeRegistration_def NewHealthState_def NewTracker_def
        NewRingBuffer_def UpdateTracker_def InsertRing_def DryRun_def Items_def StatusState_def
        StatusTracker_def LenRing_def BufferSize_def ThresholdFalse_def Let_def)
qed

theorem dry_run_preview_witness:
  "\<exists>t. fst (DryRun ''pool'' False NewHealthState) = Some t \<and>
     map_option (\<lambda>s'. fst (StatusState ''pool'' s')) (UpdateState ''pool'' False NewHealthState) =
       Some (StatusTracker t)"
proof -
  have "health_run [] NewHealthState = Some NewHealthState"
    "head (fst (nodePoolNodeRegistration ''pool'' NewHealthState)) = 0"
    by (simp_all add: nodePoolNodeRegistration_def NewHealthState_def NewTracker_def NewRingBuffer_def)
  then show ?thesis using dry_run_preview [of "''pool''" False] by blast
qed

end
