(* ===== verification/InstanceTypes.thy ===== *)
theory InstanceTypes
  imports Requirements Resources
begin

text \<open>
  \<^verbatim>\<open>pkg/cloudprovider/types.go\<close> and \<^verbatim>\<open>pkg/cloudprovider/capacitytype.go\<close>: instance types, their
  offerings, allocatable resources, ordering by price and minimum-value checks.

  Prices are only compared, never added, so they are reals; \<^verbatim>\<open>sort.Slice\<close> is a parameter \<open>sorter\<close>
  whose contract is that it returns a permutation in price order. The lazily computed fields of an
  instance type are functions of its other fields here. The \<^verbatim>\<open>%v\<close> rendering of an override is
  the parameter \<open>render\<close>. Dynamic resource sets are left out.
\<close>

section \<open>Data\<close>

record 'q overhead =
  KubeReserved :: "'q resource_list"
  SystemReserved :: "'q resource_list"
  EvictionThreshold :: "'q resource_list"

record 'q offering =
  ofRequirements :: requirements
  ofPrice :: real
  ofAvailable :: bool
  ofReservationCapacity :: int
  CapacityOverride :: "'q resource_list"
  OverheadOverride :: "'q overhead option"
  priceOverlayApplied :: bool

record 'q instance_type =
  itName :: string
  itRequirements :: requirements
  itOfferings :: "'q offering list"
  itCapacity :: "'q resource_list"
  VolumeAttachmentLimits :: "(string, int) gomap"
  itOverhead :: "'q overhead"
  capacityOverlayApplied :: bool

record 'q allocatable_offerings =
  aoAllocatable :: "'q resource_list"
  aoOfferings :: "'q offering list"

text \<open>The arbitrary choices of \<^verbatim>\<open>Requirement.Any\<close>.\<close>

record choices =
  pickFirst :: "string set \<Rightarrow> string"
  randIntn :: "int \<Rightarrow> int"

definition MaxFloat64 :: real where "MaxFloat64 = (2 - 1 / 2 ^ 52) * 2 ^ 1023"

section \<open>Offerings\<close>

definition CapacityType :: "choices \<Rightarrow> 'q offering \<Rightarrow> string option" where
  "CapacityType ch off = Any (pickFirst ch) (randIntn ch) (Get (ofRequirements off) CapacityTypeLabelKey)"

definition Zone :: "choices \<Rightarrow> 'q offering \<Rightarrow> string option" where
  "Zone ch off = Any (pickFirst ch) (randIntn ch) (Get (ofRequirements off) LabelTopologyZone)"

definition ReservationID :: "string \<Rightarrow> choices \<Rightarrow> 'q offering \<Rightarrow> string option" where
  "ReservationID label ch off = Any (pickFirst ch) (randIntn ch) (Get (ofRequirements off) label)"

definition AvailableOfferings :: "'q offering list \<Rightarrow> 'q offering list" where
  "AvailableOfferings ofs = filter ofAvailable ofs"

definition Launchable :: "'q offering \<Rightarrow> bool" where
  "Launchable off =
     (if \<not> ofAvailable off then False
      else case map_of (ofRequirements off) CapacityTypeLabelKey of
             None \<Rightarrow> True
           | Some req \<Rightarrow> \<not> Has req CapacityTypeReserved \<or> ofReservationCapacity off > 0)"

definition LaunchableOfferings :: "'q offering list \<Rightarrow> 'q offering list" where
  "LaunchableOfferings ofs = filter Launchable ofs"

definition CompatibleOfferings :: "'q offering list \<Rightarrow> requirements \<Rightarrow> 'q offering list" where
  "CompatibleOfferings ofs reqs =
     filter (\<lambda>off. IsCompatible reqs (ofRequirements off) AllowUndefinedWellKnownLabels) ofs"

fun HasCompatible :: "'q offering list \<Rightarrow> requirements \<Rightarrow> bool" where
  "HasCompatible [] reqs = False"
| "HasCompatible (off # ofs) reqs =
     (if IsCompatible reqs (ofRequirements off) AllowUndefinedWellKnownLabels then True
      else HasCompatible ofs reqs)"

text \<open>\<^verbatim>\<open>lo.MinBy\<close> and \<^verbatim>\<open>lo.MaxBy\<close> keep the first of equal elements; the empty list gives nil.\<close>

definition Cheapest :: "'q offering list \<Rightarrow> 'q offering option" where
  "Cheapest ofs = (case ofs of [] \<Rightarrow> None
     | off # rest \<Rightarrow> Some (fold (\<lambda>a best. if ofPrice a < ofPrice best then a else best) rest off))"

definition MostExpensive :: "'q offering list \<Rightarrow> 'q offering option" where
  "MostExpensive ofs = (case ofs of [] \<Rightarrow> None
     | off # rest \<Rightarrow> Some (fold (\<lambda>a best. if ofPrice a > ofPrice best then a else best) rest off))"

section \<open>Capacity type classes\<close>

datatype capacity_type_class = ClassReserved | ClassSpot | ClassOnDemand

definition CapacityTypeClassPrecedence :: "capacity_type_class list" where
  "CapacityTypeClassPrecedence = [ClassReserved, ClassSpot, ClassOnDemand]"

type_synonym capacity_type_classes = "(string, capacity_type_class) gomap"

definition DefaultCapacityTypeClasses :: capacity_type_classes where
  "DefaultCapacityTypeClasses =
     [(CapacityTypeReserved, ClassReserved), (CapacityTypeSpot, ClassSpot),
      (CapacityTypeOnDemand, ClassOnDemand)]"

definition CapacityTypes :: "capacity_type_classes \<Rightarrow> string list" where
  "CapacityTypes c = sort (map fst c)"

definition ClassOf :: "capacity_type_classes \<Rightarrow> string \<Rightarrow> capacity_type_class option" where
  "ClassOf c capacityType = map_of c capacityType"

definition WithClasses :: "capacity_type_classes \<Rightarrow> capacity_type_classes \<Rightarrow> capacity_type_classes" where
  "WithClasses c additional = fold (\<lambda>(k, v) m. AList.update k v m) additional c"

record capacity_type_class_state =
  resolver :: capacity_type_classes
  byClass :: "(capacity_type_class, string list) gomap"
  classRequirements :: "(capacity_type_class, requirements) gomap"

datatype resolver_error = WrongBuiltInClass string | NoClass string | NotOnDemand string

fun classify ::
  "capacity_type_classes \<Rightarrow> string list \<Rightarrow> (capacity_type_class, string list) gomap \<Rightarrow>
   resolver_error + (capacity_type_class, string list) gomap" where
  "classify c [] acc = Inr acc"
| "classify c (ct # cts) acc =
     (case ClassOf c ct of
        None \<Rightarrow> Inl (NoClass ct)
      | Some class \<Rightarrow>
          if map_of DefaultCapacityTypeClasses ct = None \<and> class \<noteq> ClassOnDemand
          then Inl (NotOnDemand ct)
          else classify c cts (AList.update class (get_or [] acc class @ [ct]) acc))"

text \<open>The resolver's types also replace the known values of the capacity type label, the entry of
  \<^verbatim>\<open>v1.WellKnownValuesForRequirements\<close> passed in and returned as \<open>known\<close>.\<close>

definition SetCapacityTypeClassResolver ::
  "capacity_type_classes \<Rightarrow> (string, string set) gomap \<Rightarrow>
   resolver_error + capacity_type_class_state \<times> (string, string set) gomap" where
  "SetCapacityTypeClassResolver c known =
     (case find (\<lambda>(ct, class). ClassOf c ct \<noteq> Some class) DefaultCapacityTypeClasses of
        Some (ct, _) \<Rightarrow> Inl (WrongBuiltInClass ct)
      | None \<Rightarrow>
          (case classify c (CapacityTypes c) [] of
             Inl e \<Rightarrow> Inl e
           | Inr groups \<Rightarrow>
               Inr (\<lparr> resolver = c, byClass = groups,
                      classRequirements =
                        map (\<lambda>(class, cts). (class, NewRequirements [reqIn CapacityTypeLabelKey cts])) groups \<rparr>,
                    AList.update CapacityTypeLabelKey (set (CapacityTypes c)) known)))"

definition CapacityTypeClassOf :: "capacity_type_class_state \<Rightarrow> string \<Rightarrow> capacity_type_class option" where
  "CapacityTypeClassOf st capacityType = ClassOf (resolver st) capacityType"

definition CapacityTypesOf :: "capacity_type_class_state \<Rightarrow> capacity_type_class \<Rightarrow> string list" where
  "CapacityTypesOf st class = get_or [] (byClass st) class"

definition CapacityTypeClassRequirements ::
  "capacity_type_class_state \<Rightarrow> capacity_type_class \<Rightarrow> requirements" where
  "CapacityTypeClassRequirements st class =
     (case map_of (classRequirements st) class of
        Some reqs \<Rightarrow> reqs
      | None \<Rightarrow> NewRequirements [reqDoesNotExist CapacityTypeLabelKey])"

definition HasCapacityTypeClass ::
  "capacity_type_class_state \<Rightarrow> requirement \<Rightarrow> capacity_type_class \<Rightarrow> bool" where
  "HasCapacityTypeClass st r class = list_ex (Has r) (CapacityTypesOf st class)"

fun worstLaunchLoop ::
  "capacity_type_class_state \<Rightarrow> 'q offering list \<Rightarrow> requirements \<Rightarrow> capacity_type_class list \<Rightarrow> real" where
  "worstLaunchLoop st ofs reqs [] = MaxFloat64"
| "worstLaunchLoop st ofs reqs (class # classes) =
     (case MostExpensive (CompatibleOfferings (CompatibleOfferings ofs reqs)
             (CapacityTypeClassRequirements st class)) of
        Some off \<Rightarrow> ofPrice off
      | None \<Rightarrow> worstLaunchLoop st ofs reqs classes)"

definition WorstLaunchPrice ::
  "capacity_type_class_state \<Rightarrow> 'q offering list \<Rightarrow> requirements \<Rightarrow> real" where
  "WorstLaunchPrice st ofs reqs = worstLaunchLoop st ofs reqs CapacityTypeClassPrecedence"

section \<open>Allocatable resources\<close>

definition Total :: "'q::linordered_ab_group_add overhead \<Rightarrow> 'q resource_list" where
  "Total off = Merge [KubeReserved off, SystemReserved off, EvictionThreshold off]"

text \<open>\<^verbatim>\<open>lo.Assign\<close>: the entries of the second map replace those of the first.\<close>

definition assignMap :: "('k, 'v) gomap \<Rightarrow> ('k, 'v) gomap \<Rightarrow> ('k, 'v) gomap" where
  "assignMap m extra = fold (\<lambda>(k, v) acc. AList.update k v acc) extra m"

definition HugePagesPrefix :: string where "HugePagesPrefix = ''hugepages-''"

definition subtractHugePage ::
  "string \<times> 'q \<Rightarrow> 'q::linordered_ab_group_add resource_list \<Rightarrow> 'q resource_list" where
  "subtractHugePage = (\<lambda>(name, quantity) allocatable.
     if has_prefix name HugePagesPrefix
     then let current = qty allocatable ResourceMemory - quantity
          in AList.update ResourceMemory (if current < 0 then 0 else current) allocatable
     else allocatable)"

definition computeAllocatable ::
  "'q::linordered_ab_group_add instance_type \<Rightarrow> 'q resource_list \<Rightarrow> 'q overhead option \<Rightarrow>
   'q resource_list" where
  "computeAllocatable i capacityOverride overheadOverride =
     (let capacity = (if length capacityOverride > 0 then assignMap (itCapacity i) capacityOverride
                      else itCapacity i);
          overhead = (case overheadOverride of
                        None \<Rightarrow> Total (itOverhead i)
                      | Some off \<Rightarrow> assignMap (Total (itOverhead i)) (Total off))
      in fold subtractHugePage capacity (Subtract capacity overhead))"

definition hasOverride :: "'q offering \<Rightarrow> bool" where
  "hasOverride off \<longleftrightarrow> length (CapacityOverride off) > 0 \<or> OverheadOverride off \<noteq> None"

text \<open>The grouping loop: the base group first, then one group per override key in order of
  appearance. \<open>render\<close> is the text of an offering's overrides.\<close>

fun groupLoop ::
  "('q offering \<Rightarrow> string) \<Rightarrow> 'q offering list \<Rightarrow> 'q offering list \<times> (string \<times> 'q offering list) list \<Rightarrow>
   'q offering list \<times> (string \<times> 'q offering list) list" where
  "groupLoop render [] acc = acc"
| "groupLoop render (off # ofs) (base, groups) =
     (if \<not> ofAvailable off then groupLoop render ofs (base, groups)
      else if \<not> hasOverride off then groupLoop render ofs (base @ [off], groups)
      else groupLoop render ofs
             (base, if map_of groups (render off) = None then groups @ [(render off, [off])]
                    else AList.map_entry (render off) (\<lambda>g. g @ [off]) groups))"

definition groupOfferingsByOverride ::
  "('q offering \<Rightarrow> string) \<Rightarrow> 'q::linordered_ab_group_add instance_type \<Rightarrow> 'q allocatable_offerings list" where
  "groupOfferingsByOverride render i =
     (let (base, groups) = groupLoop render (itOfferings i) ([], [])
      in \<lparr> aoAllocatable = computeAllocatable i [] None, aoOfferings = base \<rparr> #
         map (\<lambda>(_, g). \<lparr> aoAllocatable = computeAllocatable i (CapacityOverride (hd g)) (OverheadOverride (hd g)),
                         aoOfferings = g \<rparr>) groups)"

definition AllocatableOfferingsList ::
  "('q offering \<Rightarrow> string) \<Rightarrow> 'q::linordered_ab_group_add instance_type \<Rightarrow> 'q allocatable_offerings list" where
  "AllocatableOfferingsList render i =
     (if \<not> list_ex hasOverride (itOfferings i)
      then [\<lparr> aoAllocatable = computeAllocatable i [] None,
              aoOfferings = AvailableOfferings (itOfferings i) \<rparr>]
      else groupOfferingsByOverride render i)"

definition Allocatable ::
  "('q offering \<Rightarrow> string) \<Rightarrow> 'q::linordered_ab_group_add instance_type \<Rightarrow> 'q resource_list" where
  "Allocatable render i = aoAllocatable (hd (AllocatableOfferingsList render i))"

fun OfferingPrice :: "choices \<Rightarrow> 'q offering list \<Rightarrow> string \<Rightarrow> string \<Rightarrow> (real \<times> bool) option" where
  "OfferingPrice ch [] zone capacityType = Some (0, False)"
| "OfferingPrice ch (off # ofs) zone capacityType =
     (case Zone ch off of
        None \<Rightarrow> None
      | Some z \<Rightarrow>
          if z = zone then
            (case CapacityType ch off of
               None \<Rightarrow> None
             | Some c \<Rightarrow> if c = capacityType then Some (ofPrice off, True)
                         else OfferingPrice ch ofs zone capacityType)
          else OfferingPrice ch ofs zone capacityType)"

definition ApplyCapacityOverlay ::
  "'q resource_list \<Rightarrow> 'q instance_type \<Rightarrow> 'q instance_type" where
  "ApplyCapacityOverlay updated i =
     i \<lparr> itCapacity := assignMap (itCapacity i) updated, capacityOverlayApplied := True \<rparr>"

section \<open>Selection\<close>

definition launchPrice :: "requirements \<Rightarrow> 'q instance_type \<Rightarrow> real" where
  "launchPrice reqs it =
     fold (\<lambda>off price. if Launchable off \<and>
                         IsCompatible reqs (ofRequirements off) AllowUndefinedWellKnownLabels \<and>
                         ofPrice off < price
                      then ofPrice off else price)
       (itOfferings it) MaxFloat64"

type_synonym 'q sorter = "('q instance_type \<times> real) list \<Rightarrow> ('q instance_type \<times> real) list"

definition OrderByPrice ::
  "'q sorter \<Rightarrow> requirements \<Rightarrow> 'q instance_type list \<Rightarrow> 'q instance_type list" where
  "OrderByPrice sorter reqs its = map fst (sorter (map (\<lambda>it. (it, launchPrice reqs it)) its))"

definition CompatibleInstanceTypes ::
  "'q instance_type list \<Rightarrow> requirements \<Rightarrow> 'q instance_type list" where
  "CompatibleInstanceTypes its reqs =
     filter (\<lambda>it. HasCompatible (AvailableOfferings (itOfferings it)) reqs) its"

text \<open>One round of \<^verbatim>\<open>SatisfiesMinValues\<close>: the values the instance type adds per key, then the keys
  that still miss their minimum.\<close>

definition addValues ::
  "requirements \<Rightarrow> 'q instance_type \<Rightarrow> (string, string set) gomap \<Rightarrow> (string, string set) gomap" where
  "addValues requirements it valuesForKey =
     fold (\<lambda>(_, req) m.
             if minValues req \<noteq> None
             then AList.update (Key req)
                    (get_or {} m (Key req) \<union>
                     Set.filter (Has req) (valueSet (Get (itRequirements it) (Key req)))) m
             else m)
       requirements valuesForKey"

definition updateIncompatible ::
  "requirements \<Rightarrow> (string, string set) gomap \<Rightarrow> (string, nat) gomap \<Rightarrow> (string, nat) gomap" where
  "updateIncompatible requirements valuesForKey incompatible =
     fold (\<lambda>(k, v) m.
             if int (card v) < (case minValues (Get requirements k) of Some n \<Rightarrow> n | None \<Rightarrow> 0)
             then AList.update k (card v) m else AList.delete k m)
       valuesForKey incompatible"

fun minValuesLoop ::
  "requirements \<Rightarrow> 'q instance_type list \<Rightarrow> nat \<Rightarrow> (string, string set) gomap \<Rightarrow> (string, nat) gomap \<Rightarrow>
   nat \<times> (string, nat) gomap" where
  "minValuesLoop requirements [] i valuesForKey incompatible = (i, incompatible)"
| "minValuesLoop requirements (it # its) i valuesForKey incompatible =
     (let valuesForKey' = addValues requirements it valuesForKey;
          incompatible' = updateIncompatible requirements valuesForKey' incompatible
      in if length incompatible' = 0 then (i + 1, [])
         else minValuesLoop requirements its (i + 1) valuesForKey' incompatible')"

text \<open>The result is the number of instance types needed and the keys that miss their minimum; the
  error is that this map is not empty.\<close>

definition SatisfiesMinValues ::
  "'q instance_type list \<Rightarrow> requirements \<Rightarrow> nat \<times> (string, nat) gomap" where
  "SatisfiesMinValues its requirements =
     (if \<not> HasMinValues requirements then (0, [])
      else minValuesLoop requirements its 0 [] [])"

datatype min_values_policy = MinValuesStrict | MinValuesBestEffort

definition Truncate ::
  "'q sorter \<Rightarrow> min_values_policy \<Rightarrow> requirements \<Rightarrow> nat \<Rightarrow> 'q instance_type list \<Rightarrow>
   (string, nat) gomap + 'q instance_type list" where
  "Truncate sorter policy requirements maxItems its =
     (let truncated = take maxItems (OrderByPrice sorter requirements its)
      in if HasMinValues requirements \<and> policy \<noteq> MinValuesBestEffort \<and>
            snd (SatisfiesMinValues truncated requirements) \<noteq> []
         then Inl (snd (SatisfiesMinValues truncated requirements))
         else Inr truncated)"

section \<open>Template pool names\<close>

definition templatePoolSetSeparator :: char where "templatePoolSetSeparator = CHR ''~''"

definition TemplatePoolName :: "string \<Rightarrow> int \<Rightarrow> string" where
  "TemplatePoolName pool setIndex = pool @ [templatePoolSetSeparator] @ format_int setIndex"

definition ParseTemplatePoolName :: "string \<Rightarrow> (string \<times> int) option" where
  "ParseTemplatePoolName name =
     (if templatePoolSetSeparator \<notin> set name then None
      else let suffix = rev (takeWhile (\<lambda>c. c \<noteq> templatePoolSetSeparator) (rev name));
               pool = take (length name - length suffix - 1) name
           in case atoi suffix of
                (n, None) \<Rightarrow> if n < 0 then None else Some (pool, n)
              | (_, Some _) \<Rightarrow> None)"

section \<open>Price order\<close>

lemma launchPrice_fold:
  fixes P :: "'a \<Rightarrow> bool" and price :: "'a \<Rightarrow> real"
  shows "fold (\<lambda>x acc. if P x \<and> price x < acc then price x else acc) xs m =
    Min (insert m (price ` {x \<in> set xs. P x}))"
proof (induction xs arbitrary: m)
  case (Cons x xs)
  let ?S = "price ` {y \<in> set xs. P y}"
  have below: "Min (insert a (insert b ?S)) = Min (insert b ?S)" if "b \<le> a" for a b
  proof -
    have fin: "finite (insert b ?S)" by simp
    then have "Min (insert b ?S) \<le> b" by (rule Min_le) simp
    with that have "Min (insert b ?S) \<le> a" by (rule order_trans [rotated])
    moreover have "Min (insert a (insert b ?S)) = min a (Min (insert b ?S))"
      using fin by (rule Min_insert) simp
    ultimately show ?thesis by (simp add: min_absorb2)
  qed
  have "{y \<in> set (x # xs). P y} = (if P x then insert x {y \<in> set xs. P y} else {y \<in> set xs. P y})"
    by auto
  then show ?case
    using Cons [of "price x"] Cons [of m] below [of "price x" m] below [of m "price x"]
    by (cases "P x"; cases "price x < m") (simp_all add: insert_commute)
qed simp

lemma launchPrice_eq:
  "launchPrice reqs it = Min (insert MaxFloat64 (ofPrice ` {x \<in> set (itOfferings it).
     Launchable x \<and> IsCompatible reqs (ofRequirements x) AllowUndefinedWellKnownLabels}))"
  unfolding launchPrice_def
  using launchPrice_fold [of "\<lambda>x. Launchable x \<and> IsCompatible reqs (ofRequirements x) AllowUndefinedWellKnownLabels"
      ofPrice "itOfferings it" MaxFloat64]
  by (simp add: conj_assoc)

text \<open>The contract of \<^verbatim>\<open>sort.Slice\<close> with the price comparison.\<close>

definition sorts_by_price :: "'q sorter \<Rightarrow> bool" where
  "sorts_by_price sorter \<longleftrightarrow> (\<forall>xs. mset (sorter xs) = mset xs \<and> sorted (map snd (sorter xs)))"

lemma OrderByPrice_perm:
  assumes "sorts_by_price sorter" shows "mset (OrderByPrice sorter reqs its) = mset its"
proof -
  have "mset (map fst (sorter (map (\<lambda>it. (it, launchPrice reqs it)) its))) =
      image_mset fst (mset (map (\<lambda>it. (it, launchPrice reqs it)) its))"
    using assms by (simp add: sorts_by_price_def)
  then show ?thesis by (simp add: OrderByPrice_def image_mset.compositionality comp_def)
qed

lemma OrderByPrice_sorted:
  assumes "sorts_by_price sorter" shows "sorted (map (launchPrice reqs) (OrderByPrice sorter reqs its))"
proof -
  let ?xs = "map (\<lambda>it. (it, launchPrice reqs it)) its"
  have "set (sorter ?xs) = set ?xs" using assms by (metis mset_eq_setD sorts_by_price_def)
  then have eq: "map (launchPrice reqs) (map fst (sorter ?xs)) = map snd (sorter ?xs)"
    by (auto simp: comp_def)
  show ?thesis unfolding OrderByPrice_def eq using assms by (simp add: sorts_by_price_def)
qed

section \<open>Minimum values\<close>

text \<open>The values of a key that a list of instance types offers and the requirement allows.\<close>

definition offeredValues :: "requirements \<Rightarrow> 'q instance_type list \<Rightarrow> string \<Rightarrow> string set" where
  "offeredValues R its k =
     (\<Union>it \<in> set its. {v \<in> valueSet (Get (itRequirements it) k). Has (Get R k) v})"

definition minimum :: "requirements \<Rightarrow> string \<Rightarrow> int option" where
  "minimum R k = Option.bind (map_of R k) minValues"

definition meetsMinimum :: "requirements \<Rightarrow> 'q instance_type list \<Rightarrow> bool" where
  "meetsMinimum R its \<longleftrightarrow> (\<forall>k n. minimum R k = Some n \<longrightarrow> n \<le> int (card (offeredValues R its k)))"

lemma offeredValues_append:
  "offeredValues R (its @ [it]) k =
     offeredValues R its k \<union> {v \<in> valueSet (Get (itRequirements it) k). Has (Get R k) v}"
  by (auto simp: offeredValues_def)

lemma map_of_addValues:
  assumes "wf_requirements R"
  shows "map_of (addValues R it m) k =
    (if minimum R k \<noteq> None
     then Some (get_or {} m k \<union> {v \<in> valueSet (Get (itRequirements it) k). Has (Get R k) v})
     else map_of m k)"
proof -
  let ?f = "\<lambda>(k::string) req m. if minValues req \<noteq> None
      then AList.update (Key req) (get_or {} m (Key req) \<union>
             Set.filter (Has req) (valueSet (Get (itRequirements it) (Key req)))) m else m"
  let ?g = "\<lambda>k req old. if minValues req \<noteq> None
      then Some ((case old of Some s \<Rightarrow> s | None \<Rightarrow> {}) \<union>
             Set.filter (Has req) (valueSet (Get (itRequirements it) k))) else old"
  have "map_of (fold (\<lambda>(k, req) m. ?f k req m) R m) k =
      (case map_of R k of None \<Rightarrow> map_of m k | Some req \<Rightarrow> ?g k req (map_of m k))"
  proof (rule map_of_fold_pointwise)
    show "gomap_wf R" using assms by (simp add: wf_requirements_def)
    fix k req m k' assume "(k, req) \<in> set R"
    then have "Key req = k" using assms by (auto simp: wf_requirements_def)
    then show "map_of (?f k req m) k' = (if k' = k then ?g k req (map_of m k) else map_of m k')"
      by (simp add: gomap_simps get_or_def)
  qed
  then show ?thesis
    by (auto simp: addValues_def minimum_def Get_def [of R] get_or_def split: option.splits)
qed

lemma addValues_wf: "gomap_wf m \<Longrightarrow> gomap_wf (addValues R it m)"
  unfolding addValues_def by (rule fold_invariant_set) auto

lemma map_of_updateIncompatible:
  assumes "gomap_wf vs"
  shows "map_of (updateIncompatible R vs inc) k =
    (case map_of vs k of
       None \<Rightarrow> map_of inc k
     | Some s \<Rightarrow> if int (card s) < (case minValues (Get R k) of Some n \<Rightarrow> n | None \<Rightarrow> 0)
                then Some (card s) else None)"
  unfolding updateIncompatible_def
  by (subst map_of_fold_pointwise [where g = "\<lambda>k s _.
        if int (card s) < (case minValues (Get R k) of Some n \<Rightarrow> n | None \<Rightarrow> 0) then Some (card s) else None"])
     (auto simp: assms gomap_simps)

text \<open>The count at a key that misses its minimum.\<close>

definition shortfall :: "requirements \<Rightarrow> 'q instance_type list \<Rightarrow> string \<Rightarrow> nat option" where
  "shortfall R its k =
     (case minimum R k of
        Some n \<Rightarrow> if int (card (offeredValues R its k)) < n then Some (card (offeredValues R its k)) else None
      | None \<Rightarrow> None)"

lemma shortfall_None_iff:
  "shortfall R its k = None \<longleftrightarrow> (\<forall>n. minimum R k = Some n \<longrightarrow> n \<le> int (card (offeredValues R its k)))"
  by (cases "minimum R k") (auto simp: shortfall_def)

lemma shortfall_Some_iff:
  "shortfall R its k = Some c \<longleftrightarrow>
     c = card (offeredValues R its k) \<and> (\<exists>n. minimum R k = Some n \<and> int c < n)"
  by (cases "minimum R k") (auto simp: shortfall_def)

text \<open>What the loop knows after a non-empty prefix of the instance types.\<close>

definition minLoopInv ::
  "requirements \<Rightarrow> 'q instance_type list \<Rightarrow> (string, string set) gomap \<Rightarrow> (string, nat) gomap \<Rightarrow> bool" where
  "minLoopInv R seen vs inc \<longleftrightarrow> gomap_wf vs \<and>
     (\<forall>k. map_of vs k = (if seen \<noteq> [] \<and> minimum R k \<noteq> None then Some (offeredValues R seen k) else None)) \<and>
     (\<forall>k. map_of inc k = (if seen \<noteq> [] then shortfall R seen k else None))"

lemma minLoopInv_step:
  assumes R: "wf_requirements R" and inv: "minLoopInv R seen vs inc"
  shows "minLoopInv R (seen @ [it]) (addValues R it vs)
    (updateIncompatible R (addValues R it vs) inc)"
proof -
  let ?vs = "addValues R it vs"
  have vs: "gomap_wf vs"
    "\<And>k. map_of vs k = (if seen \<noteq> [] \<and> minimum R k \<noteq> None then Some (offeredValues R seen k) else None)"
    and inc: "\<And>k. map_of inc k = (if seen \<noteq> [] then shortfall R seen k else None)"
    using inv by (simp_all add: minLoopInv_def)
  have new: "map_of ?vs k = (if minimum R k \<noteq> None then Some (offeredValues R (seen @ [it]) k) else None)" for k
    using vs(2) [of k] unfolding map_of_addValues [OF R] offeredValues_append
    by (auto simp: get_or_def offeredValues_def)
  have wf: "gomap_wf ?vs" using vs(1) by (rule addValues_wf)
  have "map_of (updateIncompatible R ?vs inc) k = shortfall R (seen @ [it]) k" for k
  proof (cases "minimum R k")
    case None
    then show ?thesis
      using inc [of k] by (simp add: map_of_updateIncompatible [OF wf] new shortfall_def)
  next
    case (Some n)
    then have "minValues (Get R k) = Some n"
      by (cases "map_of R k") (auto simp: minimum_def Get_def)
    with Some show ?thesis by (simp add: map_of_updateIncompatible [OF wf] new shortfall_def)
  qed
  then show ?thesis using wf new by (simp add: minLoopInv_def)
qed

lemma minLoopInv_meets:
  assumes "minLoopInv R seen vs inc" "seen \<noteq> []"
  shows "inc = [] \<longleftrightarrow> meetsMinimum R seen"
  using assms unfolding gomap_Nil_iff [of inc] meetsMinimum_def
  by (simp add: minLoopInv_def shortfall_None_iff)

lemma offeredValues_finite:
  assumes "\<forall>it \<in> set its. wf_requirements (itRequirements it)"
  shows "finite (offeredValues R its k)"
proof -
  have "finite (valueSet (Get (itRequirements it) k))" if "it \<in> set its" for it
    using assms that wf_requirement_D(1) [OF Get_wf] by blast
  then show ?thesis by (simp add: offeredValues_def)
qed

lemma meetsMinimum_mono:
  assumes "meetsMinimum R its" "\<forall>it \<in> set (its @ extra). wf_requirements (itRequirements it)"
  shows "meetsMinimum R (its @ extra)"
proof -
  have "card (offeredValues R its k) \<le> card (offeredValues R (its @ extra) k)" for k
    using offeredValues_finite [OF assms(2)] by (intro card_mono) (auto simp: offeredValues_def)
  then show ?thesis using assms(1) unfolding meetsMinimum_def by (meson of_nat_le_iff order_trans)
qed

text \<open>The loop stops after the shortest prefix that meets every minimum, or after all of them.\<close>

lemma minValuesLoop_correct:
  assumes R: "wf_requirements R" and inv: "minLoopInv R seen vs inc"
    and before: "\<forall>j. 0 < j \<and> j \<le> length seen \<longrightarrow> \<not> meetsMinimum R (take j seen)"
    and res: "minValuesLoop R its (length seen) vs inc = (i, inc')" and its: "its \<noteq> []"
  shows "0 < i \<and> i \<le> length (seen @ its) \<and>
    (inc' = [] \<longleftrightarrow> meetsMinimum R (take i (seen @ its))) \<and>
    (inc' \<noteq> [] \<longrightarrow> i = length (seen @ its)) \<and>
    (\<forall>j. 0 < j \<and> j < i \<longrightarrow> \<not> meetsMinimum R (take j (seen @ its))) \<and>
    (\<forall>k c. map_of inc' k = Some c \<longrightarrow> c = card (offeredValues R (seen @ its) k) \<and>
       (\<exists>n. minimum R k = Some n \<and> int c < n))"
  using inv before res its
proof (induction its arbitrary: seen vs inc)
  case (Cons it its)
  let ?seen = "seen @ [it]" and ?vs = "addValues R it vs"
  let ?inc = "updateIncompatible R ?vs inc"
  have inv': "minLoopInv R ?seen ?vs ?inc" using minLoopInv_step [OF R Cons.prems(1)] .
  have meets: "?inc = [] \<longleftrightarrow> meetsMinimum R ?seen" using minLoopInv_meets [OF inv'] by simp
  have pre: "\<not> meetsMinimum R (take j (seen @ it # its))" if "0 < j" "j \<le> length seen" for j
    using Cons.prems(2) that by simp
  show ?case
  proof (cases "?inc = []")
    case True
    then have i: "i = Suc (length seen)" "inc' = []"
      using Cons.prems(3) by (simp_all add: Let_def)
    then have "take i (seen @ it # its) = ?seen" by simp
    with i show ?thesis using meets True pre by (simp add: less_Suc_eq_le)
  next
    case False
    then have rest: "minValuesLoop R its (length ?seen) ?vs ?inc = (i, inc')"
      using Cons.prems(3) by (simp add: Let_def)
    have before': "\<forall>j. 0 < j \<and> j \<le> length ?seen \<longrightarrow> \<not> meetsMinimum R (take j ?seen)"
    proof (intro allI impI)
      fix j assume j: "0 < j \<and> j \<le> length ?seen"
      show "\<not> meetsMinimum R (take j ?seen)"
      proof (cases "j \<le> length seen")
        case True
        then show ?thesis using Cons.prems(2) j by simp
      next
        case False
        then have "take j ?seen = ?seen" using j by simp
        then show ?thesis using \<open>?inc \<noteq> []\<close> meets by simp
      qed
    qed
    show ?thesis
    proof (cases "its = []")
      case True
      then have i: "i = length ?seen" "inc' = ?inc" using rest by simp_all
      have counts: "\<forall>k c. map_of ?inc k = Some c \<longrightarrow> c = card (offeredValues R ?seen k) \<and>
          (\<exists>n. minimum R k = Some n \<and> int c < n)"
        using inv' by (simp add: minLoopInv_def shortfall_Some_iff)
      have full: "seen @ it # its = ?seen" using True by simp
      have all: "take i ?seen = ?seen" using i(1) by simp
      have short: "\<forall>j. 0 < j \<and> j < i \<longrightarrow> \<not> meetsMinimum R (take j ?seen)"
      proof (intro allI impI)
        fix j assume "0 < j \<and> j < i"
        then have "0 < j \<and> j \<le> length ?seen" using i(1) by simp
        with before' show "\<not> meetsMinimum R (take j ?seen)" by blast
      qed
      show ?thesis
        unfolding full all i(2)
        using counts short meets i(1) by (intro conjI) (simp, simp, blast, blast, blast, blast)
    next
      case nonempty: False
      have eq: "(seen @ [it]) @ its = seen @ it # its" by simp
      from Cons.IH [OF inv' before' rest nonempty] show ?thesis unfolding eq .
    qed
  qed
qed simp

lemma SatisfiesMinValues_correct:
  assumes "wf_requirements R" "its \<noteq> []" "HasMinValues R"
    and "\<forall>it \<in> set its. wf_requirements (itRequirements it)"
    and "SatisfiesMinValues its R = (i, unsatisfied)"
  shows "(unsatisfied = [] \<longleftrightarrow> meetsMinimum R its) \<and> 0 < i \<and> i \<le> length its \<and>
    (unsatisfied = [] \<longrightarrow> meetsMinimum R (take i its)) \<and>
    (\<forall>j. 0 < j \<and> j < i \<longrightarrow> \<not> meetsMinimum R (take j its)) \<and>
    (\<forall>k c. map_of unsatisfied k = Some c \<longrightarrow> c = card (offeredValues R its k) \<and>
       (\<exists>n. minimum R k = Some n \<and> int c < n))"
proof -
  have inv: "minLoopInv R [] [] []" by (simp add: minLoopInv_def)
  have loop: "minValuesLoop R its (length ([] :: 'a instance_type list)) [] [] = (i, unsatisfied)"
    using assms(3,5) by (simp add: SatisfiesMinValues_def)
  have before: "\<forall>j. 0 < j \<and> j \<le> length [] \<longrightarrow> \<not> meetsMinimum R (take j [])" by simp
  note res = minValuesLoop_correct [OF assms(1) inv before loop assms(2), unfolded append_Nil]
  have exact: "unsatisfied = [] \<longleftrightarrow> meetsMinimum R its"
  proof
    assume "unsatisfied = []"
    then have "meetsMinimum R (take i its)" using res by blast
    moreover have "\<forall>it \<in> set (take i its @ drop i its). wf_requirements (itRequirements it)"
      using assms(4) by simp
    ultimately have "meetsMinimum R (take i its @ drop i its)" by (rule meetsMinimum_mono)
    then show "meetsMinimum R its" by simp
  next
    assume m: "meetsMinimum R its"
    show "unsatisfied = []"
    proof (rule ccontr)
      assume ne: "unsatisfied \<noteq> []"
      then have "i = length its" using res by blast
      then have "take i its = its" by simp
      then show False using res m ne by metis
    qed
  qed
  from res exact show ?thesis by blast
qed

section \<open>Groups of offerings\<close>

lemma groupLoop_perm:
  assumes "groupLoop render ofs (base, groups) = (base', groups')"
  shows "mset base' + mset (concat (map snd groups')) =
    mset base + mset (concat (map snd groups)) + mset (filter ofAvailable ofs)"
  using assms
proof (induction ofs arbitrary: base groups)
  case (Cons x ofs)
  have entry: "map_of gs k \<noteq> None \<Longrightarrow>
      mset (concat (map snd (AList.map_entry k (\<lambda>g. g @ [x]) gs))) = add_mset x (mset (concat (map snd gs)))"
    for k and gs :: "(string \<times> 'a offering list) list"
    by (induction gs) (auto split: if_splits)
  show ?case
  proof (cases "ofAvailable x \<and> hasOverride x \<and> map_of groups (render x) \<noteq> None")
    case True
    then show ?thesis using Cons entry [of groups "render x"] by (auto simp: ac_simps)
  next
    case False
    then show ?thesis using Cons by (auto simp: ac_simps split: if_splits)
  qed
qed simp

text \<open>Every group is non-empty and holds offerings whose overrides render alike.\<close>

definition groups_ok :: "('q offering \<Rightarrow> string) \<Rightarrow> (string \<times> 'q offering list) list \<Rightarrow> bool" where
  "groups_ok render groups \<longleftrightarrow> distinct (map fst groups) \<and>
     (\<forall>(k, g) \<in> set groups. g \<noteq> [] \<and> (\<forall>x \<in> set g. render x = k \<and> hasOverride x \<and> ofAvailable x))"

lemma groups_ok_D:
  "groups_ok render groups \<Longrightarrow> (k, g) \<in> set groups \<Longrightarrow>
     g \<noteq> [] \<and> (\<forall>x \<in> set g. render x = k \<and> hasOverride x \<and> ofAvailable x)"
  by (auto simp: groups_ok_def)

lemma set_map_entry_cases:
  "(k', g') \<in> set (AList.map_entry k f gs) \<Longrightarrow>
     (k', g') \<in> set gs \<or> (k' = k \<and> (\<exists>g. (k, g) \<in> set gs \<and> g' = f g))"
  by (induction gs) (auto split: if_splits)

definition addToGroup ::
  "('q offering \<Rightarrow> string) \<Rightarrow> 'q offering \<Rightarrow> (string \<times> 'q offering list) list \<Rightarrow> (string \<times> 'q offering list) list" where
  "addToGroup render x groups =
     (if map_of groups (render x) = None then groups @ [(render x, [x])]
      else AList.map_entry (render x) (\<lambda>g. g @ [x]) groups)"

lemma addToGroup_ok:
  assumes "groups_ok render groups" "ofAvailable x" "hasOverride x"
  shows "groups_ok render (addToGroup render x groups)"
proof (cases "map_of groups (render x) = None")
  case True
  then show ?thesis using assms by (auto simp: groups_ok_def addToGroup_def map_of_eq_None_iff)
next
  case False
  then have eq: "addToGroup render x groups = AList.map_entry (render x) (\<lambda>g. g @ [x]) groups"
    unfolding addToGroup_def by (rule if_not_P)
  have "g' \<noteq> [] \<and> (\<forall>y \<in> set g'. render y = k' \<and> hasOverride y \<and> ofAvailable y)"
    if "(k', g') \<in> set (addToGroup render x groups)" for k' g'
  proof -
    from that have "(k', g') \<in> set groups \<or> (k' = render x \<and> (\<exists>g. (render x, g) \<in> set groups \<and> g' = g @ [x]))"
      unfolding eq by (rule set_map_entry_cases)
    then show ?thesis using assms groups_ok_D [OF assms(1)] by auto
  qed
  moreover have "distinct (map fst (addToGroup render x groups))"
    using assms(1) unfolding eq by (simp add: groups_ok_def distinct_map_entry)
  ultimately show ?thesis by (auto simp: groups_ok_def)
qed

lemma groupLoop_ok:
  assumes "groupLoop render ofs (base, groups) = (base', groups')" "groups_ok render groups"
    "\<forall>x \<in> set base. \<not> hasOverride x"
  shows "groups_ok render groups' \<and> (\<forall>x \<in> set base'. \<not> hasOverride x)"
  using assms
proof (induction ofs arbitrary: base groups)
  case (Cons x ofs)
  consider "\<not> ofAvailable x" | "ofAvailable x" "\<not> hasOverride x" | "ofAvailable x" "hasOverride x" by blast
  then show ?case
  proof cases
    case 1
    then have "groupLoop render ofs (base, groups) = (base', groups')" using Cons.prems(1) by simp
    then show ?thesis using Cons.prems(2,3) by (rule Cons.IH)
  next
    case 2
    then have "groupLoop render ofs (base @ [x], groups) = (base', groups')" using Cons.prems(1) by simp
    moreover have "\<forall>y \<in> set (base @ [x]). \<not> hasOverride y" using Cons.prems(3) 2(2) by simp
    ultimately show ?thesis using Cons.IH Cons.prems(2) by blast
  next
    case 3
    then have "groupLoop render ofs (base, addToGroup render x groups) = (base', groups')"
      using Cons.prems(1) by (simp add: addToGroup_def)
    moreover have "groups_ok render (addToGroup render x groups)"
      using Cons.prems(2) 3 by (rule addToGroup_ok)
    ultimately show ?thesis using Cons.prems(3) by (rule Cons.IH)
  qed
qed simp

text \<open>The rendering of overrides separates different overrides.\<close>

definition renders_overrides :: "('q offering \<Rightarrow> string) \<Rightarrow> 'q offering list \<Rightarrow> bool" where
  "renders_overrides render ofs \<longleftrightarrow> (\<forall>x \<in> set ofs. \<forall>y \<in> set ofs. render x = render y \<longrightarrow>
     CapacityOverride x = CapacityOverride y \<and> OverheadOverride x = OverheadOverride y)"

lemma hasOverride_False: "\<not> hasOverride x \<Longrightarrow> CapacityOverride x = [] \<and> OverheadOverride x = None"
  by (simp add: hasOverride_def)

lemma group_members_agree:
  assumes "renders_overrides render ofs" "groups_ok render groups" "(k, gs) \<in> set groups" "x \<in> set gs"
    "set gs \<subseteq> set ofs"
  shows "CapacityOverride (hd gs) = CapacityOverride x \<and> OverheadOverride (hd gs) = OverheadOverride x"
proof -
  have "\<forall>y \<in> set gs. render y = k" using assms(2,3) by (auto simp: groups_ok_def)
  moreover have "hd gs \<in> set gs" using assms(4) by (cases gs) auto
  ultimately have "render (hd gs) = render x" "hd gs \<in> set gs" using assms(4) by simp_all
  then show ?thesis
    using assms(1,4,5) \<open>hd gs \<in> set gs\<close> unfolding renders_overrides_def by blast
qed

lemma groupOfferingsByOverride_correct:
  assumes "renders_overrides render (itOfferings i)"
  shows "mset (concat (map aoOfferings (groupOfferingsByOverride render i))) =
      mset (AvailableOfferings (itOfferings i))"
    and "grp \<in> set (groupOfferingsByOverride render i) \<Longrightarrow> x \<in> set (aoOfferings grp) \<Longrightarrow>
      aoAllocatable grp = computeAllocatable i (CapacityOverride x) (OverheadOverride x)"
proof -
  obtain base groups where g: "groupLoop render (itOfferings i) ([], []) = (base, groups)"
    by (cases "groupLoop render (itOfferings i) ([], [])")
  have ok: "groups_ok render groups" "\<forall>x \<in> set base. \<not> hasOverride x"
    using groupLoop_ok [OF g] by (simp_all add: groups_ok_def)
  let ?mk = "\<lambda>(_ :: string, gs). \<lparr> aoAllocatable = computeAllocatable i (CapacityOverride (hd gs)) (OverheadOverride (hd gs)),
                 aoOfferings = gs \<rparr>"
  have shape: "groupOfferingsByOverride render i =
      \<lparr> aoAllocatable = computeAllocatable i [] None, aoOfferings = base \<rparr> # map ?mk groups"
    by (simp add: groupOfferingsByOverride_def g)
  have "map aoOfferings (map ?mk groups) = map snd groups"
    by (induction groups) auto
  then have "mset (concat (map aoOfferings (groupOfferingsByOverride render i))) =
      mset base + mset (concat (map snd groups))"
    unfolding shape by (simp del: map_map)
  then show "mset (concat (map aoOfferings (groupOfferingsByOverride render i))) =
      mset (AvailableOfferings (itOfferings i))"
    using groupLoop_perm [OF g] by (simp add: AvailableOfferings_def)
  assume "grp \<in> set (groupOfferingsByOverride render i)" and x: "x \<in> set (aoOfferings grp)"
  then consider (base) "grp = \<lparr> aoAllocatable = computeAllocatable i [] None, aoOfferings = base \<rparr>"
    | (group) k gs where "(k, gs) \<in> set groups" "grp = ?mk (k, gs)"
    unfolding shape by auto
  then show "aoAllocatable grp = computeAllocatable i (CapacityOverride x) (OverheadOverride x)"
  proof cases
    case base
    then have "\<not> hasOverride x" using x ok(2) by simp
    then show ?thesis using base hasOverride_False [of x] by simp
  next
    case group
    then have "x \<in> set gs" using x by simp
    moreover have "set gs \<subseteq> set (itOfferings i)"
    proof -
      have "set gs \<subseteq> set_mset (mset base + mset (concat (map snd groups)))"
        using group(1) by force
      then show ?thesis using groupLoop_perm [OF g] by auto
    qed
    ultimately show ?thesis using group_members_agree [OF assms ok(1) group(1)] group(2) by simp
  qed
qed

lemma AllocatableOfferingsList_correct:
  assumes "renders_overrides render (itOfferings i)"
  shows "mset (concat (map aoOfferings (AllocatableOfferingsList render i))) =
      mset (AvailableOfferings (itOfferings i))"
    and "grp \<in> set (AllocatableOfferingsList render i) \<Longrightarrow> x \<in> set (aoOfferings grp) \<Longrightarrow>
      aoAllocatable grp = computeAllocatable i (CapacityOverride x) (OverheadOverride x)"
proof -
  show "mset (concat (map aoOfferings (AllocatableOfferingsList render i))) =
      mset (AvailableOfferings (itOfferings i))"
    using groupOfferingsByOverride_correct(1) [OF assms]
    by (cases "list_ex hasOverride (itOfferings i)") (simp_all add: AllocatableOfferingsList_def)
  assume grp: "grp \<in> set (AllocatableOfferingsList render i)" and x: "x \<in> set (aoOfferings grp)"
  show "aoAllocatable grp = computeAllocatable i (CapacityOverride x) (OverheadOverride x)"
  proof (cases "list_ex hasOverride (itOfferings i)")
    case True
    then show ?thesis
      using groupOfferingsByOverride_correct(2) [OF assms _ x] grp by (simp add: AllocatableOfferingsList_def)
  next
    case False
    then have eq: "grp = \<lparr> aoAllocatable = computeAllocatable i [] None,
        aoOfferings = AvailableOfferings (itOfferings i) \<rparr>"
      using grp by (simp add: AllocatableOfferingsList_def)
    then have "x \<in> set (itOfferings i)" using x by (simp add: AvailableOfferings_def)
    then have "\<not> hasOverride x" using False by (simp add: list_ex_iff)
    then show ?thesis using eq hasOverride_False [of x] by simp
  qed
qed

section \<open>Launch prices\<close>

lemma fold_best:
  fixes price :: "'a \<Rightarrow> real"
  shows "fold (\<lambda>a best. if price a > price best then a else best) xs x \<in> insert x (set xs) \<and>
    (\<forall>y \<in> insert x (set xs). price y \<le> price (fold (\<lambda>a best. if price a > price best then a else best) xs x))"
proof (induction xs arbitrary: x)
  case (Cons a xs)
  show ?case
    using Cons [of "if price a > price x then a else x"] by (cases "price a > price x") fastforce+
qed simp

lemma MostExpensive_correct:
  "MostExpensive ofs = Some best \<Longrightarrow> best \<in> set ofs \<and> (\<forall>x \<in> set ofs. ofPrice x \<le> ofPrice best)"
  using fold_best [of ofPrice "tl ofs" "hd ofs"] by (cases ofs) (auto simp: MostExpensive_def)

lemma MostExpensive_None_iff: "MostExpensive ofs = None \<longleftrightarrow> ofs = []"
  by (simp add: MostExpensive_def split: list.splits)

text \<open>The offerings of a class that the requirements leave.\<close>

definition classOfferings ::
  "capacity_type_class_state \<Rightarrow> 'q offering list \<Rightarrow> requirements \<Rightarrow> capacity_type_class \<Rightarrow> 'q offering list" where
  "classOfferings st ofs reqs class =
     CompatibleOfferings (CompatibleOfferings ofs reqs) (CapacityTypeClassRequirements st class)"

lemma worstLaunchLoop_cases:
  "(\<forall>class \<in> set classes. classOfferings st ofs reqs class = []) \<and> worstLaunchLoop st ofs reqs classes = MaxFloat64 \<or>
   (\<exists>before class after. classes = before @ class # after \<and>
      (\<forall>c \<in> set before. classOfferings st ofs reqs c = []) \<and>
      (\<exists>x \<in> set (classOfferings st ofs reqs class). worstLaunchLoop st ofs reqs classes = ofPrice x) \<and>
      (\<forall>x \<in> set (classOfferings st ofs reqs class). ofPrice x \<le> worstLaunchLoop st ofs reqs classes))"
proof (induction classes)
  case (Cons c classes)
  show ?case
  proof (cases "MostExpensive (classOfferings st ofs reqs c)")
    case None
    then have empty: "classOfferings st ofs reqs c = []" by (simp add: MostExpensive_None_iff)
    have eq: "worstLaunchLoop st ofs reqs (c # classes) = worstLaunchLoop st ofs reqs classes"
      using None by (simp add: classOfferings_def)
    show ?thesis
      using Cons.IH unfolding eq
    proof (elim disjE exE conjE, goal_cases)
      case 1
      then show ?case using empty by simp
    next
      case (2 bef cls aft)
      then have "c # classes = (c # bef) @ cls # aft" "\<forall>d \<in> set (c # bef). classOfferings st ofs reqs d = []"
        using empty by simp_all
      with 2(3,4) show ?case by blast
    qed
  next
    case (Some best)
    then have w: "worstLaunchLoop st ofs reqs (c # classes) = ofPrice best"
      by (simp add: classOfferings_def)
    note best = MostExpensive_correct [OF Some]
    show ?thesis
      unfolding w
    proof (intro disjI2 exI conjI)
      show "c # classes = [] @ c # classes" by simp
    qed (use best in auto)
  qed
qed simp

section \<open>Pool names\<close>

lemma show_nat_no_separator: "templatePoolSetSeparator \<notin> set (show_nat n)"
  using show_nat_digits [of templatePoolSetSeparator n]
  by (auto simp: templatePoolSetSeparator_def is_digit_def)

lemma format_int_no_separator: "templatePoolSetSeparator \<notin> set (format_int n)"
  using show_nat_no_separator by (simp add: format_int_def templatePoolSetSeparator_def)

lemma ParseTemplatePoolName_append:
  assumes "templatePoolSetSeparator \<notin> set s"
  shows "ParseTemplatePoolName (pool @ templatePoolSetSeparator # s) =
    (case atoi s of (n, None) \<Rightarrow> if n < 0 then None else Some (pool, n) | (_, Some _) \<Rightarrow> None)"
proof -
  have "takeWhile (\<lambda>c. c \<noteq> templatePoolSetSeparator) (rev (pool @ templatePoolSetSeparator # s)) = rev s"
    using assms cut_before_append [of templatePoolSetSeparator "rev s" "rev pool"]
    by (simp add: cut_before_def)
  then show ?thesis
    by (cases "atoi s") (simp add: ParseTemplatePoolName_def Let_def split: option.splits)
qed

text \<open>An instance type with one family and no offerings, for the witnesses.\<close>

definition exampleType :: "string \<Rightarrow> int instance_type" where
  "exampleType family =
     \<lparr> itName = family, itRequirements = NewRequirements [reqIn ''family'' [family]],
       itOfferings = [], itCapacity = [], VolumeAttachmentLimits = [],
       itOverhead = \<lparr> KubeReserved = [], SystemReserved = [], EvictionThreshold = [] \<rparr>,
       capacityOverlayApplied = False \<rparr>"

text \<open>An offering that overrides the capacity.\<close>

definition exampleOffering :: "int \<Rightarrow> int offering" where
  "exampleOffering cpu =
     \<lparr> ofRequirements = [], ofPrice = 1, ofAvailable = True, ofReservationCapacity = 0,
       CapacityOverride = [(''cpu'', cpu)], OverheadOverride = None, priceOverlayApplied = False \<rparr>"

text \<open>The built-in classes as the package's \<^verbatim>\<open>init\<close> registers them, and a spot offering.\<close>

definition exampleClasses :: capacity_type_class_state where
  "exampleClasses =
     (case SetCapacityTypeClassResolver DefaultCapacityTypeClasses WellKnownValuesForRequirements of
        Inr (st, _) \<Rightarrow> st
      | Inl _ \<Rightarrow> \<lparr> resolver = [], byClass = [], classRequirements = [] \<rparr>)"

definition examplePriced :: "real \<Rightarrow> int offering" where
  "examplePriced price = (exampleOffering 1)
     \<lparr> ofRequirements := NewRequirements [reqIn CapacityTypeLabelKey [CapacityTypeSpot]], ofPrice := price \<rparr>"

section \<open>Properties\<close>

text \<open>
  \<^verbatim>\<open>InstanceTypes.OrderByPrice\<close> returns the same instance types, in ascending order of the price
  of the cheapest offering that can be launched and is compatible with the requirements (an
  instance type without such an offering counts as \<^verbatim>\<open>MaxFloat64\<close>).
\<close>
theorem OrderByPrice_sorts:
  assumes "sorts_by_price sorter"
  shows "mset (OrderByPrice sorter reqs its) = mset its \<and>
    sorted (map (\<lambda>it. Min (insert MaxFloat64 (ofPrice ` {x \<in> set (itOfferings it). Launchable x \<and>
       IsCompatible reqs (ofRequirements x) AllowUndefinedWellKnownLabels})))
      (OrderByPrice sorter reqs its))"
  using OrderByPrice_perm [OF assms] OrderByPrice_sorted [OF assms]
  unfolding launchPrice_eq [abs_def] by blast

theorem OrderByPrice_sorts_witness:
  "mset (OrderByPrice (sort_key snd) [] [exampleType ''m5'', exampleType ''c4'']) =
     {#exampleType ''m5'', exampleType ''c4''#}"
proof -
  have "sorts_by_price (sort_key snd :: int sorter)" by (simp add: sorts_by_price_def)
  then show ?thesis
    using OrderByPrice_sorts [of "sort_key snd" "[]" "[exampleType ''m5'', exampleType ''c4'']"] by simp
qed





text \<open>
  \<^verbatim>\<open>Offerings.WorstLaunchPrice\<close> is the highest price among the compatible offerings of the first
  capacity type class, in the order reserved, spot, on-demand, that has any; without one it is
  \<^verbatim>\<open>MaxFloat64\<close>.
\<close>
theorem WorstLaunchPrice_is_worst_of_first_class:
  "(\<forall>class \<in> {ClassReserved, ClassSpot, ClassOnDemand}. classOfferings st ofs reqs class = []) \<and>
     WorstLaunchPrice st ofs reqs = MaxFloat64 \<or>
   (\<exists>before class after. [ClassReserved, ClassSpot, ClassOnDemand] = before @ class # after \<and>
      (\<forall>c \<in> set before. classOfferings st ofs reqs c = []) \<and>
      (\<exists>x \<in> set (classOfferings st ofs reqs class). WorstLaunchPrice st ofs reqs = ofPrice x) \<and>
      (\<forall>x \<in> set (classOfferings st ofs reqs class). ofPrice x \<le> WorstLaunchPrice st ofs reqs))"
  using worstLaunchLoop_cases [of CapacityTypeClassPrecedence st ofs reqs]
  by (simp add: WorstLaunchPrice_def CapacityTypeClassPrecedence_def)

theorem WorstLaunchPrice_is_worst_of_first_class_witness:
  "WorstLaunchPrice exampleClasses [examplePriced 1, examplePriced 3] [] = 3"
proof -
  let ?ofs = "[examplePriced 1, examplePriced 3]"
  have reserved: "classOfferings exampleClasses ?ofs [] ClassReserved = []" by code_simp
  have spot: "map ofPrice (classOfferings exampleClasses ?ofs [] ClassSpot) = [1, 3]" by code_simp
  then have prices: "ofPrice ` set (classOfferings exampleClasses ?ofs [] ClassSpot) = {1, 3}"
    by (metis list.set_map list.simps(15) list.set(1))
  have some: "classOfferings exampleClasses ?ofs [] ClassSpot \<noteq> []" using spot by auto
  have worst: "(\<exists>x \<in> set (classOfferings exampleClasses ?ofs [] ClassSpot).
                 WorstLaunchPrice exampleClasses ?ofs [] = ofPrice x) \<and>
               (\<forall>x \<in> set (classOfferings exampleClasses ?ofs [] ClassSpot).
                 ofPrice x \<le> WorstLaunchPrice exampleClasses ?ofs [])"
    using WorstLaunchPrice_is_worst_of_first_class [of exampleClasses ?ofs "[]"] reserved some
    by (auto simp: Cons_eq_append_conv)
  then have "WorstLaunchPrice exampleClasses ?ofs [] \<in> {1, 3}" using prices by blast
  moreover have "3 \<in> ofPrice ` set (classOfferings exampleClasses ?ofs [] ClassSpot)"
    unfolding prices by simp
  then have "3 \<le> WorstLaunchPrice exampleClasses ?ofs []" using worst by force
  ultimately show ?thesis by auto
qed

text \<open>
  Namespaced pool names round-trip: \<^verbatim>\<open>ParseTemplatePoolName\<close> recovers the pool name and the set
  index from what \<^verbatim>\<open>TemplatePoolName\<close> built, for every pool name, even one that contains the
  separator, and every non-negative 64-bit index.
\<close>
theorem template_pool_name_roundtrip:
  assumes "0 \<le> n" "int64 n"
  shows "ParseTemplatePoolName (TemplatePoolName pool n) = Some (pool, n)"
  using assms by (simp add: TemplatePoolName_def ParseTemplatePoolName_append format_int_no_separator)

theorem template_pool_name_roundtrip_witness:
  "ParseTemplatePoolName (TemplatePoolName ''gpu~1'' 7) = Some (''gpu~1'', 7)"
  by (rule template_pool_name_roundtrip) (simp_all add: int64_def MinInt64_def MaxInt64_def)

end
