(* ===== verification/NodePoolState.thy ===== *)
theory NodePoolState
  imports Labels
begin

text \<open>
  \<^verbatim>\<open>pkg/controllers/state/statenodepool.go\<close>: the node claims of every node pool by state, and the
  node counts reserved against the pools' limits.

  Every method holds the lock for its whole body, so each is one atomic function on the state; the
  compare-and-swap loops of \<^verbatim>\<open>ReserveNodeCount\<close> and \<^verbatim>\<open>ReleaseNodeCount\<close> therefore succeed at their
  first attempt. Reserved counts and limits are 64-bit.
\<close>

section \<open>State\<close>

record node_claim_state =
  Active :: "string set"
  PendingDisruption :: "string set"
  Deleting :: "string set"

record node_pool_state =
  npClaims :: "(string, node_claim_state) gomap"
  claimPool :: "(string, string) gomap"
  npReserved :: "(string, int) gomap"

definition NewNodePoolState :: node_pool_state where
  "NewNodePoolState = \<lparr> npClaims = [], claimPool = [], npReserved = [] \<rparr>"

definition emptyClaims :: node_claim_state where
  "emptyClaims = \<lparr> Active = {}, PendingDisruption = {}, Deleting = {} \<rparr>"

section \<open>Operations\<close>

definition ensureNodePoolEntry :: "string \<Rightarrow> node_pool_state \<Rightarrow> node_pool_state" where
  "ensureNodePoolEntry np n =
     (let n1 = (if map_of (npClaims n) np = None
                then n \<lparr> npClaims := AList.update np emptyClaims (npClaims n) \<rparr> else n)
      in if map_of (npReserved n1) np = None
         then n1 \<lparr> npReserved := AList.update np 0 (npReserved n1) \<rparr> else n1)"

definition nodeCounts :: "string \<Rightarrow> node_pool_state \<Rightarrow> nat \<times> nat \<times> nat" where
  "nodeCounts npName n =
     (case map_of (npClaims n) npName of
        Some st \<Rightarrow> (card (Active st), card (Deleting st), card (PendingDisruption st))
      | None \<Rightarrow> (0, 0, 0))"

definition GetNodeCount :: "string \<Rightarrow> node_pool_state \<Rightarrow> nat \<times> nat \<times> nat" where
  "GetNodeCount npName n = nodeCounts npName n"

definition SetNodeClaimMapping :: "string \<Rightarrow> string \<Rightarrow> node_pool_state \<Rightarrow> node_pool_state" where
  "SetNodeClaimMapping npName ncName n =
     (if npName = [] \<or> ncName = [] then n
      else (ensureNodePoolEntry npName n)
             \<lparr> claimPool := AList.update ncName npName (claimPool (ensureNodePoolEntry npName n)) \<rparr>)"

text \<open>The in-place updates of the three sets of one pool, after its entry was ensured.\<close>

definition updateClaims ::
  "string \<Rightarrow> (node_claim_state \<Rightarrow> node_claim_state) \<Rightarrow> node_pool_state \<Rightarrow> node_pool_state" where
  "updateClaims npName f n =
     n \<lparr> npClaims := AList.update npName (f (get_or emptyClaims (npClaims n) npName)) (npClaims n) \<rparr>"

definition MarkNodeClaimActive :: "string \<Rightarrow> string \<Rightarrow> node_pool_state \<Rightarrow> node_pool_state" where
  "MarkNodeClaimActive npName ncName n =
     updateClaims npName
       (\<lambda>st. st \<lparr> PendingDisruption := PendingDisruption st - {ncName},
                  Deleting := Deleting st - {ncName},
                  Active := insert ncName (Active st) \<rparr>)
       (ensureNodePoolEntry npName n)"

definition MarkNodeClaimDeleting :: "string \<Rightarrow> string \<Rightarrow> node_pool_state \<Rightarrow> node_pool_state" where
  "MarkNodeClaimDeleting npName ncName n =
     updateClaims npName
       (\<lambda>st. st \<lparr> PendingDisruption := PendingDisruption st - {ncName},
                  Deleting := insert ncName (Deleting st),
                  Active := Active st - {ncName} \<rparr>)
       (ensureNodePoolEntry npName n)"

definition MarkNodeClaimPendingDisruption :: "string \<Rightarrow> string \<Rightarrow> node_pool_state \<Rightarrow> node_pool_state" where
  "MarkNodeClaimPendingDisruption npName ncName n =
     updateClaims npName
       (\<lambda>st. st \<lparr> Active := Active st - {ncName},
                  Deleting := Deleting st - {ncName},
                  PendingDisruption := insert ncName (PendingDisruption st) \<rparr>)
       (ensureNodePoolEntry npName n)"

definition removeClaim :: "string \<Rightarrow> node_claim_state \<Rightarrow> node_claim_state" where
  "removeClaim ncName st =
     st \<lparr> Deleting := Deleting st - {ncName}, Active := Active st - {ncName},
          PendingDisruption := PendingDisruption st - {ncName} \<rparr>"

definition Cleanup :: "string \<Rightarrow> node_pool_state \<Rightarrow> node_pool_state" where
  "Cleanup ncName n =
     (let npName = get_or [] (claimPool n) ncName;
          n1 = (case map_of (npClaims n) npName of
                  None \<Rightarrow> n
                | Some st \<Rightarrow>
                    let st' = removeClaim ncName st
                    in if card (Active st') = 0 \<and> card (Deleting st') = 0
                       then n \<lparr> npClaims := AList.delete npName (npClaims n),
                                npReserved := AList.delete npName (npReserved n) \<rparr>
                       else n \<lparr> npClaims := AList.update npName st' (npClaims n) \<rparr>)
      in n1 \<lparr> claimPool := AList.delete ncName (claimPool n1) \<rparr>)"

definition ReserveNodeCount ::
  "string \<Rightarrow> int \<Rightarrow> int \<Rightarrow> node_pool_state \<Rightarrow> int \<times> node_pool_state" where
  "ReserveNodeCount np limit wantedLimit n =
     (let n1 = ensureNodePoolEntry np n;
          (active, deleting, pending) = nodeCounts np n1;
          currentlyReserved = get_or 0 (npReserved n1) np;
          remainingLimit = wrap64 (wrap64 (limit - int (active + deleting + pending)) - currentlyReserved)
      in if remainingLimit < 0 then (0, n1)
         else let grantedLimit = (if wantedLimit > remainingLimit then remainingLimit else wantedLimit)
              in (grantedLimit,
                  n1 \<lparr> npReserved := AList.update np (wrap64 (currentlyReserved + grantedLimit)) (npReserved n1) \<rparr>))"

definition ReleaseNodeCount :: "string \<Rightarrow> int \<Rightarrow> node_pool_state \<Rightarrow> node_pool_state" where
  "ReleaseNodeCount npName released n =
     (case map_of (npReserved n) npName of
        None \<Rightarrow> n
      | Some currentlyReserved \<Rightarrow>
          let left = wrap64 (currentlyReserved - released)
          in n \<lparr> npReserved := AList.update npName (if left < 0 then 0 else left) (npReserved n) \<rparr>)"

text \<open>\<^verbatim>\<open>UpdateNodeClaim\<close> reads the pool label and the name of the node claim.\<close>

definition UpdateNodeClaim ::
  "(string, string) gomap \<Rightarrow> string \<Rightarrow> bool \<Rightarrow> node_pool_state \<Rightarrow> node_pool_state" where
  "UpdateNodeClaim labels ncName markedForDeletion n =
     (let npName = get_or [] labels NodePoolLabelKey
      in if npName = [] then n
         else let n1 = SetNodeClaimMapping npName ncName n
              in if markedForDeletion then MarkNodeClaimDeleting npName ncName n1
                 else MarkNodeClaimActive npName ncName n1)"

definition ResetNodePoolState :: "node_pool_state \<Rightarrow> node_pool_state" where
  "ResetNodePoolState n = n \<lparr> npClaims := [], claimPool := [], npReserved := [] \<rparr>"

section \<open>Invariant\<close>

definition claims_ok :: "node_claim_state \<Rightarrow> bool" where
  "claims_ok st \<longleftrightarrow> finite (Active st) \<and> finite (PendingDisruption st) \<and> finite (Deleting st) \<and>
     Active st \<inter> PendingDisruption st = {} \<and> Active st \<inter> Deleting st = {} \<and>
     PendingDisruption st \<inter> Deleting st = {}"

definition np_wf :: "node_pool_state \<Rightarrow> bool" where
  "np_wf n \<longleftrightarrow>
     (\<forall>np st. map_of (npClaims n) np = Some st \<longrightarrow> claims_ok st) \<and>
     (\<forall>np. map_of (npClaims n) np = None \<longleftrightarrow> map_of (npReserved n) np = None) \<and>
     (\<forall>np r. map_of (npReserved n) np = Some r \<longrightarrow> 0 \<le> r \<and> int64 r)"

definition usedCount :: "string \<Rightarrow> node_pool_state \<Rightarrow> int" where
  "usedCount np n = (case nodeCounts np n of (a, d, p) \<Rightarrow> int (a + d + p))"

definition reserved :: "string \<Rightarrow> node_pool_state \<Rightarrow> int" where
  "reserved np n = get_or 0 (npReserved n) np"

text \<open>The calls of the package: counts and limits are not negative and the total stays a 64-bit
  number.\<close>

inductive np_step :: "node_pool_state \<Rightarrow> node_pool_state \<Rightarrow> bool" where
  mapping: "np_step n (SetNodeClaimMapping np nc n)"
| active: "np_step n (MarkNodeClaimActive np nc n)"
| deleting: "np_step n (MarkNodeClaimDeleting np nc n)"
| pending: "np_step n (MarkNodeClaimPendingDisruption np nc n)"
| update: "np_step n (UpdateNodeClaim labels nc marked n)"
| cleanup: "np_step n (Cleanup nc n)"
| reserve: "0 \<le> limit \<Longrightarrow> int64 limit \<Longrightarrow> 0 \<le> wanted \<Longrightarrow>
    usedCount np n + reserved np n \<le> MaxInt64 \<Longrightarrow>
    np_step n (snd (ReserveNodeCount np limit wanted n))"
| release: "0 \<le> released \<Longrightarrow> np_step n (ReleaseNodeCount np released n)"
| reset: "np_step n (ResetNodePoolState n)"

inductive np_reachable :: "node_pool_state \<Rightarrow> bool" where
  new: "np_reachable NewNodePoolState"
| step: "np_reachable n \<Longrightarrow> np_step n n' \<Longrightarrow> np_reachable n'"

lemma np_wf_D:
  assumes "np_wf n"
  shows "map_of (npClaims n) np = Some st \<Longrightarrow> claims_ok st"
    and "map_of (npClaims n) np = None \<longleftrightarrow> map_of (npReserved n) np = None"
    and "map_of (npReserved n) np = Some r \<Longrightarrow> 0 \<le> r \<and> int64 r"
  using assms by (auto simp: np_wf_def)

lemma np_wf_entry:
  "np_wf n \<Longrightarrow> map_of (npClaims n) np = Some st \<Longrightarrow> \<exists>r. map_of (npReserved n) np = Some r"
  using np_wf_D(2) [of n np] by (cases "map_of (npReserved n) np") simp_all

lemma claims_ok_empty [simp]: "claims_ok emptyClaims"
  by (simp add: claims_ok_def emptyClaims_def)

lemma int64_0 [simp]: "int64 0"
  by (simp add: int64_def MinInt64_def MaxInt64_def)

lemma ensure_fields:
  "map_of (npClaims (ensureNodePoolEntry np n)) k =
     (if k = np \<and> map_of (npClaims n) np = None then Some emptyClaims else map_of (npClaims n) k)"
  "map_of (npReserved (ensureNodePoolEntry np n)) k =
     (if k = np \<and> map_of (npReserved n) np = None then Some 0 else map_of (npReserved n) k)"
  "claimPool (ensureNodePoolEntry np n) = claimPool n"
  by (simp_all add: ensureNodePoolEntry_def Let_def gomap_simps)

lemma ensure_wf: "np_wf n \<Longrightarrow> np_wf (ensureNodePoolEntry np n)"
  unfolding np_wf_def by (auto simp: ensure_fields split: if_splits)

lemma ensure_present: "map_of (npClaims (ensureNodePoolEntry np n)) np \<noteq> None"
  by (simp add: ensure_fields)

lemma updateClaims_wf:
  assumes wf: "np_wf n" and present: "map_of (npClaims n) np \<noteq> None"
    and f: "\<And>st. claims_ok st \<Longrightarrow> claims_ok (f st)"
  shows "np_wf (updateClaims np f n)"
proof -
  obtain st where st: "map_of (npClaims n) np = Some st" using present by auto
  then have "claims_ok (f st)" using np_wf_D(1) [OF wf] f by blast
  then show ?thesis
    using wf st np_wf_entry [OF wf st]
    by (auto simp: np_wf_def updateClaims_def get_or_def gomap_simps split: if_splits)
qed

lemma mark_wf:
  assumes "np_wf n"
  shows "np_wf (MarkNodeClaimActive np nc n)"
    and "np_wf (MarkNodeClaimDeleting np nc n)"
    and "np_wf (MarkNodeClaimPendingDisruption np nc n)"
  unfolding MarkNodeClaimActive_def MarkNodeClaimDeleting_def MarkNodeClaimPendingDisruption_def
  by (rule updateClaims_wf [OF ensure_wf [OF assms] ensure_present];
      auto simp: claims_ok_def)+

lemma mapping_wf: "np_wf n \<Longrightarrow> np_wf (SetNodeClaimMapping np nc n)"
  using ensure_wf [of n np] by (simp add: SetNodeClaimMapping_def np_wf_def)

lemma update_wf: "np_wf n \<Longrightarrow> np_wf (UpdateNodeClaim labels nc marked n)"
  by (simp add: UpdateNodeClaim_def Let_def mark_wf mapping_wf)

lemma removeClaim_ok: "claims_ok st \<Longrightarrow> claims_ok (removeClaim nc st)"
  by (auto simp: claims_ok_def removeClaim_def)

lemma cleanup_wf: "np_wf n \<Longrightarrow> np_wf (Cleanup nc n)"
  using np_wf_entry [of n "get_or [] (claimPool n) nc"]
  by (auto simp: np_wf_def Cleanup_def Let_def gomap_simps removeClaim_ok split: option.splits)

lemma release_wf:
  assumes "np_wf n" "0 \<le> released"
  shows "np_wf (ReleaseNodeCount np released n)"
  using assms by (auto simp: np_wf_def ReleaseNodeCount_def Let_def gomap_simps split: option.splits)

lemma reset_wf: "np_wf (ResetNodePoolState n)"
  by (simp add: np_wf_def ResetNodePoolState_def)

lemma ensure_counts:
  "nodeCounts k (ensureNodePoolEntry np n) = nodeCounts k n"
  "reserved k (ensureNodePoolEntry np n) = reserved k n"
  by (simp_all add: nodeCounts_def reserved_def get_or_def ensure_fields emptyClaims_def
      split: option.splits)

lemma reserved_range: "np_wf n \<Longrightarrow> 0 \<le> reserved np n \<and> int64 (reserved np n)"
  by (auto simp: reserved_def get_or_def dest: np_wf_D(3) split: option.splits)

lemma ReserveNodeCount_eq:
  assumes wf: "np_wf n" and limit: "0 \<le> limit" "int64 limit" and wanted: "0 \<le> wanted"
    and fits: "usedCount np n + reserved np n \<le> MaxInt64"
  shows "fst (ReserveNodeCount np limit wanted n) = max 0 (min wanted (limit - usedCount np n - reserved np n))"
    and "npClaims (snd (ReserveNodeCount np limit wanted n)) = npClaims (ensureNodePoolEntry np n)"
    and "map_of (npReserved (snd (ReserveNodeCount np limit wanted n))) k =
      (if k = np then Some (reserved np n + fst (ReserveNodeCount np limit wanted n))
       else map_of (npReserved n) k)"
proof -
  obtain a d p where counts: "nodeCounts np n = (a, d, p)" by (cases "nodeCounts np n") auto
  let ?r = "reserved np n" and ?u = "int (a + d + p)"
  have u: "usedCount np n = ?u" by (simp add: usedCount_def counts)
  have r: "0 \<le> ?r" "int64 ?r" using reserved_range [OF wf] by auto
  have w1: "wrap64 (limit - ?u) = limit - ?u"
    using limit r fits u by (intro wrap64_id) (auto simp: int64_def MinInt64_def MaxInt64_def)
  have w2: "wrap64 (limit - ?u - ?r) = limit - ?u - ?r"
    using limit r fits u by (intro wrap64_id) (auto simp: int64_def MinInt64_def MaxInt64_def)
  have w3: "g \<le> limit - ?u - ?r \<Longrightarrow> 0 \<le> g \<Longrightarrow> wrap64 (?r + g) = ?r + g" for g
    using limit r by (intro wrap64_id) (auto simp: int64_def MinInt64_def)
  have res: "get_or 0 (npReserved (ensureNodePoolEntry np n)) np = ?r"
    using ensure_counts(2) [of np np n] by (simp add: reserved_def)
  have entry: "map_of (npReserved (ensureNodePoolEntry np n)) np = Some ?r"
    by (auto simp: ensure_fields reserved_def get_or_def split: option.splits)
  note run = ReserveNodeCount_def Let_def ensure_counts(1) counts prod.case res w1 w2
  show "fst (ReserveNodeCount np limit wanted n) = max 0 (min wanted (limit - usedCount np n - ?r))"
    unfolding run u using wanted by auto
  show "npClaims (snd (ReserveNodeCount np limit wanted n)) = npClaims (ensureNodePoolEntry np n)"
    unfolding run by simp
  show "map_of (npReserved (snd (ReserveNodeCount np limit wanted n))) k =
      (if k = np then Some (?r + fst (ReserveNodeCount np limit wanted n)) else map_of (npReserved n) k)"
    unfolding run using entry wanted by (auto simp: gomap_simps w3 ensure_fields)
qed

lemma reserve_wf:
  assumes "np_wf n" "0 \<le> limit" "int64 limit" "0 \<le> wanted"
    and "usedCount np n + reserved np n \<le> MaxInt64"
  shows "np_wf (snd (ReserveNodeCount np limit wanted n))"
proof -
  note eq = ReserveNodeCount_eq [OF assms]
  have r: "0 \<le> reserved np n" "int64 (reserved np n)" using reserved_range [OF assms(1)] by auto
  have used: "0 \<le> usedCount np n" by (simp add: usedCount_def split: prod.split)
  have "int64 (reserved np n + fst (ReserveNodeCount np limit wanted n))"
    using r used assms(2,3,4) unfolding eq(1) by (auto simp: int64_def MinInt64_def)
  then show ?thesis
    using assms(1) ensure_wf [OF assms(1), of np] r
    unfolding np_wf_def eq(2,3) by (auto simp: ensure_fields eq(1) split: if_splits)
qed

lemma np_step_wf: "np_step n n' \<Longrightarrow> np_wf n \<Longrightarrow> np_wf n'"
  by (induction rule: np_step.induct)
     (simp_all add: mark_wf mapping_wf update_wf cleanup_wf release_wf reset_wf reserve_wf)

lemma np_reachable_wf: "np_reachable n \<Longrightarrow> np_wf n"
proof (induction rule: np_reachable.induct)
  case new
  show ?case by (simp add: np_wf_def NewNodePoolState_def)
next
  case (step n n')
  then show ?case using np_step_wf by blast
qed

lemma Cleanup_claims:
  assumes "map_of (claimPool n) nc = Some np" "map_of (npClaims n) np = Some st"
  shows "map_of (npClaims (Cleanup nc n)) np =
     (if card (Active (removeClaim nc st)) = 0 \<and> card (Deleting (removeClaim nc st)) = 0 then None
      else Some (removeClaim nc st))"
  using assms by (simp add: Cleanup_def get_or_def gomap_simps)

lemma Cleanup_other_pool:
  assumes "map_of (claimPool n) nc = Some np" "np' \<noteq> np"
  shows "map_of (npClaims (Cleanup nc n)) np' = map_of (npClaims n) np' \<and>
    map_of (npReserved (Cleanup nc n)) np' = map_of (npReserved n) np'"
  using assms by (simp add: Cleanup_def Let_def get_or_def gomap_simps split: option.split)

lemma Cleanup_reserved:
  assumes "map_of (claimPool n) nc = Some np" "map_of (npClaims n) np = Some st"
  shows "map_of (npReserved (Cleanup nc n)) np =
     (if card (Active (removeClaim nc st)) = 0 \<and> card (Deleting (removeClaim nc st)) = 0 then None
      else map_of (npReserved n) np)"
  using assms by (simp add: Cleanup_def get_or_def gomap_simps)

section \<open>Properties\<close>

text \<open>A pool with one active claim \<open>a\<close>, one claim \<open>b\<close> pending disruption and two reserved nodes.\<close>

definition examplePool :: node_pool_state where
  "examplePool =
     snd (ReserveNodeCount ''p'' 10 2
       (MarkNodeClaimPendingDisruption ''p'' ''b''
         (UpdateNodeClaim [(NodePoolLabelKey, ''p'')] ''b'' False
           (UpdateNodeClaim [(NodePoolLabelKey, ''p'')] ''a'' False NewNodePoolState))))"

lemma examplePool_reachable: "np_reachable examplePool"
proof -
  let ?n1 = "UpdateNodeClaim [(NodePoolLabelKey, ''p'')] ''a'' False NewNodePoolState"
  let ?n2 = "UpdateNodeClaim [(NodePoolLabelKey, ''p'')] ''b'' False ?n1"
  let ?n3 = "MarkNodeClaimPendingDisruption ''p'' ''b'' ?n2"
  have "np_reachable ?n3"
    by (rule np_reachable.step [OF np_reachable.step [OF np_reachable.step [OF np_reachable.new]]];
        rule np_step.intros)
  moreover have "usedCount ''p'' ?n3 + reserved ''p'' ?n3 \<le> MaxInt64" by code_simp
  then have "np_step ?n3 (snd (ReserveNodeCount ''p'' 10 2 ?n3))"
    by (intro np_step.reserve) (simp_all add: int64_def MinInt64_def MaxInt64_def)
  ultimately show ?thesis unfolding examplePool_def by (rule np_reachable.step)
qed

text \<open>
  C13. In every state the node pool tracker can reach, the active, deleting and pending claims of a
  pool are disjoint finite sets, a pool has claim sets exactly when it has a reservation counter,
  and the counter is never negative.
\<close>
theorem node_pool_state_invariant:
  assumes "np_reachable n"
  shows "(map_of (npClaims n) np = None \<longleftrightarrow> map_of (npReserved n) np = None) \<and>
    (\<forall>st. map_of (npClaims n) np = Some st \<longrightarrow>
       finite (Active st \<union> PendingDisruption st \<union> Deleting st) \<and>
       card (Active st \<union> PendingDisruption st \<union> Deleting st) =
         card (Active st) + card (PendingDisruption st) + card (Deleting st)) \<and>
    0 \<le> reserved np n"
proof -
  have wf: "np_wf n" using assms by (rule np_reachable_wf)
  have "card (Active st \<union> PendingDisruption st \<union> Deleting st) =
         card (Active st) + card (PendingDisruption st) + card (Deleting st)" if "claims_ok st" for st
    using that by (simp add: claims_ok_def card_Un_disjoint Int_Un_distrib2)
  then show ?thesis
    using np_wf_D [OF wf, of np] reserved_range [OF wf, of np] by (auto simp: claims_ok_def)
qed

theorem node_pool_state_invariant_witness:
  "map_of (npReserved examplePool) ''p'' \<noteq> None \<and> 0 \<le> reserved ''p'' examplePool"
proof -
  have "map_of (npClaims examplePool) ''p'' \<noteq> None" by code_simp
  then show ?thesis using node_pool_state_invariant [OF examplePool_reachable, of "''p''"] by simp
qed

text \<open>
  C14. \<^verbatim>\<open>ReserveNodeCount\<close> never promises more than the limit: it grants exactly the smaller of what is
  wanted and what the limit leaves after active, deleting and pending claims and earlier
  reservations, and nothing when that is used up. A positive grant keeps claims and reservations
  together within the limit, other pools are untouched, and releasing the grant again restores
  the counter.
\<close>
theorem reservations_respect_limit:
  assumes "np_reachable n" "0 \<le> limit" "int64 limit" "0 \<le> wanted"
    and "usedCount np n + reserved np n \<le> MaxInt64"
    and "ReserveNodeCount np limit wanted n = (granted, n')"
  shows "granted = max 0 (min wanted (limit - usedCount np n - reserved np n)) \<and>
    usedCount np n' = usedCount np n \<and> reserved np n' = reserved np n + granted \<and>
    (0 < granted \<longrightarrow> usedCount np n' + reserved np n' \<le> limit) \<and>
    (k \<noteq> np \<longrightarrow> reserved k n' = reserved k n \<and> nodeCounts k n' = nodeCounts k n) \<and>
    reserved np (ReleaseNodeCount np granted n') = reserved np n"
proof -
  have wf: "np_wf n" using assms(1) by (rule np_reachable_wf)
  note eq = ReserveNodeCount_eq [OF wf assms(2-5), unfolded assms(6) fst_conv snd_conv]
  have counts: "nodeCounts j n' = nodeCounts j n" for j
    using ensure_counts(1) [of j np n] unfolding nodeCounts_def eq(2) .
  have used: "usedCount np n' = usedCount np n" by (simp add: usedCount_def counts)
  have res: "reserved j n' = (if j = np then reserved np n + granted else reserved j n)" for j
    by (simp add: reserved_def get_or_def eq(3))
  have "reserved np (ReleaseNodeCount np granted n') = reserved np n"
    using reserved_range [OF wf, of np]
    by (simp add: ReleaseNodeCount_def eq(3) reserved_def get_or_update Let_def)
  then show ?thesis using eq(1) used res counts by auto
qed

theorem reservations_respect_limit_witness:
  "fst (ReserveNodeCount ''p'' 10 50 examplePool) = 6 \<and> usedCount ''p'' examplePool = 2"
proof -
  have used: "usedCount ''p'' examplePool = 2" "reserved ''p'' examplePool = 2" by code_simp+
  obtain g n' where run: "ReserveNodeCount ''p'' 10 50 examplePool = (g, n')" by fastforce
  have "g = 6"
    using reservations_respect_limit [OF examplePool_reachable _ _ _ _ run] used
    by (simp add: int64_def MinInt64_def MaxInt64_def)
  then show ?thesis using run used by simp
qed

text \<open>
  C31. \<^verbatim>\<open>Cleanup\<close> of a node claim takes it out of its pool and leaves other pools alone. The pool itself
  is kept, with its reservations, as long as an active or deleting claim remains; otherwise it is
  dropped. Claims that are pending disruption do not keep it: a pool whose last active claim is
  cleaned up loses its pending claims and its reservations.
\<close>
theorem cleanup_forgets_pending_claims:
  assumes "np_reachable n" "map_of (claimPool n) nc = Some np" "map_of (npClaims n) np = Some st"
  shows "map_of (npClaims (Cleanup nc n)) np =
      (if Active st \<subseteq> {nc} \<and> Deleting st \<subseteq> {nc} then None else Some (removeClaim nc st)) \<and>
    reserved np (Cleanup nc n) =
      (if Active st \<subseteq> {nc} \<and> Deleting st \<subseteq> {nc} then 0 else reserved np n) \<and>
    (np' \<noteq> np \<longrightarrow> nodeCounts np' (Cleanup nc n) = nodeCounts np' n \<and>
       reserved np' (Cleanup nc n) = reserved np' n)"
proof -
  have ok: "claims_ok st" using np_reachable_wf [OF assms(1)] assms(3) by (rule np_wf_D(1))
  have empty: "card (Active (removeClaim nc st)) = 0 \<and> card (Deleting (removeClaim nc st)) = 0 \<longleftrightarrow>
      Active st \<subseteq> {nc} \<and> Deleting st \<subseteq> {nc}"
    using ok by (simp add: claims_ok_def removeClaim_def)
  show ?thesis
    using Cleanup_claims [OF assms(2,3)] Cleanup_reserved [OF assms(2,3)]
      Cleanup_other_pool [OF assms(2), of np']
    unfolding empty by (simp add: reserved_def get_or_def nodeCounts_def)
qed

theorem cleanup_forgets_pending_claims_witness:
  "nodeCounts ''p'' examplePool = (1, 0, 1) \<and> map_of (npClaims (Cleanup ''a'' examplePool)) ''p'' = None"
proof -
  let ?st = "\<lparr> Active = {''a''}, PendingDisruption = {''b''}, Deleting = {} \<rparr>"
  have "nodeCounts ''p'' examplePool = (1, 0, 1)" by code_simp
  moreover have "map_of (claimPool examplePool) ''a'' = Some ''p''" by code_simp
  moreover have "map_of (npClaims examplePool) ''p'' = Some ?st" by code_simp
  ultimately show ?thesis
    using cleanup_forgets_pending_claims [OF examplePool_reachable, of "''a''" "''p''" ?st] by simp
qed

end
