(* ===== verification/Reservations.thy ===== *)
theory Reservations
  imports InstanceTypes
begin

text \<open>
  \<^verbatim>\<open>pkg/controllers/provisioning/scheduling/reservationmanager.go\<close>: the capacity reservations that
  simulated nodes hold while pods are being scheduled.

  \<open>label\<close> is the label key that the cloud provider registers as \<^verbatim>\<open>ReservationIDLabel\<close>, and \<open>ch\<close> the
  choices of \<^verbatim>\<open>Requirement.Any\<close>, which reads the id of an offering. \<open>None\<close> is a panic. Counts are 64-bit.
\<close>

section \<open>State and operations\<close>

record reservation_manager =
  rmReservations :: "(string, string set) gomap"
  rmCapacity :: "(string, int) gomap"

definition seedOffering ::
  "string \<Rightarrow> choices \<Rightarrow> 'q offering \<Rightarrow> (string, int) gomap \<Rightarrow> (string, int) gomap option" where
  "seedOffering label ch off cap =
     (case CapacityType ch off of
        None \<Rightarrow> None
      | Some ct \<Rightarrow>
          if ct \<noteq> CapacityTypeReserved then Some cap
          else case ReservationID label ch off of
                 None \<Rightarrow> None
               | Some rid \<Rightarrow>
                   Some (case map_of cap rid of
                           Some current \<Rightarrow>
                             if current > ofReservationCapacity off
                             then AList.update rid (ofReservationCapacity off) cap else cap
                         | None \<Rightarrow> AList.update rid (ofReservationCapacity off) cap))"

fun seedLoop ::
  "string \<Rightarrow> choices \<Rightarrow> 'q offering list \<Rightarrow> (string, int) gomap \<Rightarrow> (string, int) gomap option" where
  "seedLoop label ch [] cap = Some cap"
| "seedLoop label ch (off # ofs) cap =
     (case seedOffering label ch off cap of None \<Rightarrow> None | Some cap' \<Rightarrow> seedLoop label ch ofs cap')"

text \<open>The three nested loops visit the offerings of all instance types of all pools.\<close>

definition allOfferings :: "(string, 'q instance_type list) gomap \<Rightarrow> 'q offering list" where
  "allOfferings instanceTypes = concat (map (\<lambda>(_, its). concat (map itOfferings its)) instanceTypes)"

definition NewReservationManager ::
  "string \<Rightarrow> choices \<Rightarrow> (string, 'q instance_type list) gomap \<Rightarrow> reservation_manager option" where
  "NewReservationManager label ch instanceTypes =
     (case seedLoop label ch (allOfferings instanceTypes) [] of
        None \<Rightarrow> None
      | Some cap \<Rightarrow> Some \<lparr> rmReservations = [], rmCapacity = cap \<rparr>)"

definition CanReserve ::
  "string \<Rightarrow> choices \<Rightarrow> reservation_manager \<Rightarrow> string \<Rightarrow> 'q offering \<Rightarrow> bool option" where
  "CanReserve label ch rm hostname off =
     (case ReservationID label ch off of
        None \<Rightarrow> None
      | Some rid \<Rightarrow>
          if rid \<in> get_or {} (rmReservations rm) hostname then Some True
          else case map_of (rmCapacity rm) rid of
                 None \<Rightarrow> None
               | Some c \<Rightarrow> if c = 0 then Some False else Some True)"

definition Reserve1 ::
  "string \<Rightarrow> choices \<Rightarrow> string \<Rightarrow> 'q offering \<Rightarrow> reservation_manager \<Rightarrow> reservation_manager option" where
  "Reserve1 label ch hostname off rm =
     (case ReservationID label ch off of
        None \<Rightarrow> None
      | Some rid \<Rightarrow>
          if rid \<in> get_or {} (rmReservations rm) hostname then Some rm
          else let c = wrap64 (get_or 0 (rmCapacity rm) rid - 1)
               in if c < 0 then None
                  else Some \<lparr> rmReservations = AList.update hostname
                                (insert rid (get_or {} (rmReservations rm) hostname)) (rmReservations rm),
                              rmCapacity = AList.update rid c (rmCapacity rm) \<rparr>)"

fun Reserve ::
  "string \<Rightarrow> choices \<Rightarrow> string \<Rightarrow> 'q offering list \<Rightarrow> reservation_manager \<Rightarrow> reservation_manager option" where
  "Reserve label ch hostname [] rm = Some rm"
| "Reserve label ch hostname (off # ofs) rm =
     (case Reserve1 label ch hostname off rm of
        None \<Rightarrow> None | Some rm' \<Rightarrow> Reserve label ch hostname ofs rm')"

definition Release1 ::
  "string \<Rightarrow> choices \<Rightarrow> string \<Rightarrow> 'q offering \<Rightarrow> reservation_manager \<Rightarrow> reservation_manager option" where
  "Release1 label ch hostname off rm =
     (case map_of (rmReservations rm) hostname of
        None \<Rightarrow> Some rm
      | Some held \<Rightarrow>
          (case ReservationID label ch off of
             None \<Rightarrow> None
           | Some rid \<Rightarrow>
               if rid \<in> held
               then Some \<lparr> rmReservations = AList.update hostname (held - {rid}) (rmReservations rm),
                           rmCapacity = AList.update rid (wrap64 (get_or 0 (rmCapacity rm) rid + 1)) (rmCapacity rm) \<rparr>
               else Some rm))"

fun Release ::
  "string \<Rightarrow> choices \<Rightarrow> string \<Rightarrow> 'q offering list \<Rightarrow> reservation_manager \<Rightarrow> reservation_manager option" where
  "Release label ch hostname [] rm = Some rm"
| "Release label ch hostname (off # ofs) rm =
     (case Release1 label ch hostname off rm of
        None \<Rightarrow> None | Some rm' \<Rightarrow> Release label ch hostname ofs rm')"

definition HasReservation ::
  "string \<Rightarrow> choices \<Rightarrow> reservation_manager \<Rightarrow> string \<Rightarrow> 'q offering \<Rightarrow> bool option" where
  "HasReservation label ch rm hostname off =
     (case map_of (rmReservations rm) hostname of
        None \<Rightarrow> Some False
      | Some held \<Rightarrow> map_option (\<lambda>rid. rid \<in> held) (ReservationID label ch off))"

definition RemainingCapacity ::
  "string \<Rightarrow> choices \<Rightarrow> reservation_manager \<Rightarrow> 'q offering \<Rightarrow> int option" where
  "RemainingCapacity label ch rm off =
     map_option (get_or 0 (rmCapacity rm)) (ReservationID label ch off)"

definition Credit :: "string \<Rightarrow> int \<Rightarrow> reservation_manager \<Rightarrow> reservation_manager" where
  "Credit reservationID n rm =
     (case map_of (rmCapacity rm) reservationID of
        None \<Rightarrow> rm
      | Some c \<Rightarrow> rm \<lparr> rmCapacity := AList.update reservationID (wrap64 (c + n)) (rmCapacity rm) \<rparr>)"

section \<open>Slots and holders\<close>

definition holders :: "reservation_manager \<Rightarrow> string \<Rightarrow> string set" where
  "holders rm rid = {h. rid \<in> get_or {} (rmReservations rm) h}"

text \<open>\<open>slots\<close> is the number of nodes each reservation admits in total.\<close>

definition rm_ok :: "(string \<Rightarrow> int) \<Rightarrow> reservation_manager \<Rightarrow> bool" where
  "rm_ok slots rm \<longleftrightarrow>
     (\<forall>rid. finite (holders rm rid) \<and> slots rid \<le> MaxInt64 \<and>
        (case map_of (rmCapacity rm) rid of
           Some c \<Rightarrow> 0 \<le> c \<and> c + int (card (holders rm rid)) = slots rid
         | None \<Rightarrow> holders rm rid = {}))"

inductive rm_reachable ::
  "string \<Rightarrow> choices \<Rightarrow> (string, 'q instance_type list) gomap \<Rightarrow> (string \<Rightarrow> int) \<Rightarrow> reservation_manager \<Rightarrow> bool"
  for label ch its where
  new: "NewReservationManager label ch its = Some rm \<Longrightarrow>
    (\<And>rid c. map_of (rmCapacity rm) rid = Some c \<Longrightarrow> 0 \<le> c \<and> c \<le> MaxInt64) \<Longrightarrow>
    rm_reachable label ch its (get_or 0 (rmCapacity rm)) rm"
| reserve: "rm_reachable label ch its slots rm \<Longrightarrow>
    Reserve label ch hostname (ofs :: 'q offering list) rm = Some rm' \<Longrightarrow> rm_reachable label ch its slots rm'"
| release: "rm_reachable label ch its slots rm \<Longrightarrow>
    Release label ch hostname (ofs :: 'q offering list) rm = Some rm' \<Longrightarrow> rm_reachable label ch its slots rm'"
| credit: "rm_reachable label ch its slots rm \<Longrightarrow> 0 \<le> n \<Longrightarrow> slots rid + n \<le> MaxInt64 \<Longrightarrow>
    rm_reachable label ch its
      (if map_of (rmCapacity rm) rid = None then slots else slots(rid := slots rid + n))
      (Credit rid n rm)"

lemma rm_okD:
  assumes "rm_ok slots rm"
  shows "finite (holders rm rid)" "slots rid \<le> MaxInt64"
    and "map_of (rmCapacity rm) rid = Some c \<Longrightarrow> 0 \<le> c \<and> c + int (card (holders rm rid)) = slots rid"
    and "map_of (rmCapacity rm) rid = None \<Longrightarrow> holders rm rid = {}"
proof -
  note ok = assms [unfolded rm_ok_def, rule_format, of rid]
  show "finite (holders rm rid)" "slots rid \<le> MaxInt64" using ok by blast+
  show "map_of (rmCapacity rm) rid = Some c \<Longrightarrow> 0 \<le> c \<and> c + int (card (holders rm rid)) = slots rid"
    using ok by simp
  show "map_of (rmCapacity rm) rid = None \<Longrightarrow> holders rm rid = {}" using ok by simp
qed

lemma rm_okI:
  assumes "\<And>rid. finite (holders rm rid)" "\<And>rid. slots rid \<le> MaxInt64"
    and "\<And>rid c. map_of (rmCapacity rm) rid = Some c \<Longrightarrow> 0 \<le> c \<and> c + int (card (holders rm rid)) = slots rid"
    and "\<And>rid. map_of (rmCapacity rm) rid = None \<Longrightarrow> holders rm rid = {}"
  shows "rm_ok slots rm"
  using assms by (simp add: rm_ok_def split: option.split)

lemma small_int64: "0 \<le> c \<Longrightarrow> c \<le> MaxInt64 \<Longrightarrow> int64 c"
  by (simp add: int64_def MinInt64_def)

lemma holders_Reserve:
  "holders \<lparr> rmReservations = AList.update h (insert rid (get_or {} (rmReservations rm) h)) (rmReservations rm),
             rmCapacity = cap \<rparr> rid' =
     (if rid' = rid then insert h (holders rm rid') else holders rm rid')"
  by (auto simp: holders_def gomap_simps split: if_splits)

lemma holders_Release:
  assumes "map_of (rmReservations rm) h = Some held"
  shows "holders \<lparr> rmReservations = AList.update h (held - {rid}) (rmReservations rm), rmCapacity = cap \<rparr> rid' =
     (if rid' = rid then holders rm rid' - {h} else holders rm rid')"
  using assms by (auto simp: holders_def gomap_simps get_or_def split: if_splits)

lemma Reserve1_ok:
  assumes ok: "rm_ok slots rm" and run: "Reserve1 label ch h off rm = Some rm'"
  shows "rm_ok slots rm'"
proof -
  obtain rid where rid: "ReservationID label ch off = Some rid"
    using run by (auto simp: Reserve1_def split: option.splits)
  show ?thesis
  proof (cases "rid \<in> get_or {} (rmReservations rm) h")
    case True
    then show ?thesis using run ok rid by (simp add: Reserve1_def)
  next
    case False
    let ?c = "wrap64 (get_or 0 (rmCapacity rm) rid - 1)"
    let ?rm = "\<lparr> rmReservations = AList.update h (insert rid (get_or {} (rmReservations rm) h)) (rmReservations rm),
                 rmCapacity = AList.update rid ?c (rmCapacity rm) \<rparr>"
    have c: "0 \<le> ?c" and rm': "rm' = ?rm"
      using run rid False by (auto simp: Reserve1_def Let_def split: if_splits)
    have new: "h \<notin> holders rm rid" using False by (simp add: holders_def)
    have "map_of (rmCapacity rm) rid \<noteq> None"
    proof
      assume "map_of (rmCapacity rm) rid = None"
      then have "?c = -1" by (simp add: get_or_def int64_def MinInt64_def MaxInt64_def)
      then show False using c by simp
    qed
    then obtain c0 where c0: "map_of (rmCapacity rm) rid = Some c0" by auto
    note old = rm_okD [OF ok]
    have slots: "0 \<le> c0" "c0 + int (card (holders rm rid)) = slots rid" using old(3) [OF c0] by auto
    then have "int64 (c0 - 1)" using old(2) [of rid] by (simp add: int64_def MinInt64_def)
    then have c1: "?c = c0 - 1" using c0 by (simp add: get_or_def)
    have "rm_ok slots ?rm"
    proof (rule rm_okI)
      show "finite (holders ?rm rid')" for rid' using old(1) by (simp add: holders_Reserve)
      show "slots rid' \<le> MaxInt64" for rid' by (rule old(2))
      show "0 \<le> c' \<and> c' + int (card (holders ?rm rid')) = slots rid'"
        if "map_of (rmCapacity ?rm) rid' = Some c'" for rid' c'
        using that c c1 slots new old(1) [of rid] old(3) [of rid' c']
        by (auto simp: holders_Reserve gomap_simps split: if_splits)
      show "holders ?rm rid' = {}" if "map_of (rmCapacity ?rm) rid' = None" for rid'
        using that old(4) [of rid'] by (simp add: holders_Reserve gomap_simps split: if_splits)
    qed
    then show ?thesis by (simp add: rm')
  qed
qed

lemma Release1_ok:
  assumes ok: "rm_ok slots rm" and run: "Release1 label ch h off rm = Some rm'"
  shows "rm_ok slots rm'"
proof (cases "rm' = rm")
  case True
  then show ?thesis using ok by simp
next
  case False
  obtain held rid where held: "map_of (rmReservations rm) h = Some held" "rid \<in> held"
    and rm': "rm' = \<lparr> rmReservations = AList.update h (held - {rid}) (rmReservations rm),
      rmCapacity = AList.update rid (wrap64 (get_or 0 (rmCapacity rm) rid + 1)) (rmCapacity rm) \<rparr>"
    using run False by (auto simp: Release1_def split: option.splits if_splits)
  note old = rm_okD [OF ok]
  have h: "h \<in> holders rm rid" using held by (simp add: holders_def get_or_def)
  then obtain c0 where c0: "map_of (rmCapacity rm) rid = Some c0" using old(4) [of rid] by fastforce
  have slots: "0 \<le> c0" "c0 + int (card (holders rm rid)) = slots rid" using old(3) [OF c0] by auto
  have card: "int (card (holders rm rid - {h})) = int (card (holders rm rid)) - 1"
    using h old(1) [of rid] by (metis card_Diff_singleton card_gt_0_iff empty_iff of_nat_1 of_nat_diff Suc_leI One_nat_def)
  have pos: "0 \<le> int (card (holders rm rid - {h}))" by simp
  have c1: "wrap64 (get_or 0 (rmCapacity rm) rid + 1) = c0 + 1"
    using slots card pos old(2) [of rid] c0 by (simp add: get_or_def int64_def MinInt64_def)
  show ?thesis
  proof (rule rm_okI)
    show "finite (holders rm' rid')" for rid'
      using old(1) by (simp add: rm' holders_Release [OF held(1)])
    show "slots rid' \<le> MaxInt64" for rid' by (rule old(2))
    show "0 \<le> c' \<and> c' + int (card (holders rm' rid')) = slots rid'"
      if "map_of (rmCapacity rm') rid' = Some c'" for rid' c'
      using that c1 slots card old(3) [of rid' c']
      by (simp add: rm' holders_Release [OF held(1)] gomap_simps split: if_splits)
    show "holders rm' rid' = {}" if "map_of (rmCapacity rm') rid' = None" for rid'
      using that old(4) [of rid'] by (simp add: rm' holders_Release [OF held(1)] gomap_simps split: if_splits)
  qed
qed

lemma Reserve_ok: "Reserve label ch h ofs rm = Some rm' \<Longrightarrow> rm_ok slots rm \<Longrightarrow> rm_ok slots rm'"
  by (induction ofs arbitrary: rm) (auto split: option.splits dest: Reserve1_ok)

lemma Release_ok: "Release label ch h ofs rm = Some rm' \<Longrightarrow> rm_ok slots rm \<Longrightarrow> rm_ok slots rm'"
  by (induction ofs arbitrary: rm) (auto split: option.splits dest: Release1_ok)

lemma Credit_ok:
  assumes ok: "rm_ok slots rm" and n: "0 \<le> n" "slots rid + n \<le> MaxInt64"
  shows "rm_ok (if map_of (rmCapacity rm) rid = None then slots else slots(rid := slots rid + n)) (Credit rid n rm)"
proof (cases "map_of (rmCapacity rm) rid")
  case None
  then show ?thesis using ok by (simp add: Credit_def)
next
  case (Some c)
  note old = rm_okD [OF ok]
  have c: "0 \<le> c" "c + int (card (holders rm rid)) = slots rid" using old(3) [OF Some] by auto
  have w: "wrap64 (c + n) = c + n"
    using c n by (intro wrap64_id small_int64) linarith+
  have same: "holders (Credit rid n rm) = holders rm"
    by (simp add: Credit_def holders_def fun_eq_iff split: option.split)
  have "rm_ok (slots(rid := slots rid + n)) (Credit rid n rm)"
  proof (rule rm_okI)
    show "finite (holders (Credit rid n rm) rid')" for rid' unfolding same by (rule old(1))
    show "(slots(rid := slots rid + n)) rid' \<le> MaxInt64" for rid' using old(2) [of rid'] n by simp
    show "0 \<le> c' \<and> c' + int (card (holders (Credit rid n rm) rid')) = (slots(rid := slots rid + n)) rid'"
      if "map_of (rmCapacity (Credit rid n rm)) rid' = Some c'" for rid' c'
      using that c w n Some old(3) [of rid' c'] unfolding same
      by (auto simp: Credit_def gomap_simps split: if_splits)
    show "holders (Credit rid n rm) rid' = {}" if "map_of (rmCapacity (Credit rid n rm)) rid' = None" for rid'
      using that old(4) [of rid'] Some unfolding same by (simp add: Credit_def gomap_simps split: if_splits)
  qed
  then show ?thesis using Some by simp
qed

lemma rm_reachable_ok: "rm_reachable label ch its slots rm \<Longrightarrow> rm_ok slots rm"
proof (induction rule: rm_reachable.induct)
  case (new rm)
  have "rmReservations rm = []" using new.hyps(1) by (auto simp: NewReservationManager_def split: option.splits)
  then have none: "holders rm rid = {}" for rid by (simp add: holders_def gomap_simps)
  show ?case
    by (rule rm_okI) (use new.hyps(2) none in \<open>auto simp: get_or_def MaxInt64_def split: option.split\<close>)
next
  case (reserve slots rm hostname ofs rm')
  then show ?case using Reserve_ok by blast
next
  case (release slots rm hostname ofs rm')
  then show ?case using Release_ok by blast
next
  case (credit slots rm n rid)
  then show ?case by (intro Credit_ok)
qed

section \<open>Reserving what can be reserved\<close>

definition held :: "string \<Rightarrow> choices \<Rightarrow> reservation_manager \<Rightarrow> string \<Rightarrow> 'q offering \<Rightarrow> bool" where
  "held label ch rm h off \<longleftrightarrow>
     (\<exists>rid. ReservationID label ch off = Some rid \<and> rid \<in> get_or {} (rmReservations rm) h)"

lemma CanReserve_held: "held label ch rm h off \<Longrightarrow> CanReserve label ch rm h off = Some True"
  by (auto simp: held_def CanReserve_def)

lemma Reserve1_held: "held label ch rm h off \<Longrightarrow> Reserve1 label ch h off rm = Some rm"
  by (auto simp: held_def Reserve1_def)

lemma Reserve_held:
  "\<forall>off \<in> set ofs. held label ch rm h off \<Longrightarrow> Reserve label ch h ofs rm = Some rm"
  by (induction ofs) (simp_all add: Reserve1_held)

lemma HasReservation_held: "held label ch rm h off \<Longrightarrow> HasReservation label ch rm h off = Some True"
  by (auto simp: held_def HasReservation_def get_or_def split: option.splits)

lemma Reserve1_succeeds:
  fixes off :: "'q offering"
  assumes ok: "rm_ok slots rm" and can: "CanReserve label ch rm h off = Some True"
  shows "\<exists>rm'. Reserve1 label ch h off rm = Some rm' \<and> held label ch rm' h off \<and>
    (\<forall>off' :: 'q offering. CanReserve label ch rm h off' = Some True \<longrightarrow> CanReserve label ch rm' h off' = Some True) \<and>
    (\<forall>off' :: 'q offering. held label ch rm h off' \<longrightarrow> held label ch rm' h off')"
proof -
  obtain rid where rid: "ReservationID label ch off = Some rid"
    using can by (auto simp: CanReserve_def split: option.splits)
  show ?thesis
  proof (cases "rid \<in> get_or {} (rmReservations rm) h")
    case True
    then have "held label ch rm h off" using rid by (simp add: held_def)
    then show ?thesis using Reserve1_held by blast
  next
    case False
    obtain c where c: "map_of (rmCapacity rm) rid = Some c" "c \<noteq> 0"
      using can rid False by (auto simp: CanReserve_def split: option.splits if_splits)
    have "0 \<le> c" "c \<le> slots rid" using rm_okD(3) [OF ok c(1)] by auto
    then have w: "wrap64 (c - 1) = c - 1" "0 \<le> c - 1"
      using c(2) rm_okD(2) [OF ok, of rid] by (simp_all add: int64_def MinInt64_def)
    let ?rm = "\<lparr> rmReservations = AList.update h (insert rid (get_or {} (rmReservations rm) h)) (rmReservations rm),
                 rmCapacity = AList.update rid (c - 1) (rmCapacity rm) \<rparr>"
    have run: "Reserve1 label ch h off rm = Some ?rm"
      using rid False c w by (simp add: Reserve1_def get_or_def)
    have "held label ch ?rm h off" using rid by (simp add: held_def gomap_simps)
    moreover have "CanReserve label ch ?rm h off' = Some True"
      if "CanReserve label ch rm h off' = Some True" for off' :: "'q offering"
      using that by (auto simp: CanReserve_def gomap_simps split: option.splits if_splits)
    moreover have "held label ch ?rm h off'" if "held label ch rm h off'" for off' :: "'q offering"
      using that by (auto simp: held_def gomap_simps)
    ultimately show ?thesis using run by blast
  qed
qed

lemma Reserve_succeeds:
  fixes ofs :: "'q offering list"
  assumes "rm_ok slots rm" "\<forall>off \<in> set ofs. CanReserve label ch rm h off = Some True"
  shows "\<exists>rm'. Reserve label ch h ofs rm = Some rm' \<and> (\<forall>off \<in> set ofs. held label ch rm' h off) \<and>
    (\<forall>off' :: 'q offering. held label ch rm h off' \<longrightarrow> held label ch rm' h off')"
  using assms
proof (induction ofs arbitrary: rm)
  case (Cons off ofs)
  have can: "CanReserve label ch rm h off = Some True" using Cons.prems(2) by simp
  obtain rm1 where rm1: "Reserve1 label ch h off rm = Some rm1" "held label ch rm1 h off"
    and keeps: "\<And>off' :: 'q offering. CanReserve label ch rm h off' = Some True \<Longrightarrow> CanReserve label ch rm1 h off' = Some True"
      "\<And>off' :: 'q offering. held label ch rm h off' \<Longrightarrow> held label ch rm1 h off'"
    using Reserve1_succeeds [OF Cons.prems(1) can] by blast
  have "\<forall>x \<in> set ofs. CanReserve label ch rm1 h x = Some True" using Cons.prems(2) keeps(1) by simp
  then obtain rm2 where rm2: "Reserve label ch h ofs rm1 = Some rm2"
    "\<forall>x \<in> set ofs. held label ch rm2 h x" "\<And>x :: 'q offering. held label ch rm1 h x \<Longrightarrow> held label ch rm2 h x"
    using Cons.IH [OF Reserve1_ok [OF Cons.prems(1) rm1(1)]] by blast
  then show ?case using rm1 keeps(2) by (intro exI [of _ rm2]) simp
qed simp

section \<open>Seeding\<close>

definition seeds :: "string \<Rightarrow> choices \<Rightarrow> 'q offering list \<Rightarrow> string \<Rightarrow> int set" where
  "seeds label ch ofs rid =
     ofReservationCapacity ` {off \<in> set ofs. CapacityType ch off = Some CapacityTypeReserved \<and>
       ReservationID label ch off = Some rid}"

definition least :: "int set \<Rightarrow> int option" where
  "least A = (if A = {} then None else Some (Min A))"

lemma finite_seeds [simp]: "finite (seeds label ch ofs rid)"
  by (simp add: seeds_def)

lemma least_insert: "finite A \<Longrightarrow>
  least (insert x A) = Some (case least A of None \<Rightarrow> x | Some m \<Rightarrow> min x m)"
  by (simp add: least_def)

lemma seeds_snoc:
  "seeds label ch (ofs @ [off]) rid =
     (if CapacityType ch off = Some CapacityTypeReserved \<and> ReservationID label ch off = Some rid
      then insert (ofReservationCapacity off) (seeds label ch ofs rid) else seeds label ch ofs rid)"
  by (auto simp: seeds_def)

lemma seedOffering_least:
  assumes "\<And>rid. map_of cap rid = least (seeds label ch seen rid)"
    and "seedOffering label ch off cap = Some cap'"
  shows "map_of cap' rid = least (seeds label ch (seen @ [off]) rid)"
  using assms
  by (auto simp: seedOffering_def seeds_snoc least_insert gomap_simps split: option.splits if_splits)

lemma seedLoop_least:
  assumes "\<And>rid. map_of cap rid = least (seeds label ch seen rid)"
    and "seedLoop label ch ofs cap = Some cap'"
  shows "map_of cap' rid = least (seeds label ch (seen @ ofs) rid)"
  using assms
proof (induction ofs arbitrary: cap seen)
  case (Cons off ofs)
  obtain cap1 where cap1: "seedOffering label ch off cap = Some cap1"
    using Cons.prems(2) by (auto split: option.splits)
  show ?case
    using Cons.IH [of cap1 "seen @ [off]"] seedOffering_least [OF Cons.prems(1) cap1] Cons.prems(2) cap1
    by simp
qed simp

section \<open>Properties\<close>

text \<open>A pool with one instance type that has a reservation \<open>r\<close> of two slots, offered twice with
  different counts, and the manager built from it.\<close>

definition exampleChoices :: choices where
  "exampleChoices = \<lparr> pickFirst = (\<lambda>A. if ''r'' \<in> A then ''r'' else ''reserved''), randIntn = (\<lambda>n. 0) \<rparr>"

definition exampleReserved :: "int \<Rightarrow> int offering" where
  "exampleReserved n = (exampleOffering 1)
     \<lparr> ofRequirements := NewRequirements [reqIn CapacityTypeLabelKey [CapacityTypeReserved], reqIn ''id'' [''r'']],
       ofReservationCapacity := n \<rparr>"

definition exampleTypes :: "(string, int instance_type list) gomap" where
  "exampleTypes = [(''pool'', [(exampleType ''c4'') \<lparr> itOfferings := [exampleReserved 5, exampleReserved 2] \<rparr>])]"

definition exampleManager :: reservation_manager where
  "exampleManager = \<lparr> rmReservations = [], rmCapacity = [(''r'', 2)] \<rparr>"

lemma exampleManager_new: "NewReservationManager ''id'' exampleChoices exampleTypes = Some exampleManager"
  by code_simp

lemma exampleManager_reachable:
  "rm_reachable ''id'' exampleChoices exampleTypes (get_or 0 [(''r'', 2)]) exampleManager"
proof -
  have "0 \<le> c \<and> c \<le> MaxInt64" if "map_of (rmCapacity exampleManager) rid = Some c" for rid c
    using that by (simp add: exampleManager_def MaxInt64_def split: if_splits)
  then have "rm_reachable ''id'' exampleChoices exampleTypes (get_or 0 (rmCapacity exampleManager)) exampleManager"
    by (rule rm_reachable.new [OF exampleManager_new])
  then show ?thesis by (simp add: exampleManager_def)
qed

text \<open>
  C15. Reservations are conserved: whatever sequence of \<^verbatim>\<open>Reserve\<close>, \<^verbatim>\<open>Release\<close> and \<^verbatim>\<open>Credit\<close> calls the
  manager went through without a panic, the remaining capacity of a reservation and the number of
  nodes that hold it add up to the initial capacity plus what was credited. So the remaining
  capacity is never negative, and no more nodes hold a reservation than it has slots.
\<close>
theorem reservations_are_conserved:
  assumes "rm_reachable label ch its slots rm"
  shows "(case map_of (rmCapacity rm) rid of
            Some c \<Rightarrow> 0 \<le> c \<and> c + int (card (holders rm rid)) = slots rid
          | None \<Rightarrow> holders rm rid = {}) \<and> finite (holders rm rid)"
  using rm_reachable_ok [OF assms] unfolding rm_ok_def by blast

theorem reservations_are_conserved_witness:
  "\<exists>rm. Reserve ''id'' exampleChoices ''h'' [exampleReserved 2] exampleManager = Some rm \<and>
     1 + int (card (holders rm ''r'')) = 2"
proof -
  let ?rm = "\<lparr> rmReservations = [(''h'', {''r''})], rmCapacity = [(''r'', 1)] \<rparr>"
  have run: "Reserve ''id'' exampleChoices ''h'' [exampleReserved 2] exampleManager = Some ?rm" by code_simp
  show ?thesis
    using reservations_are_conserved [OF rm_reachable.reserve [OF exampleManager_reachable run], of "''r''"] run
    by (simp add: get_or_def)
qed

text \<open>
  \<^verbatim>\<open>CanReserve\<close> is what makes \<^verbatim>\<open>Reserve\<close> safe: when it accepted every offering of a list for a
  node, reserving the whole list does not panic, even when several offerings share a reservation;
  afterwards the node holds all of them, and reserving them again changes nothing.
\<close>
theorem CanReserve_makes_Reserve_safe:
  fixes ofs :: "'q offering list"
  assumes "rm_reachable label ch its slots rm"
    and "\<forall>off \<in> set ofs. CanReserve label ch rm hostname off = Some True"
  shows "\<exists>rm'. Reserve label ch hostname ofs rm = Some rm' \<and>
    (\<forall>off \<in> set ofs. HasReservation label ch rm' hostname off = Some True) \<and>
    Reserve label ch hostname ofs rm' = Some rm'"
  using Reserve_succeeds [OF rm_reachable_ok [OF assms(1)] assms(2)] HasReservation_held Reserve_held
  by meson

theorem CanReserve_makes_Reserve_safe_witness:
  "\<exists>rm'. Reserve ''id'' exampleChoices ''h'' [exampleReserved 5, exampleReserved 2] exampleManager = Some rm' \<and>
     Reserve ''id'' exampleChoices ''h'' [exampleReserved 5, exampleReserved 2] rm' = Some rm'"
proof -
  have "CanReserve ''id'' exampleChoices exampleManager ''h'' (exampleReserved 5) = Some True"
    "CanReserve ''id'' exampleChoices exampleManager ''h'' (exampleReserved 2) = Some True" by code_simp+
  then show ?thesis
    using CanReserve_makes_Reserve_safe [OF exampleManager_reachable,
        of "[exampleReserved 5, exampleReserved 2]" "''h''"] by auto
qed

text \<open>
  \<^verbatim>\<open>NewReservationManager\<close> records, for every reservation id, the least capacity that any reserved
  offering with this id reports, over all instance types of all node pools, and knows exactly the
  ids that occur.
\<close>
theorem NewReservationManager_takes_least:
  assumes "NewReservationManager label ch its = Some rm"
  shows "map_of (rmCapacity rm) rid =
    (let reported = ofReservationCapacity ` {off. (\<exists>(pool, ts) \<in> set its. \<exists>t \<in> set ts. off \<in> set (itOfferings t)) \<and>
           CapacityType ch off = Some CapacityTypeReserved \<and> ReservationID label ch off = Some rid}
     in if reported = {} then None else Some (Min reported)) \<and> rmReservations rm = []"
proof -
  obtain cap where cap: "seedLoop label ch (allOfferings its) [] = Some cap"
    and rm: "rm = \<lparr> rmReservations = [], rmCapacity = cap \<rparr>"
    using assms by (auto simp: NewReservationManager_def split: option.splits)
  have "map_of cap rid = least (seeds label ch (allOfferings its) rid)"
    using seedLoop_least [of "[]" label ch "[]", OF _ cap] by (simp add: seeds_def least_def)
  moreover have "{off \<in> set (allOfferings its). P off} =
      {off. (\<exists>(pool, ts) \<in> set its. \<exists>t \<in> set ts. off \<in> set (itOfferings t)) \<and> P off}" for P
    by (fastforce simp: allOfferings_def)
  ultimately show ?thesis by (simp add: rm seeds_def least_def Let_def)
qed

theorem NewReservationManager_takes_least_witness:
  "Min (ofReservationCapacity ` {off. off \<in> {exampleReserved 5, exampleReserved 2} \<and>
      CapacityType exampleChoices off = Some CapacityTypeReserved \<and>
      ReservationID ''id'' exampleChoices off = Some ''r''}) = 2"
proof -
  have "map_of (rmCapacity exampleManager) ''r'' = Some 2" by code_simp
  then show ?thesis
    using NewReservationManager_takes_least [OF exampleManager_new, of "''r''"]
    by (simp add: exampleTypes_def Let_def split: if_splits)
qed

end
