(* ===== verification/Preferences.thy ===== *)
theory Preferences
  imports K8sTypes "HOL-Library.Multiset"
begin

text \<open>
  \<^verbatim>\<open>pkg/controllers/provisioning/scheduling/preferences.go\<close>, the relaxation of a pod's soft
  constraints, and \<^verbatim>\<open>Scheduler.trySchedule\<close> of \<^verbatim>\<open>scheduler.go\<close>, the loop that relaxes a pod until it
  schedules or nothing is left to relax.

  A relaxation returns the changed pod, or \<open>None\<close> where the code returns a nil reason and leaves the
  pod alone. \<^verbatim>\<open>Toleration.MatchToleration\<close> of Kubernetes is the parameter \<open>match\<close>. What the loop calls
  besides \<^verbatim>\<open>Relax\<close> is a parameter: \<open>add\<close> is \<^verbatim>\<open>Scheduler.add\<close>, \<open>ctxErr\<close> the context's error, \<open>final\<close>
  tells the errors after which a pod is not relaxed, and \<open>refresh\<close> stands for the updates of the
  topology and of the cached pod data.
\<close>

section \<open>Relaxations\<close>

definition byWeight :: "('a \<Rightarrow> int) \<Rightarrow> 'a list \<Rightarrow> 'a list" where
  "byWeight weight terms = sort_key (\<lambda>t. - weight t) terms"

definition removePreferredNodeAffinityTerm :: "pod \<Rightarrow> pod option" where
  "removePreferredNodeAffinityTerm p =
     (case podAffinityField p of
        None \<Rightarrow> None
      | Some a \<Rightarrow>
          (case nodeAffinity a of
             None \<Rightarrow> None
           | Some na \<Rightarrow>
               if length (preferredNodeTerms na) = 0 then None
               else Some (p \<lparr> podAffinityField := Some (a \<lparr> nodeAffinity := Some (na
                      \<lparr> preferredNodeTerms := tl (byWeight pstWeight (preferredNodeTerms na)) \<rparr>) \<rparr>) \<rparr>)))"

definition removeRequiredNodeAffinityTerm :: "pod \<Rightarrow> pod option" where
  "removeRequiredNodeAffinityTerm p =
     (case podAffinityField p of
        None \<Rightarrow> None
      | Some a \<Rightarrow>
          (case nodeAffinity a of
             None \<Rightarrow> None
           | Some na \<Rightarrow>
               (case requiredNodeTerms na of
                  None \<Rightarrow> None
                | Some terms \<Rightarrow>
                    if length terms = 0 then None
                    else if length terms > 1
                    then Some (p \<lparr> podAffinityField := Some (a \<lparr> nodeAffinity := Some (na
                           \<lparr> requiredNodeTerms := Some (tl terms) \<rparr>) \<rparr>) \<rparr>)
                    else None)))"

text \<open>The first \<^verbatim>\<open>ScheduleAnyway\<close> constraint is overwritten by the last constraint, and the list
  shortened by one.\<close>

fun firstScheduleAnyway :: "topology_spread_constraint list \<Rightarrow> nat option" where
  "firstScheduleAnyway [] = None"
| "firstScheduleAnyway (tsc # rest) =
     (if tscWhenUnsatisfiable tsc = ScheduleAnyway then Some 0
      else map_option Suc (firstScheduleAnyway rest))"

definition removeTopologySpreadScheduleAnyway :: "pod \<Rightarrow> pod option" where
  "removeTopologySpreadScheduleAnyway p =
     (case firstScheduleAnyway (topologySpread p) of
        None \<Rightarrow> None
      | Some i \<Rightarrow>
          let moved = (topologySpread p)[i := topologySpread p ! (length (topologySpread p) - 1)]
          in Some (p \<lparr> topologySpread := take (length moved - 1) moved \<rparr>))"

definition removePreferredPodAffinityTerm :: "pod \<Rightarrow> pod option" where
  "removePreferredPodAffinityTerm p =
     (case podAffinityField p of
        None \<Rightarrow> None
      | Some a \<Rightarrow>
          (case podAffinity a of
             None \<Rightarrow> None
           | Some pa \<Rightarrow>
               if length (paPreferred pa) = 0 then None
               else Some (p \<lparr> podAffinityField := Some (a \<lparr> podAffinity := Some (pa
                      \<lparr> paPreferred := tl (byWeight wpatWeight (paPreferred pa)) \<rparr>) \<rparr>) \<rparr>)))"

definition removePreferredPodAntiAffinityTerm :: "pod \<Rightarrow> pod option" where
  "removePreferredPodAntiAffinityTerm p =
     (case podAffinityField p of
        None \<Rightarrow> None
      | Some a \<Rightarrow>
          (case podAntiAffinity a of
             None \<Rightarrow> None
           | Some pa \<Rightarrow>
               if length (paPreferred pa) = 0 then None
               else Some (p \<lparr> podAffinityField := Some (a \<lparr> podAntiAffinity := Some (pa
                      \<lparr> paPreferred := tl (byWeight wpatWeight (paPreferred pa)) \<rparr>) \<rparr>) \<rparr>)))"

definition preferNoSchedule :: toleration where
  "preferNoSchedule =
     \<lparr> tolKey = [], tolOperator = TolExists, tolValue = [], tolEffect = PreferNoSchedule \<rparr>"

definition toleratePreferNoScheduleTaints ::
  "(toleration \<Rightarrow> toleration \<Rightarrow> bool) \<Rightarrow> pod \<Rightarrow> pod option" where
  "toleratePreferNoScheduleTaints match p =
     (if list_ex (\<lambda>t. match t preferNoSchedule) (tolerations p) then None
      else Some (p \<lparr> tolerations := tolerations p @ [preferNoSchedule] \<rparr>))"

definition relaxations ::
  "(toleration \<Rightarrow> toleration \<Rightarrow> bool) \<Rightarrow> bool \<Rightarrow> (pod \<Rightarrow> pod option) list" where
  "relaxations match toleratePreferNoSchedule =
     [removeRequiredNodeAffinityTerm, removePreferredPodAffinityTerm,
      removePreferredPodAntiAffinityTerm, removePreferredNodeAffinityTerm,
      removeTopologySpreadScheduleAnyway] @
     (if toleratePreferNoSchedule then [toleratePreferNoScheduleTaints match] else [])"

fun firstRelaxation :: "(pod \<Rightarrow> pod option) list \<Rightarrow> pod \<Rightarrow> pod option" where
  "firstRelaxation [] p = None"
| "firstRelaxation (relaxFunc # rest) p =
     (case relaxFunc p of Some p' \<Rightarrow> Some p' | None \<Rightarrow> firstRelaxation rest p)"

definition Relax :: "(toleration \<Rightarrow> toleration \<Rightarrow> bool) \<Rightarrow> bool \<Rightarrow> pod \<Rightarrow> pod option" where
  "Relax match toleratePreferNoSchedule p =
     firstRelaxation (relaxations match toleratePreferNoSchedule) p"

section \<open>The scheduling attempts of one pod\<close>

partial_function (option) trySchedule ::
  "(pod \<Rightarrow> pod option) \<Rightarrow> ('s \<Rightarrow> 'e option) \<Rightarrow> (pod \<Rightarrow> 's \<Rightarrow> 'e option \<times> 's) \<Rightarrow> ('e \<Rightarrow> bool) \<Rightarrow>
   (pod \<Rightarrow> 's \<Rightarrow> 's) \<Rightarrow> pod \<Rightarrow> 's \<Rightarrow> ('e option \<times> 's) option" where
  "trySchedule relax ctxErr add final refresh p s =
     (case ctxErr s of
        Some e \<Rightarrow> Some (Some e, s)
      | None \<Rightarrow>
          (case add p s of
             (None, s') \<Rightarrow> Some (None, s')
           | (Some e, s') \<Rightarrow>
               if final e then Some (Some e, s')
               else (case relax p of
                       None \<Rightarrow> Some (Some e, s')
                     | Some p' \<Rightarrow> trySchedule relax ctxErr add final refresh p' (refresh p' s'))))"

section \<open>What a relaxation removes\<close>

definition requiredTerms :: "pod \<Rightarrow> node_selector_term list" where
  "requiredTerms p =
     (case podAffinityField p of None \<Rightarrow> []
      | Some a \<Rightarrow> (case nodeAffinity a of None \<Rightarrow> []
          | Some na \<Rightarrow> (case requiredNodeTerms na of None \<Rightarrow> [] | Some ts \<Rightarrow> ts)))"

definition preferredNode :: "pod \<Rightarrow> preferred_scheduling_term list" where
  "preferredNode p =
     (case podAffinityField p of None \<Rightarrow> []
      | Some a \<Rightarrow> (case nodeAffinity a of None \<Rightarrow> [] | Some na \<Rightarrow> preferredNodeTerms na))"

definition podTerms :: "(affinity \<Rightarrow> pod_affinity option) \<Rightarrow> (pod_affinity \<Rightarrow> 'a list) \<Rightarrow> pod \<Rightarrow> 'a list" where
  "podTerms kind sel p =
     (case podAffinityField p of None \<Rightarrow> []
      | Some a \<Rightarrow> (case kind a of None \<Rightarrow> [] | Some pa \<Rightarrow> sel pa))"

definition anyway :: "pod \<Rightarrow> topology_spread_constraint list" where
  "anyway p = filter (\<lambda>c. tscWhenUnsatisfiable c = ScheduleAnyway) (topologySpread p)"

definition soft :: "(toleration \<Rightarrow> toleration \<Rightarrow> bool) \<Rightarrow> bool \<Rightarrow> pod \<Rightarrow> nat" where
  "soft match tol p =
     (length (requiredTerms p) - 1) + length (podTerms podAffinity paPreferred p) +
     length (podTerms podAntiAffinity paPreferred p) + length (preferredNode p) + length (anyway p) +
     (if tol \<and> \<not> list_ex (\<lambda>t. match t preferNoSchedule) (tolerations p) then 1 else 0)"

text \<open>The constraints that hold a pod back for good: what is left of a pod when its preferences are
  ignored.\<close>

definition hard :: "pod \<Rightarrow> pod" where
  "hard p = p \<lparr> podAffinityField := None, tolerations := [], topologySpread := [] \<rparr>"

definition hardSpread :: "pod \<Rightarrow> topology_spread_constraint multiset" where
  "hardSpread p = mset (filter (\<lambda>c. tscWhenUnsatisfiable c \<noteq> ScheduleAnyway) (topologySpread p))"

definition keepsHard :: "pod \<Rightarrow> pod \<Rightarrow> bool" where
  "keepsHard p p' \<longleftrightarrow> hard p' = hard p \<and> hardSpread p' = hardSpread p \<and>
     podTerms podAffinity paRequired p' = podTerms podAffinity paRequired p \<and>
     podTerms podAntiAffinity paRequired p' = podTerms podAntiAffinity paRequired p \<and>
     (\<exists>dropped. requiredTerms p = dropped @ requiredTerms p') \<and>
     (requiredTerms p \<noteq> [] \<longrightarrow> requiredTerms p' \<noteq> []) \<and>
     (\<exists>added. tolerations p' = tolerations p @ added \<and> set added \<subseteq> {preferNoSchedule})"

lemmas relax_views = requiredTerms_def preferredNode_def podTerms_def anyway_def hard_def hardSpread_def

lemma keepsHard_refl: "keepsHard p p"
  by (simp add: keepsHard_def)

lemma keepsHard_trans:
  assumes "keepsHard p q" "keepsHard q r" shows "keepsHard p r"
proof -
  obtain a b where "requiredTerms p = a @ requiredTerms q" "requiredTerms q = b @ requiredTerms r"
    using assms unfolding keepsHard_def by blast
  then have terms: "requiredTerms p = (a @ b) @ requiredTerms r" by simp
  obtain c d where "tolerations q = tolerations p @ c" "tolerations r = tolerations q @ d"
    "set c \<subseteq> {preferNoSchedule}" "set d \<subseteq> {preferNoSchedule}"
    using assms unfolding keepsHard_def by blast
  then have "tolerations r = tolerations p @ (c @ d) \<and> set (c @ d) \<subseteq> {preferNoSchedule}" by simp
  then have "\<exists>added. tolerations r = tolerations p @ added \<and> set added \<subseteq> {preferNoSchedule}" by blast
  moreover have "\<exists>dropped. requiredTerms p = dropped @ requiredTerms r" using terms by blast
  moreover have "hard r = hard p" "hardSpread r = hardSpread p"
    "podTerms podAffinity paRequired r = podTerms podAffinity paRequired p"
    "podTerms podAntiAffinity paRequired r = podTerms podAntiAffinity paRequired p"
    "requiredTerms p \<noteq> [] \<longrightarrow> requiredTerms r \<noteq> []"
    using assms by (simp_all add: keepsHard_def)
  ultimately show ?thesis by (simp only: keepsHard_def simp_thms)
qed

lemma mset_swap_remove:
  assumes "i < length xs"
  shows "mset (take (length xs - 1) (xs[i := xs ! (length xs - 1)])) = mset xs - {#xs ! i#}"
proof -
  let ?n = "length xs - 1" and ?ys = "xs[i := xs ! (length xs - 1)]"
  have n: "?n < length ?ys" using assms by simp
  then have "?ys = take ?n ?ys @ [?ys ! ?n]" by (simp add: take_Suc_conv_app_nth [symmetric])
  moreover have "?ys ! ?n = xs ! ?n" using n assms by (cases "i = ?n") simp_all
  ultimately have "mset ?ys = add_mset (xs ! ?n) (mset (take ?n ?ys))"
    by (metis mset_append mset.simps union_mset_add_mset_right add.right_neutral)
  moreover have "mset ?ys = add_mset (xs ! ?n) (mset xs - {#xs ! i#})" using assms by (rule mset_update)
  ultimately show ?thesis by simp
qed

lemma firstScheduleAnyway_Some:
  "firstScheduleAnyway cs = Some i \<Longrightarrow> i < length cs \<and> tscWhenUnsatisfiable (cs ! i) = ScheduleAnyway"
  by (induction cs arbitrary: i) (auto split: if_splits)

lemma firstScheduleAnyway_None:
  "firstScheduleAnyway cs = None \<longleftrightarrow> filter (\<lambda>c. tscWhenUnsatisfiable c = ScheduleAnyway) cs = []"
  by (induction cs) auto

lemma length_byWeight [simp]: "length (byWeight w ts) = length ts"
  by (simp add: byWeight_def)

lemma relax_required:
  assumes "removeRequiredNodeAffinityTerm p = Some p'"
  shows "keepsHard p p' \<and> soft match tol p' < soft match tol p"
proof -
  obtain a na terms where p: "podAffinityField p = Some a" "nodeAffinity a = Some na"
    "requiredNodeTerms na = Some terms" and long: "length terms > 1"
    and p': "p' = p \<lparr> podAffinityField := Some (a \<lparr> nodeAffinity := Some (na
      \<lparr> requiredNodeTerms := Some (tl terms) \<rparr>) \<rparr>) \<rparr>"
    using assms by (simp add: removeRequiredNodeAffinityTerm_def split: option.splits if_splits)
  obtain t u ts where terms: "terms = t # u # ts"
    using long by (cases terms; cases "tl terms") auto
  show ?thesis unfolding p' keepsHard_def by (simp add: p terms relax_views soft_def)
qed

lemma relax_pod_affinity:
  assumes "removePreferredPodAffinityTerm p = Some p'"
  shows "keepsHard p p' \<and> soft match tol p' < soft match tol p"
proof -
  obtain a x where p: "podAffinityField p = Some a" "podAffinity a = Some x" and some: "length (paPreferred x) \<noteq> 0"
    and p': "p' = p \<lparr> podAffinityField := Some (a \<lparr> podAffinity := Some (x
      \<lparr> paPreferred := tl (byWeight wpatWeight (paPreferred x)) \<rparr>) \<rparr>) \<rparr>"
    using assms by (simp add: removePreferredPodAffinityTerm_def split: option.splits if_splits)
  show ?thesis unfolding p' keepsHard_def using some by (simp add: p relax_views soft_def)
qed

lemma relax_pod_anti_affinity:
  assumes "removePreferredPodAntiAffinityTerm p = Some p'"
  shows "keepsHard p p' \<and> soft match tol p' < soft match tol p"
proof -
  obtain a x where p: "podAffinityField p = Some a" "podAntiAffinity a = Some x" and some: "length (paPreferred x) \<noteq> 0"
    and p': "p' = p \<lparr> podAffinityField := Some (a \<lparr> podAntiAffinity := Some (x
      \<lparr> paPreferred := tl (byWeight wpatWeight (paPreferred x)) \<rparr>) \<rparr>) \<rparr>"
    using assms by (simp add: removePreferredPodAntiAffinityTerm_def split: option.splits if_splits)
  show ?thesis unfolding p' keepsHard_def using some by (simp add: p relax_views soft_def)
qed

lemma relax_preferred_node:
  assumes "removePreferredNodeAffinityTerm p = Some p'"
  shows "keepsHard p p' \<and> soft match tol p' < soft match tol p"
proof -
  obtain a x where p: "podAffinityField p = Some a" "nodeAffinity a = Some x" and some: "length (preferredNodeTerms x) \<noteq> 0"
    and p': "p' = p \<lparr> podAffinityField := Some (a \<lparr> nodeAffinity := Some (x
      \<lparr> preferredNodeTerms := tl (byWeight pstWeight (preferredNodeTerms x)) \<rparr>) \<rparr>) \<rparr>"
    using assms by (simp add: removePreferredNodeAffinityTerm_def split: option.splits if_splits)
  show ?thesis unfolding p' keepsHard_def using some by (simp add: p relax_views soft_def)
qed

lemma relax_spread:
  assumes "removeTopologySpreadScheduleAnyway p = Some p'"
  shows "keepsHard p p' \<and> soft match tol p' < soft match tol p"
proof -
  let ?cs = "topologySpread p" and ?S = "\<lambda>c. tscWhenUnsatisfiable c = ScheduleAnyway"
  obtain i where i: "firstScheduleAnyway ?cs = Some i"
    and p': "p' = p \<lparr> topologySpread := take (length ?cs - 1) (?cs[i := ?cs ! (length ?cs - 1)]) \<rparr>"
    using assms by (auto simp: removeTopologySpreadScheduleAnyway_def Let_def split: option.splits)
  note at = firstScheduleAnyway_Some [OF i]
  have m: "mset (topologySpread p') = mset ?cs - {#?cs ! i#}" using mset_swap_remove [of i ?cs] at by (simp add: p')
  have "hardSpread p' = hardSpread p"
    using at by (simp add: hardSpread_def mset_filter m)
  moreover have "length (anyway p') < length (anyway p)"
  proof -
    have "mset (anyway p') = mset (anyway p) - {#?cs ! i#}"
      using at by (simp add: anyway_def mset_filter m)
    moreover have "?cs ! i \<in># mset (anyway p)" using at by (simp add: anyway_def)
    ultimately show ?thesis by (metis size_Diff1_less size_mset)
  qed
  moreover have "anyway p' = filter ?S (topologySpread p')" by (simp add: anyway_def)
  ultimately show ?thesis
    unfolding keepsHard_def soft_def by (simp add: p' requiredTerms_def preferredNode_def podTerms_def hard_def)
qed

lemma relax_tolerate:
  assumes "toleratePreferNoScheduleTaints match p = Some p'" "match preferNoSchedule preferNoSchedule"
  shows "keepsHard p p' \<and> soft match True p' < soft match True p"
  using assms by (auto simp: toleratePreferNoScheduleTaints_def keepsHard_def relax_views soft_def split: if_splits)

lemmas relax_steps = relax_required relax_pod_affinity relax_pod_anti_affinity relax_preferred_node relax_spread

text \<open>Every relaxation keeps the hard constraints and takes a soft one away.\<close>

lemma firstRelaxation_Some: "firstRelaxation fs p = Some p' \<Longrightarrow> \<exists>f \<in> set fs. f p = Some p'"
  by (induction fs) (auto split: option.splits)

lemma firstRelaxation_None: "firstRelaxation fs p = None \<longleftrightarrow> (\<forall>f \<in> set fs. f p = None)"
  by (induction fs) (auto split: option.split)

lemma Relax_step:
  assumes "Relax match tol p = Some p'" "match preferNoSchedule preferNoSchedule"
  shows "keepsHard p p' \<and> soft match tol p' < soft match tol p"
proof -
  obtain f where "f \<in> set (relaxations match tol)" and f: "f p = Some p'"
    using firstRelaxation_Some assms(1) unfolding Relax_def by blast
  then consider "f = removeRequiredNodeAffinityTerm" | "f = removePreferredPodAffinityTerm"
    | "f = removePreferredPodAntiAffinityTerm" | "f = removePreferredNodeAffinityTerm"
    | "f = removeTopologySpreadScheduleAnyway" | "tol" "f = toleratePreferNoScheduleTaints match"
    by (auto simp: relaxations_def split: if_splits)
  then show ?thesis
    by cases (use f in \<open>simp_all add: relax_steps relax_tolerate [where match = match] assms(2)\<close>)
qed

lemma relax_none_iff:
  "removeRequiredNodeAffinityTerm p = None \<longleftrightarrow> length (requiredTerms p) - 1 = 0"
  "removePreferredPodAffinityTerm p = None \<longleftrightarrow> length (podTerms podAffinity paPreferred p) = 0"
  "removePreferredPodAntiAffinityTerm p = None \<longleftrightarrow> length (podTerms podAntiAffinity paPreferred p) = 0"
  "removePreferredNodeAffinityTerm p = None \<longleftrightarrow> length (preferredNode p) = 0"
  "removeTopologySpreadScheduleAnyway p = None \<longleftrightarrow> length (anyway p) = 0"
  "toleratePreferNoScheduleTaints match p = None \<longleftrightarrow> list_ex (\<lambda>t. match t preferNoSchedule) (tolerations p)"
  by (simp_all add: removeRequiredNodeAffinityTerm_def removePreferredPodAffinityTerm_def
      removePreferredPodAntiAffinityTerm_def removePreferredNodeAffinityTerm_def
      removeTopologySpreadScheduleAnyway_def toleratePreferNoScheduleTaints_def relax_views Let_def
      firstScheduleAnyway_None [symmetric] split: option.split)

lemma Relax_None: "Relax match tol p = None \<longleftrightarrow> soft match tol p = 0"
  unfolding Relax_def firstRelaxation_None
  by (simp add: relaxations_def relax_none_iff soft_def del: One_nat_def)

lemma trySchedule_run:
  assumes self: "match preferNoSchedule preferNoSchedule"
  shows "\<exists>r s' p'. trySchedule (Relax match tol) ctxErr add final refresh p s = Some (r, s') \<and>
    keepsHard p p' \<and> soft match tol p' \<le> soft match tol p \<and>
    (case r of
       None \<Rightarrow> \<exists>s1. add p' s1 = (None, s')
     | Some e \<Rightarrow> ctxErr s' = Some e \<or>
         (\<exists>s1. add p' s1 = (Some e, s')) \<and> (final e \<or> soft match tol p' = 0))"
proof (induction "soft match tol p" arbitrary: p s rule: less_induct)
  case less
  note run = trySchedule.simps [of "Relax match tol" ctxErr add final refresh p s]
  show ?case
  proof (cases "ctxErr s")
    case (Some e)
    then show ?thesis by (intro exI [of _ "Some e"] exI [of _ s] exI [of _ p]) (simp add: run keepsHard_refl)
  next
    case None
    obtain r s1 where add: "add p s = (r, s1)" by fastforce
    show ?thesis
    proof (cases "\<exists>e. r = Some e \<and> \<not> final e \<and> Relax match tol p \<noteq> None")
      case True
      then obtain e p1 where step: "r = Some e" "\<not> final e" "Relax match tol p = Some p1" by auto
      have k: "keepsHard p p1" "soft match tol p1 < soft match tol p"
        using Relax_step [OF step(3) self] by auto
      have eq: "trySchedule (Relax match tol) ctxErr add final refresh p s =
          trySchedule (Relax match tol) ctxErr add final refresh p1 (refresh p1 s1)"
        by (simp add: run None add step)
      show ?thesis unfolding eq
        using less [OF k(2), of "refresh p1 s1"] keepsHard_trans [OF k(1)] k(2)
        by (meson less_imp_le order_trans)
    next
      case False
      then have "trySchedule (Relax match tol) ctxErr add final refresh p s = Some (r, s1)"
        using None add by (auto simp: run split: option.split)
      moreover have "case r of None \<Rightarrow> \<exists>s2. add p s2 = (None, s1)
          | Some e \<Rightarrow> ctxErr s1 = Some e \<or>
              (\<exists>s2. add p s2 = (Some e, s1)) \<and> (final e \<or> soft match tol p = 0)"
        using False add by (auto simp: Relax_None split: option.split)
      ultimately show ?thesis using keepsHard_refl by blast
    qed
  qed
qed

section \<open>Properties\<close>

text \<open>A pod with a strict and a soft spread constraint, and equality as the match of tolerations.\<close>

definition exampleSpread :: "unsatisfiable_action \<Rightarrow> topology_spread_constraint" where
  "exampleSpread action =
     \<lparr> tscMaxSkew = 1, tscTopologyKey = ''zone'', tscWhenUnsatisfiable = action, tscLabelSelector = None,
       tscMinDomains = None, tscNodeAffinityPolicy = None, tscNodeTaintsPolicy = None,
       tscMatchLabelKeys = [] \<rparr>"

definition exampleSoftPod :: pod where
  "exampleSoftPod = (emptyPod ''a'')
     \<lparr> topologySpread := [exampleSpread ScheduleAnyway, exampleSpread DoNotSchedule] \<rparr>"



text \<open>
  C26. \<^verbatim>\<open>Scheduler.trySchedule\<close> always returns, whatever \<^verbatim>\<open>add\<close> does, and never by giving up a hard
  constraint: it ends with a placement of a pod that has the same hard constraints, with the
  context's error, with an error after which pods are not relaxed, or with the error of the pod
  whose soft constraints are all gone.
\<close>
theorem trySchedule_returns:
  assumes "match preferNoSchedule preferNoSchedule"
  shows "\<exists>r s' p'. trySchedule (Relax match tol) ctxErr add final refresh p s = Some (r, s') \<and>
    keepsHard p p' \<and>
    (case r of
       None \<Rightarrow> \<exists>s1. add p' s1 = (None, s')
     | Some e \<Rightarrow> ctxErr s' = Some e \<or>
         (\<exists>s1. add p' s1 = (Some e, s')) \<and> (final e \<or> Relax match tol p' = None))"
  using trySchedule_run [of match tol ctxErr add final refresh p s, OF assms] unfolding Relax_None by meson

theorem trySchedule_returns_witness:
  "\<exists>r s'. trySchedule (Relax (=) True) (\<lambda>s. None)
     (\<lambda>p n. (if length (topologySpread p) = 1 then None else Some ''spread'', Suc n)) (\<lambda>e. False)
     (\<lambda>p n. n) exampleSoftPod 0 = Some (r, s')"
  using trySchedule_returns [of "(=)" True "\<lambda>s. None"
      "\<lambda>p n. (if length (topologySpread p) = 1 then None else Some ''spread'', Suc n)" "\<lambda>e. False"
      "\<lambda>p n. n" exampleSoftPod 0] by blast

end
