(* ===== verification/SchedQueue.thy ===== *)
theory SchedQueue
  imports Resources "HOL-Library.Multiset" "HOL-Library.Product_Lexorder"
begin

text \<open>
  \<^verbatim>\<open>pkg/controllers/provisioning/scheduling/queue.go\<close>, the queue of pods to schedule, and the main loop
  of \<^verbatim>\<open>Scheduler.Solve\<close> in \<^verbatim>\<open>scheduler.go\<close> that drains it.

  \<open>podRequests\<close> reads \<^verbatim>\<open>podData[uid].Requests\<close>; a pod without cached data is a nil dereference in the
  comparison, so \<open>NewQueue\<close> gives \<open>None\<close> then. \<^verbatim>\<open>sort.Slice\<close> is the parameter \<open>sorter\<close>. In the loop,
  \<open>attempt\<close> is \<^verbatim>\<open>trySchedule\<close> on the scheduler's state, \<open>deadline\<close> recognises an exceeded deadline and
  \<open>refresh\<close> stands for the topology and pod data updates after a failure. The error map, keyed by
  pod pointers in the code, is keyed by pod UIDs. Metrics are left out.
\<close>

section \<open>Queue\<close>

record queue =
  qPods :: "pod list"
  lastLen :: "(string, nat) gomap"

definition byCPUAndMemoryDescending ::
  "(string, 'q::linordered_ab_group_add resource_list) gomap \<Rightarrow> pod \<Rightarrow> pod \<Rightarrow> bool" where
  "byCPUAndMemoryDescending podRequests lhsPod rhsPod =
     (let lhs = get_or [] podRequests (podUID lhsPod);
          rhs = get_or [] podRequests (podUID rhsPod);
          cpuCmp = Cmp (qty lhs ResourceCPU) (qty rhs ResourceCPU);
          memCmp = Cmp (qty lhs ResourceMemory) (qty rhs ResourceMemory)
      in if cpuCmp < 0 then False
         else if cpuCmp > 0 then True
         else if memCmp < 0 then False
         else if memCmp > 0 then True
         else if podCreation lhsPod \<noteq> podCreation rhsPod then podCreation lhsPod < podCreation rhsPod
         else podUID lhsPod < podUID rhsPod)"

definition NewQueue ::
  "((pod \<Rightarrow> pod \<Rightarrow> bool) \<Rightarrow> pod list \<Rightarrow> pod list) \<Rightarrow> pod list \<Rightarrow>
   (string, 'q::linordered_ab_group_add resource_list) gomap \<Rightarrow> queue option" where
  "NewQueue sorter pods podRequests =
     (if length pods \<ge> 2 \<and> list_ex (\<lambda>p. map_of podRequests (podUID p) = None) pods then None
      else Some \<lparr> qPods = sorter (byCPUAndMemoryDescending podRequests) pods, lastLen = [] \<rparr>)"

definition Pop :: "queue \<Rightarrow> (pod \<times> queue) option" where
  "Pop q =
     (case qPods q of
        [] \<Rightarrow> None
      | p # rest \<Rightarrow>
          if get_or 0 (lastLen q) (podUID p) = length (qPods q) then None
          else Some (p, q \<lparr> qPods := rest \<rparr>))"

definition Push :: "pod \<Rightarrow> queue \<Rightarrow> queue" where
  "Push p q =
     (let pods = qPods q @ [p]
      in q \<lparr> qPods := pods, lastLen := AList.update (podUID p) (length pods) (lastLen q) \<rparr>)"

definition ListPods :: "queue \<Rightarrow> pod list" where
  "ListPods q = qPods q"

section \<open>Progress\<close>

text \<open>A pod is fresh when it was not pushed back at the current length of the queue. The potential
  bounds the number of attempts that can still follow.\<close>

definition fresh :: "queue \<Rightarrow> pod \<Rightarrow> bool" where
  "fresh q p \<longleftrightarrow> get_or 0 (lastLen q) (podUID p) \<noteq> length (qPods q)"

definition potential :: "queue \<Rightarrow> nat" where
  "potential q =
     length (qPods q) * (length (qPods q) - 1) div 2 + length (filter (fresh q) (qPods q))"

lemma Pop_Some:
  "Pop q = Some (p, q') \<longleftrightarrow> (\<exists>rest. qPods q = p # rest \<and> fresh q p \<and> q' = q \<lparr> qPods := rest \<rparr>)"
  by (auto simp: Pop_def fresh_def split: list.splits)

lemma Pop_None: "Pop q = None \<longleftrightarrow> qPods q = [] \<or> \<not> fresh q (hd (qPods q))"
  by (auto simp: Pop_def fresh_def split: list.splits)

lemma triangle: "n * (n + 1) div 2 = n * (n - 1) div 2 + (n :: nat)"
proof -
  have "n * (n + 1) = n * (n - 1) + 2 * n" by (cases n) (simp_all add: algebra_simps)
  then show ?thesis by simp
qed

lemma potential_bound: "potential q \<le> length (qPods q) * (length (qPods q) + 1) div 2"
  unfolding potential_def triangle by simp

lemma potential_Pop:
  assumes "Pop q = Some (p, q')" shows "potential q' < potential q"
proof -
  obtain rest where q: "qPods q = p # rest" "fresh q p" "q' = q \<lparr> qPods := rest \<rparr>"
    using assms by (auto simp: Pop_Some)
  have "potential q' \<le> length rest * (length rest + 1) div 2" using potential_bound [of q'] q(3) by simp
  also have "\<dots> < potential q" by (simp add: potential_def q mult.commute)
  finally show ?thesis .
qed

lemma potential_Push:
  assumes "Pop q = Some (p, q')" shows "potential (Push p q') < potential q"
proof -
  obtain rest where q: "qPods q = p # rest" "fresh q p" "q' = q \<lparr> qPods := rest \<rparr>"
    using assms by (auto simp: Pop_Some)
  let ?q = "Push p q'"
  have pods: "qPods ?q = rest @ [p]" by (simp add: Push_def q)
  have stale: "\<not> fresh ?q p" by (simp add: fresh_def Push_def q gomap_simps)
  have mono: "fresh q x" if "fresh ?q x" for x
    using that by (simp add: fresh_def Push_def q gomap_simps split: if_splits)
  have "length (filter (fresh ?q) rest) \<le> length (filter (fresh q) rest)"
    using mono by (induction rest) auto
  then show ?thesis by (simp add: potential_def pods q(1,2) stale)
qed

section \<open>The scheduling loop\<close>

function solveLoop ::
  "(pod \<Rightarrow> 's \<Rightarrow> 'e option \<times> 's) \<Rightarrow> ('e \<Rightarrow> bool) \<Rightarrow> (pod \<Rightarrow> 's \<Rightarrow> 's) \<Rightarrow>
   queue \<Rightarrow> (string, 'e) gomap \<Rightarrow> 's \<Rightarrow> queue \<times> (string, 'e) gomap \<times> 's" where
  "solveLoop attempt deadline refresh q podErrors s =
     (case Pop q of
        None \<Rightarrow> (q, podErrors, s)
      | Some (p, q1) \<Rightarrow>
          (case attempt p s of
             (None, s1) \<Rightarrow>
               solveLoop attempt deadline refresh q1 (AList.delete (podUID p) podErrors) s1
           | (Some e, s1) \<Rightarrow>
               if deadline e then (q1, podErrors, s1)
               else solveLoop attempt deadline refresh (Push p q1)
                      (AList.update (podUID p) e podErrors) (refresh p s1)))"
  by pat_completeness auto
termination
  by (relation "measure (\<lambda>(attempt, deadline, refresh, q, podErrors, s). potential q)")
     (auto simp: potential_Pop potential_Push)

declare solveLoop.simps [simp del]

section \<open>Accounting for every attempt\<close>

text \<open>The same loop with a log of the attempts and whether they placed the pod.\<close>

definition logged ::
  "(pod \<Rightarrow> 's \<Rightarrow> 'e option \<times> 's) \<Rightarrow> pod \<Rightarrow> 's \<times> (pod \<times> bool) list \<Rightarrow> 'e option \<times> 's \<times> (pod \<times> bool) list" where
  "logged attempt p = (\<lambda>(s, l). case attempt p s of (r, s') \<Rightarrow> (r, s', l @ [(p, r = None)]))"

definition silent :: "(pod \<Rightarrow> 's \<Rightarrow> 's) \<Rightarrow> pod \<Rightarrow> 's \<times> (pod \<times> bool) list \<Rightarrow> 's \<times> (pod \<times> bool) list" where
  "silent refresh p = (\<lambda>(s, l). (refresh p s, l))"

lemma solveLoop_logged:
  "solveLoop attempt deadline refresh q errs s =
     (case solveLoop (logged attempt) deadline (silent refresh) q errs (s, l) of (q', errs', s', l') \<Rightarrow> (q', errs', s'))"
proof (induction "potential q" arbitrary: q errs s l rule: less_induct)
  case less
  note run = solveLoop.simps [of attempt deadline refresh q errs s]
    solveLoop.simps [of "logged attempt" deadline "silent refresh" q errs "(s, l)"]
  show ?case
  proof (cases "Pop q")
    case None
    then show ?thesis by (simp add: run)
  next
    case (Some pq)
    then obtain p q1 where pop: "Pop q = Some (p, q1)" by (cases pq) auto
    obtain r s1 where att: "attempt p s = (r, s1)" by fastforce
    note IH = less [OF potential_Pop [OF pop]] less [OF potential_Push [OF pop]]
    show ?thesis
    proof (cases r)
      case None
      then show ?thesis
        using IH(1) [of "AList.delete (podUID p) errs" s1 "l @ [(p, True)]"]
        by (simp add: run pop att logged_def)
    next
      case (Some e)
      then show ?thesis
        using IH(2) [of "AList.update (podUID p) e errs" "refresh p s1" "l @ [(p, False)]"]
        by (simp add: run pop att logged_def silent_def)
    qed
  qed
qed

definition solve_inv ::
  "pod list \<Rightarrow> queue \<Rightarrow> (string, 'e) gomap \<Rightarrow> (pod \<times> bool) list \<Rightarrow> bool" where
  "solve_inv ps q errs l \<longleftrightarrow>
     distinct (map podUID (qPods q)) \<and>
     (\<exists>pre xs ys. qPods q = xs @ ys \<and> (\<forall>x \<in> set xs. fresh q x) \<and> (\<forall>y \<in> set ys. \<not> fresh q y) \<and>
        l = pre @ map (\<lambda>p. (p, False)) ys) \<and>
     (\<forall>p \<in> set (qPods q). get_or 0 (lastLen q) (podUID p) = 0 \<or>
        length (qPods q) \<le> get_or 0 (lastLen q) (podUID p)) \<and>
     mset ps = mset (qPods q) + mset (map fst (filter snd l)) \<and>
     (\<forall>p \<in> set (qPods q). map_of errs (podUID p) = None \<longleftrightarrow> get_or 0 (lastLen q) (podUID p) = 0) \<and>
     (\<forall>uid. uid \<notin> podUID ` set (qPods q) \<longrightarrow> map_of errs uid = None)"

lemma solve_inv_placed:
  assumes inv: "solve_inv ps q errs l" and pop: "Pop q = Some (p, q1)"
  shows "solve_inv ps q1 (AList.delete (podUID p) errs) (l @ [(p, True)])"
proof -
  obtain rest where q: "qPods q = p # rest" "fresh q p" "q1 = q \<lparr> qPods := rest \<rparr>"
    using pop by (auto simp: Pop_Some)
  have "podUID p \<notin> podUID ` set rest" using inv by (simp add: solve_inv_def q(1))
  then have other: "podUID x \<noteq> podUID p" if "x \<in> set rest" for x
    using that by (metis image_eqI)
  have fresh: "fresh q1 x" if "x \<in> set rest" for x
  proof -
    have "get_or 0 (lastLen q) (podUID x) = 0 \<or> Suc (length rest) \<le> get_or 0 (lastLen q) (podUID x)"
      using inv that by (simp add: solve_inv_def q(1))
    moreover have "rest \<noteq> []" using that by auto
    ultimately show ?thesis by (auto simp: fresh_def q(3))
  qed
  have split: "\<exists>pre xs ys. qPods q1 = xs @ ys \<and> (\<forall>x \<in> set xs. fresh q1 x) \<and> (\<forall>y \<in> set ys. \<not> fresh q1 y) \<and>
      l @ [(p, True)] = pre @ map (\<lambda>p. (p, False)) ys"
    by (rule exI [of _ "l @ [(p, True)]"], rule exI [of _ rest], rule exI [of _ "[]"])
       (use fresh in \<open>simp add: q(3)\<close>)
  have fields: "qPods q1 = rest" "lastLen q1 = lastLen q" by (simp_all add: q(3))
  show ?thesis
    unfolding solve_inv_def using inv split other
    by (auto simp: solve_inv_def q(1) fields gomap_simps)
qed

lemma solve_inv_failed:
  assumes inv: "solve_inv ps q errs l" and pop: "Pop q = Some (p, q1)"
  shows "solve_inv ps (Push p q1) (AList.update (podUID p) e errs) (l @ [(p, False)])"
proof -
  obtain rest where q: "qPods q = p # rest" "fresh q p" "q1 = q \<lparr> qPods := rest \<rparr>"
    using pop by (auto simp: Pop_Some)
  let ?q = "Push p q1"
  have fields: "qPods ?q = rest @ [p]"
    "lastLen ?q = AList.update (podUID p) (Suc (length rest)) (lastLen q)" by (simp_all add: Push_def q(3))
  have "podUID p \<notin> podUID ` set rest" using inv by (simp add: solve_inv_def q(1))
  then have other: "podUID x \<noteq> podUID p" if "x \<in> set rest" for x
    using that by (metis image_eqI)
  have same: "fresh ?q x \<longleftrightarrow> fresh q x" if "x \<in> set rest" for x
    using other [OF that] by (simp add: fresh_def fields q(1) gomap_simps)
  have stale: "\<not> fresh ?q p" by (simp add: fresh_def fields gomap_simps)
  obtain pre xs ys where d: "qPods q = xs @ ys" "\<forall>x \<in> set xs. fresh q x" "\<forall>y \<in> set ys. \<not> fresh q y"
    "l = pre @ map (\<lambda>p. (p, False)) ys" using inv unfolding solve_inv_def by blast
  have "xs \<noteq> []" using d q by (cases xs) auto
  then obtain xs' where xs: "xs = p # xs'" "rest = xs' @ ys" using d(1) q(1) by (cases xs) auto
  have split: "\<exists>pre xs ys. qPods ?q = xs @ ys \<and> (\<forall>x \<in> set xs. fresh ?q x) \<and> (\<forall>y \<in> set ys. \<not> fresh ?q y) \<and>
      l @ [(p, False)] = pre @ map (\<lambda>p. (p, False)) ys"
    by (rule exI [of _ pre], rule exI [of _ xs'], rule exI [of _ "ys @ [p]"])
       (use d xs same stale in \<open>simp add: fields\<close>)
  show ?thesis
    unfolding solve_inv_def using inv split other
    by (auto simp: solve_inv_def q(1) fields gomap_simps)
qed

lemma solveLoop_inv:
  assumes "solve_inv ps q errs l"
    and "\<And>p s e s'. attempt p s = (Some e, s') \<Longrightarrow> \<not> deadline e"
    and "solveLoop (logged attempt) deadline (silent refresh) q errs (s, l) = (q', errs', s', l')"
  shows "solve_inv ps q' errs' l' \<and> Pop q' = None \<and> length l' + potential q' \<le> length l + potential q"
  using assms(1,3)
proof (induction "potential q" arbitrary: q errs s l rule: less_induct)
  case less
  note run = less.prems(2) [unfolded solveLoop.simps [of _ _ _ q]]
  show ?case
  proof (cases "Pop q")
    case None
    then show ?thesis using less.prems(1) run by simp
  next
    case (Some pq)
    then obtain p q1 where pop: "Pop q = Some (p, q1)" by (cases pq) auto
    obtain r s1 where att: "attempt p s = (r, s1)" by fastforce
    show ?thesis
    proof (cases r)
      case None
      then have "solveLoop (logged attempt) deadline (silent refresh) q1 (AList.delete (podUID p) errs)
          (s1, l @ [(p, True)]) = (q', errs', s', l')"
        using run by (simp add: pop att logged_def)
      then show ?thesis
        using less.hyps [OF potential_Pop [OF pop] solve_inv_placed [OF less.prems(1) pop]]
          potential_Pop [OF pop] by fastforce
    next
      case (Some e)
      then have "solveLoop (logged attempt) deadline (silent refresh) (Push p q1)
          (AList.update (podUID p) e errs) (refresh p s1, l @ [(p, False)]) = (q', errs', s', l')"
        using run assms(2) [of p s e s1] by (simp add: pop att logged_def silent_def)
      then show ?thesis
        using less.hyps [OF potential_Push [OF pop] solve_inv_failed [OF less.prems(1) pop]]
          potential_Push [OF pop] by fastforce
    qed
  qed
qed

lemma solve_inv_start:
  assumes "distinct (map podUID ps)"
  shows "solve_inv ps \<lparr> qPods = ps, lastLen = [] \<rparr> [] []"
proof -
  let ?q = "\<lparr> qPods = ps, lastLen = [] \<rparr>"
  have "\<forall>x \<in> set ps. fresh ?q x" by (auto simp: fresh_def gomap_simps)
  then have "\<exists>pre xs ys. qPods ?q = xs @ ys \<and> (\<forall>x \<in> set xs. fresh ?q x) \<and> (\<forall>y \<in> set ys. \<not> fresh ?q y) \<and>
      [] = pre @ map (\<lambda>p. (p, False)) ys"
    by (intro exI [of _ "[]"] exI [of _ ps]) simp
  then show ?thesis using assms by (simp add: solve_inv_def gomap_simps)
qed

lemma solve_inv_stop:
  assumes inv: "solve_inv ps q errs l" and stop: "Pop q = None"
  shows "(\<exists>pre. l = pre @ map (\<lambda>p. (p, False)) (qPods q)) \<and>
    (\<forall>uid. map_of errs uid = None \<longleftrightarrow> uid \<notin> podUID ` set (qPods q))"
proof -
  obtain pre xs ys where d: "qPods q = xs @ ys" "\<forall>x \<in> set xs. fresh q x" "\<forall>y \<in> set ys. \<not> fresh q y"
    "l = pre @ map (\<lambda>p. (p, False)) ys" using inv unfolding solve_inv_def by blast
  have "xs = []" using stop d(1,2) by (cases xs) (auto simp: Pop_None)
  then have q: "qPods q = ys" using d(1) by simp
  have "map_of errs (podUID p) \<noteq> None" if p: "p \<in> set (qPods q)" for p
  proof -
    have "get_or 0 (lastLen q) (podUID p) = length (qPods q)" using d(3) p q by (simp add: fresh_def)
    moreover have "qPods q \<noteq> []" using p by auto
    ultimately show ?thesis using inv p by (simp add: solve_inv_def)
  qed
  then have "\<forall>uid. map_of errs uid = None \<longleftrightarrow> uid \<notin> podUID ` set (qPods q)"
    using inv unfolding solve_inv_def by blast
  then show ?thesis using d(4) q by blast
qed

section \<open>The order of the queue\<close>

definition queueKey ::
  "(string, 'q::linordered_ab_group_add resource_list) gomap \<Rightarrow> pod \<Rightarrow> 'q \<times> 'q \<times> int \<times> string" where
  "queueKey podRequests p =
     (let r = get_or [] podRequests (podUID p)
      in (- qty r ResourceCPU, - qty r ResourceMemory, podCreation p, podUID p))"

lemma byCPU_iff_key:
  "byCPUAndMemoryDescending podRequests p q \<longleftrightarrow> queueKey podRequests p < queueKey podRequests q"
  by (auto simp: byCPUAndMemoryDescending_def queueKey_def Cmp_def Let_def)

text \<open>The contract of \<^verbatim>\<open>sort.Slice\<close> for a strict weak order.\<close>

definition sorts_slices :: "((pod \<Rightarrow> pod \<Rightarrow> bool) \<Rightarrow> pod list \<Rightarrow> pod list) \<Rightarrow> bool" where
  "sorts_slices sorter \<longleftrightarrow>
     (\<forall>lt xs. transp lt \<and> irreflp lt \<and> transp (\<lambda>x y. \<not> lt y x) \<longrightarrow>
        mset (sorter lt xs) = mset xs \<and> sorted_wrt (\<lambda>x y. \<not> lt y x) (sorter lt xs))"

text \<open>Insertion sort keeps this contract, so it can be kept.\<close>

fun insertBy :: "('a \<Rightarrow> 'a \<Rightarrow> bool) \<Rightarrow> 'a \<Rightarrow> 'a list \<Rightarrow> 'a list" where
  "insertBy lt x [] = [x]"
| "insertBy lt x (y # ys) = (if lt y x then y # insertBy lt x ys else x # y # ys)"

definition sortBy :: "('a \<Rightarrow> 'a \<Rightarrow> bool) \<Rightarrow> 'a list \<Rightarrow> 'a list" where
  "sortBy lt xs = foldr (insertBy lt) xs []"

lemma mset_insertBy: "mset (insertBy lt x xs) = add_mset x (mset xs)"
  by (induction xs) auto

lemma set_insertBy: "set (insertBy lt x xs) = insert x (set xs)"
  by (induction xs) auto

lemma sorted_insertBy:
  assumes "transp lt" "irreflp lt" "transp (\<lambda>x y. \<not> lt y x)" "sorted_wrt (\<lambda>x y. \<not> lt y x) xs"
  shows "sorted_wrt (\<lambda>x y. \<not> lt y x) (insertBy lt x xs)"
  using assms(4)
proof (induction xs)
  case (Cons y ys)
  show ?case
  proof (cases "lt y x")
    case True
    then have "\<not> lt x y" using assms(1,2) by (meson irreflpD transpD)
    then show ?thesis using Cons True by (simp add: set_insertBy)
  next
    case False
    then have "\<not> lt z x" if "z \<in> set ys" for z
      using Cons.prems that assms(3) unfolding transp_def by (metis list.set_intros(2) sorted_wrt.simps(2))
    then show ?thesis using Cons.prems False by simp
  qed
qed simp

lemma sortBy_sorts: "sorts_slices sortBy"
proof -
  have "mset (sortBy lt xs) = mset xs" for lt :: "pod \<Rightarrow> pod \<Rightarrow> bool" and xs
    by (induction xs) (simp_all add: sortBy_def mset_insertBy)
  moreover have "sorted_wrt (\<lambda>x y. \<not> lt y x) (sortBy lt xs)"
    if "transp lt" "irreflp lt" "transp (\<lambda>x y. \<not> lt y x)" for lt :: "pod \<Rightarrow> pod \<Rightarrow> bool" and xs
    by (induction xs) (use that sorted_insertBy in \<open>auto simp: sortBy_def\<close>)
  ultimately show ?thesis unfolding sorts_slices_def by blast
qed

lemma queue_sorted:
  assumes "sorts_slices sorter"
  shows "mset (sorter (byCPUAndMemoryDescending podRequests) ps) = mset ps \<and>
    sorted (map (queueKey podRequests) (sorter (byCPUAndMemoryDescending podRequests) ps))"
proof -
  let ?less = "byCPUAndMemoryDescending podRequests"
  have "transp ?less" "irreflp ?less" "transp (\<lambda>x y. \<not> ?less y x)"
    by (auto simp: byCPU_iff_key transp_def irreflp_def)
  then have "mset (sorter ?less ps) = mset ps" "sorted_wrt (\<lambda>x y. \<not> ?less y x) (sorter ?less ps)"
    using assms unfolding sorts_slices_def by blast+
  then show ?thesis by (simp add: sorted_wrt_map byCPU_iff_key not_less)
qed

lemma queueKey_uid: "queueKey r p = queueKey r p' \<Longrightarrow> podUID p = podUID p'"
  by (simp add: queueKey_def Let_def)

lemma sorted_queue_unique:
  assumes "mset xs = mset ys" "sorted (map (queueKey r) xs)" "sorted (map (queueKey r) ys)"
    and "distinct (map podUID xs)"
  shows "xs = ys"
proof -
  have sets: "set xs = set ys" using assms(1) by (metis set_mset_mset)
  have "mset (map (queueKey r) xs) = mset (map (queueKey r) ys)" using assms(1) by simp
  then have "sort (map (queueKey r) ys) = map (queueKey r) xs"
    using assms(2) by (rule properties_for_sort)
  then have "map (queueKey r) xs = map (queueKey r) ys" using assms(3) by (simp add: sort_key_id_if_sorted)
  moreover have "inj_on (queueKey r) (set xs)"
  proof (rule inj_onI)
    fix x y assume xy: "x \<in> set xs" "y \<in> set xs" "queueKey r x = queueKey r y"
    have "inj_on podUID (set xs)" using assms(4) by (simp add: distinct_map)
    then show "x = y" using xy(1,2) queueKey_uid [OF xy(3)] by (simp add: inj_on_def)
  qed
  ultimately show ?thesis using sets by (metis inj_on_map_eq_map sup.idem)
qed

section \<open>Properties\<close>

text \<open>Two pods of which the second can be placed only after the first; a third that never fits.
  The state is the list of placed pods.\<close>

definition exampleAttempt :: "pod \<Rightarrow> string list \<Rightarrow> string option \<times> string list" where
  "exampleAttempt p placed =
     (if podUID p = ''a'' \<or> podUID p = ''b'' \<and> ''a'' \<in> set placed then (None, placed @ [podUID p])
      else (Some ''unschedulable'', placed))"

definition exampleQueue :: queue where
  "exampleQueue = \<lparr> qPods = [emptyPod ''b'', emptyPod ''c'', emptyPod ''a''], lastLen = [] \<rparr>"

definition exampleRequests :: "(string, int resource_list) gomap" where
  "exampleRequests = [(''a'', [(ResourceCPU, 2)]), (''b'', [(ResourceCPU, 1)])]"

text \<open>
  C12. The loop of \<^verbatim>\<open>Solve\<close> terminates and accounts for every pod. For a queue of n pods with
  distinct UIDs and as long as no deadline is hit, there is a log of attempts that explains the
  result: at most n(n+1)/2 attempts were made; every pod was either placed exactly once or is
  still queued; the pods with an error are exactly the queued ones; and the log ends with one
  failed attempt of each queued pod, so none of them was given up before it failed again after
  the last placement.
\<close>
theorem solve_accounts_for_every_pod:
  assumes "distinct (map podUID ps)"
    and "\<And>p s e s'. attempt p s = (Some e, s') \<Longrightarrow> \<not> deadline e"
    and "solveLoop attempt deadline refresh \<lparr> qPods = ps, lastLen = [] \<rparr> [] s = (q, errs, s')"
  shows "\<exists>l. solveLoop (logged attempt) deadline (silent refresh) \<lparr> qPods = ps, lastLen = [] \<rparr> [] (s, []) =
      (q, errs, s', l) \<and>
    length l \<le> length ps * (length ps + 1) div 2 \<and>
    mset ps = mset (qPods q) + mset (map fst (filter snd l)) \<and>
    (\<forall>uid. map_of errs uid = None \<longleftrightarrow> uid \<notin> podUID ` set (qPods q)) \<and>
    (\<exists>pre. l = pre @ map (\<lambda>p. (p, False)) (qPods q))"
proof -
  let ?q = "\<lparr> qPods = ps, lastLen = [] \<rparr>"
  obtain q1 errs1 s1 l where run:
    "solveLoop (logged attempt) deadline (silent refresh) ?q [] (s, []) = (q1, errs1, s1, l)"
    by (metis prod_cases4)
  have same: "q1 = q" "errs1 = errs" "s1 = s'"
    using assms(3) solveLoop_logged [of attempt deadline refresh ?q "[]" s "[]"] run by simp_all
  have inv: "solve_inv ps q errs l" and stop: "Pop q = None" and len: "length l + potential q \<le> potential ?q"
    using solveLoop_inv [OF solve_inv_start [OF assms(1)] assms(2) run] by (simp_all add: same)
  have "length l \<le> length ps * (length ps + 1) div 2"
    using len potential_bound [of ?q] by simp
  moreover have "mset ps = mset (qPods q) + mset (map fst (filter snd l))"
    using inv by (simp add: solve_inv_def)
  ultimately show ?thesis using run solve_inv_stop [OF inv stop] unfolding same by blast
qed

theorem solve_accounts_for_every_pod_witness:
  "\<exists>q errs l. solveLoop (logged exampleAttempt) (\<lambda>e. False) (silent (\<lambda>p s. s)) exampleQueue [] ([], []) =
     (q, errs, [''a'', ''b''], l) \<and> length l \<le> 6"
proof -
  obtain q errs where run: "solveLoop exampleAttempt (\<lambda>e. False) (\<lambda>p s. s) exampleQueue [] [] =
      (q, errs, [''a'', ''b''])"
  proof -
    have "snd (snd (solveLoop exampleAttempt (\<lambda>e. False) (\<lambda>p s. s) exampleQueue [] [])) = [''a'', ''b'']"
      by code_simp
    then show ?thesis using that by (metis prod.collapse)
  qed
  have "distinct (map podUID [emptyPod ''b'', emptyPod ''c'', emptyPod ''a''])" by (simp add: emptyPod_def)
  from solve_accounts_for_every_pod [OF this _ run [unfolded exampleQueue_def]]
  show ?thesis unfolding exampleQueue_def by auto
qed

text \<open>
  The scheduling order is deterministic: \<^verbatim>\<open>NewQueue\<close> orders pods by descending CPU, then descending
  memory, then creation time and UID, and for pods with distinct UIDs the resulting queue depends
  neither on the order in which they were passed nor on which sorting algorithm is used.
\<close>
theorem NewQueue_order_is_deterministic:
  assumes "sorts_slices sorter" "sorts_slices sorter'" "distinct (map podUID ps)" "mset ps = mset ps'"
    and "NewQueue sorter ps podRequests = Some q"
  shows "NewQueue sorter' ps' podRequests = Some q \<and> mset (qPods q) = mset ps \<and>
    sorted (map (queueKey podRequests) (qPods q))"
proof -
  let ?less = "byCPUAndMemoryDescending podRequests"
  note s = queue_sorted [OF assms(1), of podRequests ps] and s' = queue_sorted [OF assms(2), of podRequests ps']
  have "mset (map podUID (sorter ?less ps)) = mset (map podUID ps)" using s by (simp add: mset_map)
  then have "distinct (map podUID (sorter ?less ps))" using assms(3) by (metis mset_eq_imp_distinct_iff)
  then have eq: "sorter ?less ps = sorter' ?less ps'"
    using s s' assms(4) by (intro sorted_queue_unique [of _ _ podRequests]) simp_all
  have "length ps' = length ps" "set ps' = set ps"
    using assms(4) by (metis mset_eq_length, metis set_mset_mset)
  then show ?thesis
    using assms(5) eq s by (auto simp: NewQueue_def list_ex_iff split: if_splits)
qed

theorem NewQueue_order_is_deterministic_witness:
  "\<exists>q. NewQueue sortBy [emptyPod ''b'', emptyPod ''a''] exampleRequests = Some q \<and>
     NewQueue sortBy [emptyPod ''a'', emptyPod ''b''] exampleRequests = Some q \<and>
     qPods q = [emptyPod ''a'', emptyPod ''b'']"
proof -
  let ?q = "\<lparr> qPods = [emptyPod ''a'', emptyPod ''b''], lastLen = [] \<rparr>"
  have run: "NewQueue sortBy [emptyPod ''b'', emptyPod ''a''] exampleRequests = Some ?q" by code_simp
  have "distinct (map podUID [emptyPod ''b'', emptyPod ''a''])" by (simp add: emptyPod_def)
  from NewQueue_order_is_deterministic [OF sortBy_sorts sortBy_sorts this _ run]
  show ?thesis using run by (simp add: add_mset_commute)
qed

end
