(* ===== verification/TopologyGroup.thy ===== *)
theory TopologyGroup
  imports Requirements Taints
begin

text \<open>
  \<^verbatim>\<open>topologydomaingroup.go\<close>, \<^verbatim>\<open>topologynodefilter.go\<close> and \<^verbatim>\<open>topologygroup.go\<close> of
  \<^verbatim>\<open>pkg/controllers/provisioning/scheduling\<close>: the domains of a topology key, the nodes that count for
  a spread constraint, and the pod counts per domain that decide where a pod may go next.

  Parameters: \<open>tt\<close> is \<^verbatim>\<open>Toleration.ToleratesTaint\<close>; \<open>sel\<close> tells whether a label selector matches
  labels (\<^verbatim>\<open>LabelSelectorAsSelector\<close>, with no match on an error, and \<^verbatim>\<open>Selector.Matches\<close>); \<open>enum\<close> lists a
  set in the order of \<^verbatim>\<open>UnsortedList\<close>. A \<^verbatim>\<open>range\<close> over a map follows the order of its association
  list. Counts are 32-bit. A policy of \<open>None\<close> is the zero value of \<^verbatim>\<open>NodeInclusionPolicy\<close>.
\<close>

section \<open>Domain groups\<close>

type_synonym topology_domain_group = "(string, taint list list) gomap"

definition NewTopologyDomainGroup :: topology_domain_group where
  "NewTopologyDomainGroup = []"

definition InsertDomain :: "string \<Rightarrow> taint list \<Rightarrow> topology_domain_group \<Rightarrow> topology_domain_group" where
  "InsertDomain domain taints t =
     (case map_of t domain of
        None \<Rightarrow> AList.update domain [taints] t
      | Some sets \<Rightarrow>
          if length taints = 0 then AList.update domain [taints] t
          else if length (sets ! 0) = 0 then t
          else AList.update domain (sets @ [taints]) t)"

text \<open>The domains on which \<^verbatim>\<open>ForEachDomain\<close> calls its argument, in order.\<close>

definition ForEachDomain ::
  "(toleration \<Rightarrow> taint \<Rightarrow> bool) \<Rightarrow> topology_domain_group \<Rightarrow> pod \<Rightarrow> inclusion_policy option \<Rightarrow> string list" where
  "ForEachDomain tt t p taintHonorPolicy =
     map fst (filter (\<lambda>(domain, taintGroups).
       taintHonorPolicy = Some PolicyIgnore \<or>
       list_ex (\<lambda>taints. ToleratesPod tt taints p = []) taintGroups) t)"

section \<open>Node filter\<close>

record topology_node_filter =
  tnfRequirements :: "requirements list"
  TaintPolicy :: "inclusion_policy option"
  AffinityPolicy :: "inclusion_policy option"
  tnfTolerations :: "toleration list"

definition zeroNodeFilter :: topology_node_filter where
  "zeroNodeFilter =
     \<lparr> tnfRequirements = [], TaintPolicy = None, AffinityPolicy = None, tnfTolerations = [] \<rparr>"

definition MakeTopologyNodeFilter ::
  "pod \<Rightarrow> inclusion_policy option \<Rightarrow> inclusion_policy option \<Rightarrow> topology_node_filter option" where
  "MakeTopologyNodeFilter p taintPolicy affinityPolicy =
     (let nodeSelectorRequirements = NewLabelRequirements (nodeSelector p);
          make = (\<lambda>rs. \<lparr> tnfRequirements = rs, TaintPolicy = taintPolicy,
                          AffinityPolicy = affinityPolicy, tnfTolerations = tolerations p \<rparr>);
          required = (case podAffinityField p of None \<Rightarrow> None
                      | Some a \<Rightarrow> (case nodeAffinity a of None \<Rightarrow> None | Some na \<Rightarrow> requiredNodeTerms na))
      in case required of
           None \<Rightarrow> Some (make [nodeSelectorRequirements])
         | Some terms \<Rightarrow>
             map_option make (sequence_opt (map (\<lambda>term.
               add_term (matchExpressions term) (Add (reqValues nodeSelectorRequirements) (NewRequirements []))) terms)))"

definition matchesRequirements :: "topology_node_filter \<Rightarrow> requirements \<Rightarrow> string list \<Rightarrow> bool" where
  "matchesRequirements t requirements allowUndefined =
     (if length (tnfRequirements t) = 0 \<or> AffinityPolicy t = Some PolicyIgnore then True
      else list_ex (\<lambda>req. Compatible requirements req allowUndefined = None) (tnfRequirements t))"

text \<open>\<^verbatim>\<open>Matches\<close> does not pass its compatibility options on.\<close>

definition MatchesFilter ::
  "(toleration \<Rightarrow> taint \<Rightarrow> bool) \<Rightarrow> topology_node_filter \<Rightarrow> taint list \<Rightarrow> requirements \<Rightarrow> string list \<Rightarrow> bool" where
  "MatchesFilter tt t taints requirements allowUndefined =
     (let matchesAffinity = (if AffinityPolicy t = Some PolicyHonor then matchesRequirements t requirements [] else True);
          matchesTaints = (if TaintPolicy t = Some PolicyHonor
                           then Tolerates tt taints (tnfTolerations t) = [] else True)
      in matchesAffinity \<and> matchesTaints)"

section \<open>Topology groups\<close>

datatype topology_type = TopologyTypeSpread | TopologyTypePodAffinity | TopologyTypePodAntiAffinity

record topology_group =
  tgKey :: string
  tgType :: topology_type
  maxSkew :: int
  minDomains :: "int option"
  namespaces :: "string set"
  rawSelector :: "label_selector option"
  nodeFilter :: topology_node_filter
  owners :: "string set"
  domains :: "(string, int) gomap"
  emptyDomains :: "string set"

type_synonym selects_labels = "label_selector option \<Rightarrow> (string, string) gomap \<Rightarrow> bool"

definition selects :: "selects_labels \<Rightarrow> topology_group \<Rightarrow> pod \<Rightarrow> bool" where
  "selects sel t p \<longleftrightarrow> podNamespace p \<in> namespaces t \<and> sel (rawSelector t) (podLabels p)"

definition NewTopologyGroup ::
  "(toleration \<Rightarrow> taint \<Rightarrow> bool) \<Rightarrow> topology_type \<Rightarrow> string \<Rightarrow> pod \<Rightarrow> string set \<Rightarrow> label_selector option \<Rightarrow>
   int \<Rightarrow> int option \<Rightarrow> inclusion_policy option \<Rightarrow> inclusion_policy option \<Rightarrow> topology_domain_group \<Rightarrow>
   topology_group option" where
  "NewTopologyGroup tt topologyType topologyKey p ns labelSelector skew minDoms taintPolicy affinityPolicy domainGroup =
     (let nodeTaintsPolicy = (case taintPolicy of Some x \<Rightarrow> x | None \<Rightarrow> PolicyIgnore);
          nodeAffinityPolicy = (case affinityPolicy of Some x \<Rightarrow> x | None \<Rightarrow> PolicyHonor)
      in case (if topologyType = TopologyTypeSpread
               then MakeTopologyNodeFilter p (Some nodeTaintsPolicy) (Some nodeAffinityPolicy)
               else Some zeroNodeFilter) of
           None \<Rightarrow> None
         | Some flt \<Rightarrow>
             let ds = ForEachDomain tt domainGroup p (TaintPolicy flt)
             in Some \<lparr> tgKey = topologyKey, tgType = topologyType, maxSkew = skew, minDomains = minDoms,
                       namespaces = ns, rawSelector = labelSelector, nodeFilter = flt, owners = {},
                       domains = fold (\<lambda>d m. AList.update d 0 m) ds [], emptyDomains = set ds \<rparr>)"

definition RecordDomains :: "string list \<Rightarrow> topology_group \<Rightarrow> topology_group" where
  "RecordDomains ds t =
     fold (\<lambda>d t. t \<lparr> domains := AList.update d (wrap32 (get_or 0 (domains t) d + 1)) (domains t),
                     emptyDomains := emptyDomains t - {d} \<rparr>) ds t"

definition Counts ::
  "(toleration \<Rightarrow> taint \<Rightarrow> bool) \<Rightarrow> selects_labels \<Rightarrow> topology_group \<Rightarrow> pod \<Rightarrow> taint list \<Rightarrow> requirements \<Rightarrow>
   string list \<Rightarrow> bool" where
  "Counts tt sel t p taints requirements allowUndefined \<longleftrightarrow>
     selects sel t p \<and> MatchesFilter tt (nodeFilter t) taints requirements allowUndefined"

definition RegisterDomains :: "string list \<Rightarrow> topology_group \<Rightarrow> topology_group" where
  "RegisterDomains ds t =
     fold (\<lambda>d t. if map_of (domains t) d = None
                 then t \<lparr> domains := AList.update d 0 (domains t), emptyDomains := insert d (emptyDomains t) \<rparr>
                 else t) ds t"

definition UnregisterDomains :: "string list \<Rightarrow> topology_group \<Rightarrow> topology_group" where
  "UnregisterDomains ds t =
     fold (\<lambda>d t. t \<lparr> domains := AList.delete d (domains t), emptyDomains := emptyDomains t - {d} \<rparr>) ds t"

definition AddOwner :: "string \<Rightarrow> topology_group \<Rightarrow> topology_group" where
  "AddOwner key t = t \<lparr> owners := insert key (owners t) \<rparr>"

definition RemoveOwner :: "string \<Rightarrow> topology_group \<Rightarrow> topology_group" where
  "RemoveOwner key t = t \<lparr> owners := owners t - {key} \<rparr>"

definition tgIsOwnedBy :: "topology_group \<Rightarrow> string \<Rightarrow> bool" where
  "tgIsOwnedBy t key \<longleftrightarrow> key \<in> owners t"

subsection \<open>The next domain\<close>

definition domainMinCount :: "topology_group \<Rightarrow> requirement \<Rightarrow> int" where
  "domainMinCount t podDomains =
     (if tgKey t = LabelHostname then 0
      else let (mn, supported) =
                 fold (\<lambda>(domain, c) (mn, n).
                         if Has podDomains domain then (if c < mn then c else mn, wrap32 (n + 1)) else (mn, n))
                   (domains t) (MaxInt32, 0)
           in case minDomains t of
                Some m \<Rightarrow> if supported < m then 0 else mn
              | None \<Rightarrow> mn)"

text \<open>One candidate of the search for the least count: the domain, its count and the global
  minimum; the state is the best domain, its count and the valid domains.\<close>

definition considerDomain ::
  "bool \<Rightarrow> int \<Rightarrow> int \<Rightarrow> string \<times> int \<Rightarrow> string \<times> int \<times> string set \<Rightarrow> string \<times> int \<times> string set" where
  "considerDomain selfSelecting mn skew = (\<lambda>(domain, c) (minDomain, minCount, valid).
     let c' = (if selfSelecting then wrap32 (c + 1) else c)
     in if wrap32 (c' - mn) \<le> skew
        then (if c' < minCount then (domain, c', insert domain valid) else (minDomain, minCount, insert domain valid))
        else (minDomain, minCount, valid))"

definition spreadCandidates ::
  "(string set \<Rightarrow> string list) \<Rightarrow> topology_group \<Rightarrow> requirement \<Rightarrow> (string \<times> int) list" where
  "spreadCandidates enum t nodeDomains =
     (if Operator nodeDomains = OpIn
      then List.map_filter (\<lambda>d. map_option (Pair d) (map_of (domains t) d)) (enum (valueSet nodeDomains))
      else filter (\<lambda>(d, _). Has nodeDomains d) (domains t))"

definition nextDomainTopologySpread ::
  "selects_labels \<Rightarrow> (string set \<Rightarrow> string list) \<Rightarrow> topology_group \<Rightarrow> pod \<Rightarrow> requirement \<Rightarrow> requirement \<Rightarrow>
   requirement \<times> string set" where
  "nextDomainTopologySpread sel enum t p podDomains nodeDomains =
     (let mn = domainMinCount t podDomains; selfSelecting = selects sel t p
      in if tgKey t = LabelHostname \<and> card (valueSet nodeDomains) = 1
         then let hostName = enum (valueSet nodeDomains) ! 0;
                  c = get_or 0 (domains t) hostName;
                  c' = (if selfSelecting then wrap32 (c + 1) else c)
              in if c' \<le> maxSkew t then (reqIn (tgKey t) [hostName], {hostName})
                 else (reqDoesNotExist (tgKey t), {})
         else let (minDomain, minCount, valid) =
                    fold (considerDomain selfSelecting mn (maxSkew t)) (spreadCandidates enum t nodeDomains)
                      ([], MaxInt32, {})
              in if minDomain = [] then (reqDoesNotExist (tgKey t), valid)
                 else (reqIn (tgKey t) [minDomain], valid))"

definition anyCompatiblePodDomain :: "topology_group \<Rightarrow> requirement \<Rightarrow> bool" where
  "anyCompatiblePodDomain t podDomains =
     list_ex (\<lambda>(d, c). Has podDomains d \<and> c > 0) (domains t)"

text \<open>\<^verbatim>\<open>options.Insert\<close> of the first domain that passes a test, the loops that end with \<^verbatim>\<open>break\<close>.\<close>

definition insertFirst :: "(string \<Rightarrow> bool) \<Rightarrow> (string, int) gomap \<Rightarrow> requirement \<Rightarrow> requirement" where
  "insertFirst test ds r =
     (case find test (map fst ds) of None \<Rightarrow> r | Some d \<Rightarrow> Insert [d] r)"

definition bootstraps :: "selects_labels \<Rightarrow> topology_group \<Rightarrow> pod \<Rightarrow> requirement \<Rightarrow> bool" where
  "bootstraps sel t p podDomains \<longleftrightarrow>
     selects sel t p \<and> (length (domains t) = card (emptyDomains t) \<or> \<not> anyCompatiblePodDomain t podDomains)"

definition nextDomainAffinity ::
  "selects_labels \<Rightarrow> (string set \<Rightarrow> string list) \<Rightarrow> topology_group \<Rightarrow> pod \<Rightarrow> requirement \<Rightarrow> requirement \<Rightarrow> requirement" where
  "nextDomainAffinity sel enum t p podDomains nodeDomains =
     (let opts = reqDoesNotExist (tgKey t)
      in if tgKey t = LabelHostname \<and> card (valueSet nodeDomains) = 1
         then let hostName = enum (valueSet nodeDomains) ! 0
              in if \<not> Has podDomains hostName then opts
                 else if get_or 0 (domains t) hostName > 0 then Insert [hostName] opts
                 else if bootstraps sel t p podDomains then Insert [hostName] opts
                 else opts
         else let found = (if Operator nodeDomains = OpIn
                           then filter (\<lambda>d. Has podDomains d \<and> get_or 0 (domains t) d > 0) (enum (valueSet nodeDomains))
                           else filter (\<lambda>d. Has podDomains d \<and> get_or 0 (domains t) d > 0 \<and> Has nodeDomains d)
                                  (map fst (domains t)));
                  opts1 = Insert found opts
              in if Len opts1 \<noteq> 0 then opts1
                 else if bootstraps sel t p podDomains
                 then let intersected = Intersection podDomains nodeDomains
                      in insertFirst (Has podDomains) (domains t)
                           (insertFirst (Has intersected) (domains t) opts1)
                 else opts1)"

definition nextDomainAntiAffinity ::
  "(string set \<Rightarrow> string list) \<Rightarrow> topology_group \<Rightarrow> requirement \<Rightarrow> requirement \<Rightarrow> requirement" where
  "nextDomainAntiAffinity enum t podDomains nodeDomains =
     (let opts = reqDoesNotExist (tgKey t)
      in if tgKey t = LabelHostname \<and> card (valueSet nodeDomains) = 1
         then let hostName = enum (valueSet nodeDomains) ! 0
              in if get_or 0 (domains t) hostName = 0 then Insert [hostName] opts else opts
         else if Operator nodeDomains = OpIn \<and> Len nodeDomains < int (card (emptyDomains t))
         then Insert (filter (\<lambda>d. d \<in> emptyDomains t \<and> Has podDomains d) (enum (valueSet nodeDomains))) opts
         else Insert (filter (\<lambda>d. Has nodeDomains d \<and> Has podDomains d) (enum (emptyDomains t))) opts)"

definition GetDomains ::
  "selects_labels \<Rightarrow> (string set \<Rightarrow> string list) \<Rightarrow> topology_group \<Rightarrow> pod \<Rightarrow> requirement \<Rightarrow> requirement \<Rightarrow>
   requirement \<times> string set" where
  "GetDomains sel enum t p podDomains nodeDomains =
     (case tgType t of
        TopologyTypeSpread \<Rightarrow> nextDomainTopologySpread sel enum t p podDomains nodeDomains
      | TopologyTypePodAffinity \<Rightarrow>
          let req = nextDomainAffinity sel enum t p podDomains nodeDomains in (req, valueSet req)
      | TopologyTypePodAntiAffinity \<Rightarrow>
          let req = nextDomainAntiAffinity enum t podDomains nodeDomains in (req, valueSet req))"

section \<open>Invariant\<close>

text \<open>No count exceeds the number \<open>n\<close> of recorded pods, and the empty domains are those with count
  zero.\<close>

definition tg_ok :: "int \<Rightarrow> topology_group \<Rightarrow> bool" where
  "tg_ok n t \<longleftrightarrow> gomap_wf (domains t) \<and>
     (\<forall>d. d \<in> emptyDomains t \<longleftrightarrow> map_of (domains t) d = Some 0) \<and>
     (\<forall>d c. map_of (domains t) d = Some c \<longrightarrow> 0 \<le> c \<and> c \<le> n)"

lemma tg_okD:
  assumes "tg_ok n t"
  shows "gomap_wf (domains t)" "d \<in> emptyDomains t \<longleftrightarrow> map_of (domains t) d = Some 0"
    and "map_of (domains t) d = Some c \<Longrightarrow> 0 \<le> c \<and> c \<le> n"
  using assms by (simp_all add: tg_ok_def)

lemma tg_ok_mono: "tg_ok n t \<Longrightarrow> n \<le> m \<Longrightarrow> tg_ok m t"
  by (force simp: tg_ok_def)

lemma Record1_ok:
  assumes "tg_ok n t" "0 \<le> n" "n < MaxInt32"
  shows "tg_ok (n + 1) (t \<lparr> domains := AList.update d (wrap32 (get_or 0 (domains t) d + 1)) (domains t),
                          emptyDomains := emptyDomains t - {d} \<rparr>)"
proof -
  have c: "0 \<le> get_or 0 (domains t) d \<and> get_or 0 (domains t) d \<le> n"
    using tg_okD(3) [OF assms(1), of d] assms(2) by (auto simp: get_or_def split: option.split)
  then have "wrap32 (get_or 0 (domains t) d + 1) = get_or 0 (domains t) d + 1"
    using assms(3) by (intro wrap32_id) simp_all
  then show ?thesis
    using assms(1) c by (force simp: tg_ok_def gomap_simps)
qed

lemma RecordDomains_ok:
  assumes "tg_ok n t" "0 \<le> n" "n + int (length ds) \<le> MaxInt32"
  shows "tg_ok (n + int (length ds)) (RecordDomains ds t)"
  using assms
proof (induction ds arbitrary: n t)
  case (Cons d ds)
  have "tg_ok (n + 1 + int (length ds)) (RecordDomains ds (t \<lparr> domains :=
      AList.update d (wrap32 (get_or 0 (domains t) d + 1)) (domains t), emptyDomains := emptyDomains t - {d} \<rparr>))"
    by (rule Cons.IH [OF Record1_ok]) (use Cons.prems in simp_all)
  then show ?case by (simp add: RecordDomains_def add.assoc)
qed (simp add: RecordDomains_def)

lemma RegisterDomains_ok:
  assumes "tg_ok n t" "0 \<le> n" shows "tg_ok n (RegisterDomains ds t)"
  using assms
proof (induction ds arbitrary: t)
  case (Cons d ds)
  let ?t = "if map_of (domains t) d = None
    then t \<lparr> domains := AList.update d 0 (domains t), emptyDomains := insert d (emptyDomains t) \<rparr> else t"
  have "tg_ok n ?t" using Cons.prems by (auto simp: tg_ok_def gomap_simps)
  then have "tg_ok n (RegisterDomains ds ?t)" using Cons by blast
  then show ?case by (simp add: RegisterDomains_def)
qed (simp add: RegisterDomains_def)

lemma UnregisterDomains_ok:
  assumes "tg_ok n t" shows "tg_ok n (UnregisterDomains ds t)"
  using assms
proof (induction ds arbitrary: t)
  case (Cons d ds)
  let ?t = "t \<lparr> domains := AList.delete d (domains t), emptyDomains := emptyDomains t - {d} \<rparr>"
  have "tg_ok n ?t" using Cons.prems by (auto simp: tg_ok_def gomap_simps)
  then have "tg_ok n (UnregisterDomains ds ?t)" using Cons by blast
  then show ?case by (simp add: UnregisterDomains_def)
qed (simp add: UnregisterDomains_def)

lemma owner_ok:
  "tg_ok n (AddOwner k t) = tg_ok n t" "tg_ok n (RemoveOwner k t) = tg_ok n t"
  by (simp_all add: tg_ok_def AddOwner_def RemoveOwner_def)

lemma map_of_fold_zero:
  "map_of (fold (\<lambda>d m. AList.update d (0::int) m) ds m) d = (if d \<in> set ds then Some 0 else map_of m d)"
  by (induction ds arbitrary: m) (auto simp: gomap_simps)

lemma gomap_wf_fold_zero: "gomap_wf m \<Longrightarrow> gomap_wf (fold (\<lambda>d m. AList.update d (0::int) m) ds m)"
  by (induction ds arbitrary: m) auto

lemma NewTopologyGroup_ok:
  assumes "NewTopologyGroup tt ty key p ns s skew md tp ap dg = Some t"
  shows "tg_ok 0 t"
proof -
  have "gomap_wf (fold (\<lambda>d m. AList.update d (0::int) m) ds [])" for ds
    by (rule gomap_wf_fold_zero) (simp add: gomap_wf_def)
  then show ?thesis
    using assms
    by (auto simp: NewTopologyGroup_def Let_def tg_ok_def map_of_fold_zero split: option.splits if_splits)
qed

section \<open>The least count\<close>

definition supportedCounts :: "topology_group \<Rightarrow> requirement \<Rightarrow> int set" where
  "supportedCounts t podDomains = {c. \<exists>d. map_of (domains t) d = Some c \<and> Has podDomains d}"

definition supportedDomains :: "topology_group \<Rightarrow> requirement \<Rightarrow> string set" where
  "supportedDomains t podDomains = {d. map_of (domains t) d \<noteq> None \<and> Has podDomains d}"

definition globalMin :: "topology_group \<Rightarrow> requirement \<Rightarrow> int" where
  "globalMin t podDomains =
     (case minDomains t of
        Some m \<Rightarrow> if int (card (supportedDomains t podDomains)) < m then 0
                  else Min (insert MaxInt32 (supportedCounts t podDomains))
      | None \<Rightarrow> Min (insert MaxInt32 (supportedCounts t podDomains)))"

lemma Min_insert_min:
  fixes A :: "int set"
  shows "finite A \<Longrightarrow> Min (insert (min a b) A) = Min (insert a (insert b A))"
  by (cases "A = {}") (simp_all add: min.assoc)

lemma map_filter_lookup:
  "(d, c) \<in> set (List.map_filter (\<lambda>d. map_option (Pair d) (f d)) xs) \<longleftrightarrow> d \<in> set xs \<and> f d = Some c"
  by (induction xs) (auto simp: List.map_filter_simps split: option.split)

lemma min_count_fold:
  fixes mn :: int
  assumes "0 \<le> n" "n + int (length ds) \<le> MaxInt32"
  shows "fold (\<lambda>(domain, c) (mn, n). if Has r domain then (if c < mn then c else mn, wrap32 (n + 1)) else (mn, n))
      ds (mn, n) =
    (Min (insert mn (snd ` {x \<in> set ds. Has r (fst x)})), n + int (length (filter (\<lambda>x. Has r (fst x)) ds)))"
  using assms
proof (induction ds arbitrary: mn n)
  case (Cons x ds)
  obtain d c where x: "x = (d, c)" by (cases x)
  have w: "wrap32 (n + 1) = n + 1" using Cons.prems by (intro wrap32_id) simp_all
  have split: "{y \<in> set (x # ds). Has r (fst y)} =
      (if Has r d then insert (d, c) {y \<in> set ds. Has r (fst y)} else {y \<in> set ds. Has r (fst y)})"
    by (auto simp: x)
  let ?A = "snd ` {y \<in> set ds. Has r (fst y)}"
  have if_min: "(if c < mn then c else mn) = min mn c" by (simp add: min_def)
  have least: "Min (insert (if c < mn then c else mn) ?A) = Min (insert mn (insert c ?A))"
    unfolding if_min by (rule Min_insert_min) simp
  show ?case
  proof (cases "Has r d")
    case True
    have "snd ` {y \<in> set (x # ds). Has r (fst y)} = insert c ?A" using True unfolding split by simp
    then show ?thesis using Cons.IH [of "n + 1"] Cons.prems True w least by (simp add: x)
  next
    case False
    have "snd ` {y \<in> set (x # ds). Has r (fst y)} = ?A" using False unfolding split by simp
    then show ?thesis using Cons.IH [of n] Cons.prems False by (simp add: x)
  qed
qed simp

lemma domainMinCount_eq:
  assumes "gomap_wf (domains t)" "int (length (domains t)) \<le> MaxInt32" "tgKey t \<noteq> LabelHostname"
  shows "domainMinCount t podDomains = globalMin t podDomains"
proof -
  let ?S = "{x \<in> set (domains t). Has podDomains (fst x)}"
  have counts: "snd ` ?S = supportedCounts t podDomains"
    by (force simp: supportedCounts_def in_gomap_iff [OF assms(1), symmetric])
  have "fst ` ?S = supportedDomains t podDomains"
    by (force simp: supportedDomains_def in_gomap_iff [OF assms(1), symmetric] keys_iff_map_of [symmetric])
  moreover have "distinct (map fst (filter (\<lambda>x. Has podDomains (fst x)) (domains t)))"
    using assms(1) by (simp add: gomap_wf_def distinct_map_filter)
  then have "length (filter (\<lambda>x. Has podDomains (fst x)) (domains t)) =
      card (fst ` set (filter (\<lambda>x. Has podDomains (fst x)) (domains t)))"
    by (metis distinct_card length_map list.set_map)
  ultimately have n: "length (filter (\<lambda>x. Has podDomains (fst x)) (domains t)) =
      card (supportedDomains t podDomains)" by simp
  show ?thesis
    unfolding domainMinCount_def globalMin_def
    using assms(3) min_count_fold [of 0 "domains t" podDomains MaxInt32] assms(2)
    by (simp add: counts n split: option.split)
qed

lemma globalMin_le:
  assumes "tg_ok n t" "map_of (domains t) d = Some c" "Has podDomains d"
  shows "globalMin t podDomains \<le> c"
proof -
  have c: "c \<in> supportedCounts t podDomains" "0 \<le> c"
    using assms tg_okD(3) by (auto simp: supportedCounts_def)
  have "supportedCounts t podDomains \<subseteq> snd ` set (domains t)"
    by (auto simp: supportedCounts_def dest!: map_of_SomeD) (metis image_eqI snd_conv)
  then have "finite (supportedCounts t podDomains)" by (rule finite_subset) simp
  then have "Min (insert MaxInt32 (supportedCounts t podDomains)) \<le> c" using c(1) by (intro Min_le) simp_all
  then show ?thesis using c(2) by (simp add: globalMin_def split: option.split)
qed

lemma globalMin_range:
  assumes "tg_ok n t"
  shows "0 \<le> globalMin t podDomains \<and> globalMin t podDomains \<le> MaxInt32"
proof -
  have "supportedCounts t podDomains \<subseteq> snd ` set (domains t)"
    by (auto simp: supportedCounts_def dest!: map_of_SomeD) (metis image_eqI snd_conv)
  then have fin: "finite (supportedCounts t podDomains)" by (rule finite_subset) simp
  moreover have "\<forall>c \<in> supportedCounts t podDomains. 0 \<le> c"
    using tg_okD(3) [OF assms] by (auto simp: supportedCounts_def)
  ultimately have "0 \<le> Min (insert MaxInt32 (supportedCounts t podDomains))"
    by (simp add: MaxInt32_def)
  moreover have "Min (insert MaxInt32 (supportedCounts t podDomains)) \<le> MaxInt32" using fin by simp
  ultimately show ?thesis by (simp add: globalMin_def MaxInt32_def split: option.split)
qed

definition inc :: "bool \<Rightarrow> int \<Rightarrow> int" where
  "inc self c = (if self then c + 1 else c)"

lemma considerDomain_eq:
  assumes "0 \<le> c" "c < MaxInt32" "0 \<le> mn" "mn \<le> MaxInt32"
  shows "considerDomain self mn skew (d, c) (md, mc, V) =
    (if inc self c - mn \<le> skew
     then (if inc self c < mc then (d, inc self c, insert d V) else (md, mc, insert d V))
     else (md, mc, V))"
proof -
  have "wrap32 (c + 1) = c + 1" using assms by (intro wrap32_id) simp_all
  moreover have "wrap32 (inc self c - mn) = inc self c - mn"
    using assms by (intro wrap32_id) (simp_all add: inc_def MaxInt32_def)
  ultimately show ?thesis by (cases self) (simp_all add: considerDomain_def inc_def Let_def)
qed

lemma consider_fold:
  assumes "\<forall>(d, c) \<in> set cs. 0 \<le> c \<and> c < MaxInt32" "0 \<le> mn" "mn \<le> MaxInt32"
    and "fold (considerDomain self mn skew) cs (md, mc, V) = (md', mc', V')"
  shows "V' = V \<union> {d. \<exists>c. (d, c) \<in> set cs \<and> inc self c - mn \<le> skew} \<and> mc' \<le> mc \<and>
    (\<forall>d c. (d, c) \<in> set cs \<and> inc self c - mn \<le> skew \<longrightarrow> mc' \<le> inc self c) \<and>
    (md' = md \<and> mc' = mc \<or> (\<exists>c. (md', c) \<in> set cs \<and> inc self c - mn \<le> skew \<and> mc' = inc self c))"
  using assms(1,4)
proof (induction cs arbitrary: md mc V)
  case (Cons x cs)
  obtain d c where x: "x = (d, c)" by (cases x)
  have c: "0 \<le> c" "c < MaxInt32" using Cons.prems(1) by (simp_all add: x)
  have cs: "\<forall>(d, c) \<in> set cs. 0 \<le> c \<and> c < MaxInt32" using Cons.prems(1) by simp
  let ?good = "inc self c - mn \<le> skew" and ?better = "inc self c < mc"
  let ?md = "if ?good \<and> ?better then d else md" and ?mc = "if ?good \<and> ?better then inc self c else mc"
  let ?V = "if ?good then insert d V else V"
  have "fold (considerDomain self mn skew) cs (?md, ?mc, ?V) = (md', mc', V')"
    using Cons.prems(2) by (simp add: x considerDomain_eq [OF c assms(2,3)] split: if_splits)
  note IH = Cons.IH [OF cs this]
  have V: "V' = V \<union> {e. \<exists>a. (e, a) \<in> set (x # cs) \<and> inc self a - mn \<le> skew}"
    using IH by (auto simp: x split: if_splits)
  moreover have mc: "mc' \<le> ?mc" using IH by blast
  then have "mc' \<le> mc" by (auto split: if_splits)
  moreover have "mc' \<le> inc self a" if "(e, a) \<in> set (x # cs)" "inc self a - mn \<le> skew" for e a
    using that IH mc by (auto simp: x split: if_splits)
  moreover have "md' = md \<and> mc' = mc \<or>
      (\<exists>a. (md', a) \<in> set (x # cs) \<and> inc self a - mn \<le> skew \<and> mc' = inc self a)"
    using IH by (auto simp: x split: if_splits)
  ultimately show ?case by blast
qed simp

text \<open>The contract of \<^verbatim>\<open>UnsortedList\<close>.\<close>

definition enumerates :: "(string set \<Rightarrow> string list) \<Rightarrow> bool" where
  "enumerates enum \<longleftrightarrow> (\<forall>A. finite A \<longrightarrow> set (enum A) = A \<and> distinct (enum A))"

lemma Has_In: "wf_requirement r \<Longrightarrow> Operator r = OpIn \<Longrightarrow> Has r d \<longleftrightarrow> d \<in> valueSet r"
  by (auto simp: Has_iff wf_requirement_def Operator_def withinBounds_def split: if_splits)

lemma spreadCandidates_set:
  assumes "gomap_wf (domains t)" "wf_requirement nodeDomains" "enumerates enum"
  shows "(d, c) \<in> set (spreadCandidates enum t nodeDomains) \<longleftrightarrow>
    map_of (domains t) d = Some c \<and> Has nodeDomains d"
proof (cases "Operator nodeDomains = OpIn")
  case True
  have "finite (valueSet nodeDomains)" using assms(2) by (simp add: wf_requirement_def)
  then have "set (enum (valueSet nodeDomains)) = valueSet nodeDomains"
    using assms(3) by (simp add: enumerates_def)
  then show ?thesis
    using True Has_In [OF assms(2) True]
    by (simp add: spreadCandidates_def map_filter_lookup conj_commute)
next
  case False
  then show ?thesis by (auto simp: spreadCandidates_def in_gomap_iff [OF assms(1)])
qed

section \<open>Where a pod may go\<close>

definition validDomains ::
  "selects_labels \<Rightarrow> topology_group \<Rightarrow> pod \<Rightarrow> requirement \<Rightarrow> requirement \<Rightarrow> string set" where
  "validDomains sel t p podDomains nodeDomains =
     {d. \<exists>c. map_of (domains t) d = Some c \<and> Has nodeDomains d \<and>
          inc (selects sel t p) c - globalMin t podDomains \<le> maxSkew t}"

lemma nextDomainTopologySpread_exact:
  assumes ok: "tg_ok n t" and n: "n < MaxInt32 - 1" and len: "int (length (domains t)) \<le> MaxInt32"
    and key: "tgKey t \<noteq> LabelHostname" and unnamed: "map_of (domains t) [] = None"
    and wf: "wf_requirement nodeDomains" and enum: "enumerates enum"
  shows "snd (nextDomainTopologySpread sel enum t p podDomains nodeDomains) = validDomains sel t p podDomains nodeDomains"
    and "validDomains sel t p podDomains nodeDomains = {} \<Longrightarrow>
      fst (nextDomainTopologySpread sel enum t p podDomains nodeDomains) = reqDoesNotExist (tgKey t)"
    and "validDomains sel t p podDomains nodeDomains \<noteq> {} \<Longrightarrow>
      \<exists>d \<in> validDomains sel t p podDomains nodeDomains.
        fst (nextDomainTopologySpread sel enum t p podDomains nodeDomains) = reqIn (tgKey t) [d] \<and>
        (\<forall>d' \<in> validDomains sel t p podDomains nodeDomains. get_or 0 (domains t) d \<le> get_or 0 (domains t) d')"
proof -
  let ?self = "selects sel t p" and ?mn = "globalMin t podDomains" and ?cs = "spreadCandidates enum t nodeDomains"
  let ?V = "validDomains sel t p podDomains nodeDomains"
  have wfd: "gomap_wf (domains t)" using ok by (rule tg_okD(1))
  note cand = spreadCandidates_set [OF wfd wf enum]
  obtain md mc V where run: "fold (considerDomain ?self ?mn (maxSkew t)) ?cs ([], MaxInt32, {}) = (md, mc, V)"
    by (metis prod_cases3)
  have range: "\<forall>(d, c) \<in> set ?cs. 0 \<le> c \<and> c < MaxInt32"
  proof (clarify)
    fix d c assume "(d, c) \<in> set ?cs"
    then have "map_of (domains t) d = Some c" by (simp add: cand)
    then show "0 \<le> c \<and> c < MaxInt32" using tg_okD(3) [OF ok] n by fastforce
  qed
  have mn: "0 \<le> ?mn" "?mn \<le> MaxInt32" using globalMin_range [OF ok] by auto
  note res = consider_fold [OF range mn run]
  have V: "V = ?V" using res [THEN conjunct1] by (simp add: cand validDomains_def conj_assoc)
  have least: "mc \<le> inc ?self c"
    if "map_of (domains t) d = Some c" "Has nodeDomains d" "inc ?self c - ?mn \<le> maxSkew t" for d c
    using res [THEN conjunct2, THEN conjunct2, THEN conjunct1, rule_format, of d c] that by (simp add: cand)
  have found: "md = [] \<and> mc = MaxInt32 \<or>
      (\<exists>c. map_of (domains t) md = Some c \<and> Has nodeDomains md \<and> inc ?self c - ?mn \<le> maxSkew t \<and> mc = inc ?self c)"
    using res [THEN conjunct2, THEN conjunct2, THEN conjunct2] by (simp add: cand conj_assoc)
  have eq: "nextDomainTopologySpread sel enum t p podDomains nodeDomains =
      (if md = [] then (reqDoesNotExist (tgKey t), V) else (reqIn (tgKey t) [md], V))"
    using key by (simp add: nextDomainTopologySpread_def domainMinCount_eq [OF wfd len key] run)
  have none: "md = [] \<longleftrightarrow> ?V = {}"
  proof
    assume "md = []"
    then have mc: "mc = MaxInt32" using found unnamed by auto
    show "?V = {}"
    proof (rule equals0I)
      fix d assume "d \<in> ?V"
      then obtain c where c: "map_of (domains t) d = Some c" "Has nodeDomains d" "inc ?self c - ?mn \<le> maxSkew t"
        unfolding validDomains_def by blast
      have "c \<le> n" using tg_okD(3) [OF ok c(1)] by simp
      then show False using least [OF c] mc n by (simp add: inc_def split: if_splits)
    qed
  next
    assume "?V = {}"
    then show "md = []" using found unfolding validDomains_def by blast
  qed
  show "snd (nextDomainTopologySpread sel enum t p podDomains nodeDomains) = ?V" by (simp add: eq V)
  show "?V = {} \<Longrightarrow> fst (nextDomainTopologySpread sel enum t p podDomains nodeDomains) = reqDoesNotExist (tgKey t)"
    using none by (simp add: eq)
  show "\<exists>d \<in> ?V. fst (nextDomainTopologySpread sel enum t p podDomains nodeDomains) = reqIn (tgKey t) [d] \<and>
      (\<forall>d' \<in> ?V. get_or 0 (domains t) d \<le> get_or 0 (domains t) d')" if some: "?V \<noteq> {}"
  proof (rule bexI [of _ md], rule conjI)
    have md: "md \<noteq> []" using none some by simp
    then obtain c where c: "map_of (domains t) md = Some c" "Has nodeDomains md"
      "inc ?self c - ?mn \<le> maxSkew t" "mc = inc ?self c" using found by auto
    show "fst (nextDomainTopologySpread sel enum t p podDomains nodeDomains) = reqIn (tgKey t) [md]"
      using md by (simp add: eq)
    show "md \<in> ?V" using c unfolding validDomains_def by blast
    show "\<forall>d' \<in> ?V. get_or 0 (domains t) md \<le> get_or 0 (domains t) d'"
    proof
      fix d' assume "d' \<in> ?V"
      then obtain c' where c': "map_of (domains t) d' = Some c'" "Has nodeDomains d'"
        "inc ?self c' - ?mn \<le> maxSkew t" unfolding validDomains_def by blast
      show "get_or 0 (domains t) md \<le> get_or 0 (domains t) d'"
        using least [OF c'] c(1,4) c'(1) by (simp add: get_or_def inc_def split: if_splits)
    qed
  qed
qed

lemma RecordDomains_one:
  "domains (RecordDomains [d] t) = AList.update d (wrap32 (get_or 0 (domains t) d + 1)) (domains t)"
  by (simp add: RecordDomains_def)

lemma bootstraps_eq:
  assumes ok: "tg_ok n t"
  shows "bootstraps sel t p podDomains \<longleftrightarrow> selects sel t p \<and>
    (\<forall>d c. map_of (domains t) d = Some c \<longrightarrow> Has podDomains d \<longrightarrow> c = 0)"
proof -
  have wfd: "gomap_wf (domains t)" using ok by (rule tg_okD(1))
  have any: "anyCompatiblePodDomain t podDomains \<longleftrightarrow>
      (\<exists>d c. map_of (domains t) d = Some c \<and> Has podDomains d \<and> c > 0)"
    unfolding anyCompatiblePodDomain_def list_ex_iff by (rule gomap_bex_map_of [OF wfd])
  have none: "\<not> anyCompatiblePodDomain t podDomains \<longleftrightarrow>
      (\<forall>d c. map_of (domains t) d = Some c \<longrightarrow> Has podDomains d \<longrightarrow> c = 0)"
  proof -
    have "\<not> c > 0 \<longleftrightarrow> c = 0" if "map_of (domains t) d = Some c" for d c
      using tg_okD(3) [OF ok that] by linarith
    then show ?thesis unfolding any by blast
  qed
  have "c = 0" if len: "length (domains t) = card (emptyDomains t)" and c: "map_of (domains t) d = Some c" for d c
  proof -
    have sub: "emptyDomains t \<subseteq> fst ` set (domains t)"
    proof
      fix d assume "d \<in> emptyDomains t"
      then have "map_of (domains t) d = Some 0" unfolding tg_okD(2) [OF ok] .
      then show "d \<in> fst ` set (domains t)" by (rule map_of_fst_set)
    qed
    have "card (emptyDomains t) = card (fst ` set (domains t))"
      using len gomap_length_card [OF wfd] by simp
    then have "emptyDomains t = fst ` set (domains t)"
      using sub by (intro card_subset_eq) simp_all
    then have "d \<in> emptyDomains t" using map_of_fst_set [OF c] by blast
    then show ?thesis using c unfolding tg_okD(2) [OF ok] by simp
  qed
  then have "length (domains t) = card (emptyDomains t) \<Longrightarrow> \<not> anyCompatiblePodDomain t podDomains"
    unfolding none by blast
  then have "length (domains t) = card (emptyDomains t) \<or> \<not> anyCompatiblePodDomain t podDomains \<longleftrightarrow>
      \<not> anyCompatiblePodDomain t podDomains" by blast
  then show ?thesis unfolding bootstraps_def none by simp
qed

lemma Has_Insert_none: "Has (Insert ds (reqDoesNotExist k)) d \<longleftrightarrow> d \<in> set ds"
  by (simp add: Has_iff Insert_def withinBounds_def)

lemma enum_set: "enumerates enum \<Longrightarrow> finite A \<Longrightarrow> set (enum A) = A"
  by (simp add: enumerates_def)

lemma enum_single:
  assumes "enumerates enum" shows "enum {h} ! 0 = h"
proof -
  have "set (enum {h}) = {h}" using assms by (simp add: enumerates_def)
  then show ?thesis by (metis empty_iff insert_iff length_greater_0_conv list.set(1) nth_mem singletonD)
qed

lemma emptyDomains_finite: "tg_ok n t \<Longrightarrow> finite (emptyDomains t)"
proof -
  assume ok: "tg_ok n t"
  have "emptyDomains t \<subseteq> fst ` set (domains t)"
  proof
    fix d assume "d \<in> emptyDomains t"
    then have "map_of (domains t) d = Some 0" unfolding tg_okD(2) [OF ok] .
    then show "d \<in> fst ` set (domains t)" by (rule map_of_fst_set)
  qed
  then show ?thesis by (rule finite_subset) simp
qed

lemma nextDomainAntiAffinity_exact:
  assumes ok: "tg_ok n t" and wf: "wf_requirement nodeDomains" and enum: "enumerates enum"
    and "\<not> (tgKey t = LabelHostname \<and> card (valueSet nodeDomains) = 1)"
  shows "Has (nextDomainAntiAffinity enum t podDomains nodeDomains) d \<longleftrightarrow>
    map_of (domains t) d = Some 0 \<and> Has nodeDomains d \<and> Has podDomains d"
proof -
  have fin: "finite (valueSet nodeDomains)" using wf by (simp add: wf_requirement_def)
  note sets = enum_set [OF enum fin] enum_set [OF enum emptyDomains_finite [OF ok]]
  show ?thesis
  proof (cases "Operator nodeDomains = OpIn \<and> Len nodeDomains < int (card (emptyDomains t))")
    case True
    then have "nextDomainAntiAffinity enum t podDomains nodeDomains =
        Insert (filter (\<lambda>d. d \<in> emptyDomains t \<and> Has podDomains d) (enum (valueSet nodeDomains))) (reqDoesNotExist (tgKey t))"
      unfolding nextDomainAntiAffinity_def Let_def using assms(4) by auto
    moreover have "d \<in> valueSet nodeDomains \<longleftrightarrow> Has nodeDomains d" using Has_In [OF wf] True by simp
    ultimately show ?thesis by (simp add: Has_Insert_none sets tg_okD(2) [OF ok]) blast
  next
    case False
    then have "nextDomainAntiAffinity enum t podDomains nodeDomains =
        Insert (filter (\<lambda>d. Has nodeDomains d \<and> Has podDomains d) (enum (emptyDomains t))) (reqDoesNotExist (tgKey t))"
      unfolding nextDomainAntiAffinity_def Let_def using assms(4) by auto
    then show ?thesis by (simp add: Has_Insert_none sets tg_okD(2) [OF ok])
  qed
qed

lemma nextDomainAntiAffinity_host:
  assumes "tgKey t = LabelHostname" "valueSet nodeDomains = {h}" "enumerates enum"
  shows "Has (nextDomainAntiAffinity enum t podDomains nodeDomains) d \<longleftrightarrow>
    d = h \<and> get_or 0 (domains t) h = 0"
  using assms by (simp add: nextDomainAntiAffinity_def enum_single Has_Insert_none Let_def)

subsection \<open>Affinity\<close>

definition occupied :: "topology_group \<Rightarrow> requirement \<Rightarrow> string set" where
  "occupied t podDomains = {d. Has podDomains d \<and> get_or 0 (domains t) d > 0}"

lemma Insert_Insert: "Insert xs (Insert ys r) = Insert (ys @ xs) r"
  by (simp add: Insert_def Un_assoc)

lemma insertFirst_eq:
  "insertFirst test ds (Insert xs r) =
     Insert (xs @ (case find test (map fst ds) of None \<Rightarrow> [] | Some d \<Rightarrow> [d])) r"
  by (simp add: insertFirst_def Insert_Insert split: option.split)

lemma find_domain:
  "find test (map fst ds) = Some d \<Longrightarrow> map_of ds d \<noteq> None \<and> test d"
  "find test (map fst ds) = None \<longleftrightarrow> (\<forall>d. map_of ds d \<noteq> None \<longrightarrow> \<not> test d)"
proof -
  show "find test (map fst ds) = Some d \<Longrightarrow> map_of ds d \<noteq> None \<and> test d"
    by (auto simp: find_Some_iff map_of_eq_None_iff)
  show "find test (map fst ds) = None \<longleftrightarrow> (\<forall>d. map_of ds d \<noteq> None \<longrightarrow> \<not> test d)"
    unfolding find_None_iff map_of_eq_None_iff by simp blast
qed

lemma Len_Insert_none: "Len (Insert xs (reqDoesNotExist k)) = 0 \<longleftrightarrow> xs = []"
  by (simp add: Len_def Insert_def)

lemma nextDomainAffinity_eq:
  assumes wf: "wf_requirement nodeDomains" and enum: "enumerates enum"
    and special: "\<not> (tgKey t = LabelHostname \<and> card (valueSet nodeDomains) = 1)"
  shows "\<exists>found. set found = {d \<in> occupied t podDomains. Has nodeDomains d} \<and>
    nextDomainAffinity sel enum t p podDomains nodeDomains =
      (if found \<noteq> [] \<or> \<not> bootstraps sel t p podDomains then Insert found (reqDoesNotExist (tgKey t))
       else insertFirst (Has podDomains) (domains t)
              (insertFirst (Has (Intersection podDomains nodeDomains)) (domains t) (Insert [] (reqDoesNotExist (tgKey t)))))"
proof -
  let ?found = "if Operator nodeDomains = OpIn
    then filter (\<lambda>d. Has podDomains d \<and> get_or 0 (domains t) d > 0) (enum (valueSet nodeDomains))
    else filter (\<lambda>d. Has podDomains d \<and> get_or 0 (domains t) d > 0 \<and> Has nodeDomains d) (map fst (domains t))"
  have fin: "finite (valueSet nodeDomains)" using wf by (simp add: wf_requirement_def)
  have "get_or 0 (domains t) d > 0 \<Longrightarrow> d \<in> fst ` set (domains t)" for d
    by (auto simp: get_or_def split: option.splits intro: map_of_fst_set)
  then have "set ?found = {d \<in> occupied t podDomains. Has nodeDomains d}"
    using Has_In [OF wf] enum_set [OF enum fin] by (auto simp: occupied_def)
  moreover have "nextDomainAffinity sel enum t p podDomains nodeDomains =
      (if ?found \<noteq> [] \<or> \<not> bootstraps sel t p podDomains then Insert ?found (reqDoesNotExist (tgKey t))
       else insertFirst (Has podDomains) (domains t)
              (insertFirst (Has (Intersection podDomains nodeDomains)) (domains t) (Insert [] (reqDoesNotExist (tgKey t)))))"
    unfolding nextDomainAffinity_def Let_def if_not_P [OF special] Len_Insert_none by simp
  ultimately show ?thesis by blast
qed

lemma bootstraps_occupied:
  assumes ok: "tg_ok n t"
  shows "bootstraps sel t p podDomains \<longleftrightarrow> selects sel t p \<and> occupied t podDomains = {}"
proof -
  have "(\<forall>d c. map_of (domains t) d = Some c \<longrightarrow> Has podDomains d \<longrightarrow> c = 0) \<longleftrightarrow> occupied t podDomains = {}"
  proof
    assume zero: "\<forall>d c. map_of (domains t) d = Some c \<longrightarrow> Has podDomains d \<longrightarrow> c = 0"
    show "occupied t podDomains = {}"
      unfolding occupied_def using zero by (auto simp: get_or_def split: option.splits)
  next
    assume none: "occupied t podDomains = {}"
    show "\<forall>d c. map_of (domains t) d = Some c \<longrightarrow> Has podDomains d \<longrightarrow> c = 0"
    proof (intro allI impI)
      fix d c assume c: "map_of (domains t) d = Some c" and "Has podDomains d"
      then have "\<not> get_or 0 (domains t) d > 0" using none unfolding occupied_def by blast
      then show "c = 0" using c tg_okD(3) [OF ok c] by (simp add: get_or_def)
    qed
  qed
  then show ?thesis unfolding bootstraps_eq [OF ok] by simp
qed

text \<open>The domains started for a pod whose affinity nothing satisfies yet.\<close>

definition started :: "topology_group \<Rightarrow> requirement \<Rightarrow> requirement \<Rightarrow> string list" where
  "started t podDomains nodeDomains =
     (case find (Has (Intersection podDomains nodeDomains)) (map fst (domains t)) of None \<Rightarrow> [] | Some d \<Rightarrow> [d]) @
     (case find (Has podDomains) (map fst (domains t)) of None \<Rightarrow> [] | Some d \<Rightarrow> [d])"

lemma started_supported:
  "d \<in> set (started t podDomains nodeDomains) \<Longrightarrow> map_of (domains t) d \<noteq> None \<and> Has podDomains d"
  using find_domain(1) [of "Has podDomains" "domains t" d]
    find_domain(1) [of "Has (Intersection podDomains nodeDomains)" "domains t" d]
  by (auto simp: started_def Has_Intersection split: option.splits)

lemma started_some:
  assumes "map_of (domains t) d \<noteq> None" "Has podDomains d"
  shows "\<exists>d'. d' \<in> set (started t podDomains nodeDomains)"
proof -
  obtain d' where "find (Has podDomains) (map fst (domains t)) = Some d'"
    using assms find_domain(2) [of "Has podDomains" "domains t"]
    by (cases "find (Has podDomains) (map fst (domains t))") auto
  then show ?thesis by (auto simp: started_def)
qed

lemma started_on_node:
  assumes "map_of (domains t) d \<noteq> None" "Has podDomains d" "Has nodeDomains d"
  shows "\<exists>d'. d' \<in> set (started t podDomains nodeDomains) \<and> Has nodeDomains d'"
proof -
  let ?test = "Has (Intersection podDomains nodeDomains)"
  obtain d' where d': "find ?test (map fst (domains t)) = Some d'"
    using assms find_domain(2) [of ?test "domains t"]
    by (cases "find ?test (map fst (domains t))") (auto simp: Has_Intersection)
  then have "Has nodeDomains d'" using find_domain(1) [OF d'] by (simp add: Has_Intersection)
  then show ?thesis using d' by (auto simp: started_def)
qed

lemma nextDomainAffinity_cases:
  assumes ok: "tg_ok n t" and wf: "wf_requirement nodeDomains" and enum: "enumerates enum"
    and special: "\<not> (tgKey t = LabelHostname \<and> card (valueSet nodeDomains) = 1)"
  shows "Has (nextDomainAffinity sel enum t p podDomains nodeDomains) d \<longleftrightarrow>
    (if \<exists>d. Has nodeDomains d \<and> d \<in> occupied t podDomains then Has nodeDomains d \<and> d \<in> occupied t podDomains
     else selects sel t p \<and> occupied t podDomains = {} \<and> d \<in> set (started t podDomains nodeDomains))"
proof -
  obtain found where set: "set found = {d \<in> occupied t podDomains. Has nodeDomains d}"
    and eq: "nextDomainAffinity sel enum t p podDomains nodeDomains =
      (if found \<noteq> [] \<or> \<not> bootstraps sel t p podDomains then Insert found (reqDoesNotExist (tgKey t))
       else insertFirst (Has podDomains) (domains t)
              (insertFirst (Has (Intersection podDomains nodeDomains)) (domains t) (Insert [] (reqDoesNotExist (tgKey t)))))"
    using nextDomainAffinity_eq [OF wf enum special] by blast
  have some: "found \<noteq> [] \<longleftrightarrow> (\<exists>d. Has nodeDomains d \<and> d \<in> occupied t podDomains)"
  proof -
    have "found \<noteq> [] \<longleftrightarrow> set found \<noteq> {}" by simp
    then show ?thesis unfolding set by blast
  qed
  have start: "insertFirst (Has podDomains) (domains t)
      (insertFirst (Has (Intersection podDomains nodeDomains)) (domains t) (Insert [] (reqDoesNotExist (tgKey t)))) =
    Insert (started t podDomains nodeDomains) (reqDoesNotExist (tgKey t))"
    by (simp add: insertFirst_eq started_def)
  show ?thesis
    unfolding eq start bootstraps_occupied [OF ok] some [symmetric]
    using set by (cases "found = []") (auto simp: Has_Insert_none)
qed

subsection \<open>Domain groups\<close>

definition domainGroupOf :: "(string \<times> taint list) list \<Rightarrow> topology_domain_group" where
  "domainGroupOf ins = fold (\<lambda>(d, ts). InsertDomain d ts) ins NewTopologyDomainGroup"

definition group_ok :: "(string \<times> taint list) set \<Rightarrow> topology_domain_group \<Rightarrow> bool" where
  "group_ok ins g \<longleftrightarrow> gomap_wf g \<and>
     (\<forall>d. case map_of g d of
            None \<Rightarrow> \<forall>ts. (d, ts) \<notin> ins
          | Some S \<Rightarrow> S \<noteq> [] \<and> (\<forall>ts \<in> set S. (d, ts) \<in> ins) \<and>
              (S ! 0 = [] \<or> (\<forall>ts. (d, ts) \<in> ins \<longrightarrow> ts \<in> set S)))"

lemma group_okD:
  assumes "group_ok ins g"
  shows "map_of g d = None \<Longrightarrow> (d, ts) \<notin> ins"
    and "map_of g d = Some S \<Longrightarrow> S \<noteq> [] \<and> (\<forall>ts \<in> set S. (d, ts) \<in> ins) \<and>
              (S ! 0 = [] \<or> (\<forall>ts. (d, ts) \<in> ins \<longrightarrow> ts \<in> set S))"
proof -
  have all: "case map_of g d of None \<Rightarrow> \<forall>ts. (d, ts) \<notin> ins
      | Some S \<Rightarrow> S \<noteq> [] \<and> (\<forall>ts \<in> set S. (d, ts) \<in> ins) \<and>
          (S ! 0 = [] \<or> (\<forall>ts. (d, ts) \<in> ins \<longrightarrow> ts \<in> set S))"
    using assms unfolding group_ok_def by blast
  show "map_of g d = None \<Longrightarrow> (d, ts) \<notin> ins" using all by simp
  show "map_of g d = Some S \<Longrightarrow> S \<noteq> [] \<and> (\<forall>ts \<in> set S. (d, ts) \<in> ins) \<and>
      (S ! 0 = [] \<or> (\<forall>ts. (d, ts) \<in> ins \<longrightarrow> ts \<in> set S))" using all by simp
qed

lemma InsertDomain_ok:
  assumes ok: "group_ok ins g" shows "group_ok (insert (d, ts) ins) (InsertDomain d ts g)"
proof -
  have other: "map_of (InsertDomain d ts g) d' = map_of g d'" if "d' \<noteq> d" for d'
    using that by (simp add: InsertDomain_def gomap_simps split: option.split)
  have wf: "gomap_wf (InsertDomain d ts g)"
    using ok by (simp add: InsertDomain_def group_ok_def split: option.split)
  have here: "\<exists>S. map_of (InsertDomain d ts g) d = Some S \<and> S \<noteq> [] \<and>
      (\<forall>us \<in> set S. us = ts \<or> (d, us) \<in> ins) \<and>
      (S ! 0 = [] \<or> (\<forall>us. us = ts \<or> (d, us) \<in> ins \<longrightarrow> us \<in> set S))"
  proof (cases "map_of g d")
    case None
    then show ?thesis using group_okD(1) [OF ok None] by (simp add: InsertDomain_def gomap_simps)
  next
    case (Some S)
    note S = group_okD(2) [OF ok Some]
    show ?thesis
    proof (cases "ts = [] \<or> S ! 0 = []")
      case True
      then show ?thesis using Some S by (auto simp: InsertDomain_def gomap_simps)
    next
      case False
      then have "map_of (InsertDomain d ts g) d = Some (S @ [ts])"
        using Some by (simp add: InsertDomain_def gomap_simps)
      then show ?thesis using S False by auto
    qed
  qed
  show ?thesis
    unfolding group_ok_def
  proof (intro conjI allI wf)
    fix d'
    show "case map_of (InsertDomain d ts g) d' of
        None \<Rightarrow> \<forall>us. (d', us) \<notin> insert (d, ts) ins
      | Some S \<Rightarrow> S \<noteq> [] \<and> (\<forall>us \<in> set S. (d', us) \<in> insert (d, ts) ins) \<and>
          (S ! 0 = [] \<or> (\<forall>us. (d', us) \<in> insert (d, ts) ins \<longrightarrow> us \<in> set S))"
    proof (cases "d' = d")
      case True
      then show ?thesis using here by auto
    next
      case False
      then show ?thesis
        using other [OF False] group_okD [OF ok, of d'] by (auto split: option.split)
    qed
  qed
qed

lemma domainGroupOf_ok: "group_ok (set ins) (domainGroupOf ins)"
proof -
  have "group_ok (A \<union> set ins) (fold (\<lambda>(d, ts). InsertDomain d ts) ins g)" if "group_ok A g" for A g
    using that
  proof (induction ins arbitrary: A g)
    case (Cons x ins)
    obtain d ts where x: "x = (d, ts)" by (cases x)
    show ?case using Cons.IH [OF InsertDomain_ok [OF Cons.prems, of d ts]] by (simp add: x)
  qed simp
  from this [of "{}" "[]"] show ?thesis
    by (simp add: domainGroupOf_def NewTopologyDomainGroup_def group_ok_def gomap_wf_def)
qed

lemma ForEachDomain_group:
  assumes ok: "group_ok ins g"
  shows "d \<in> set (ForEachDomain tt g p policy) \<longleftrightarrow>
    (\<exists>ts. (d, ts) \<in> ins \<and> (policy = Some PolicyIgnore \<or> ToleratesPod tt ts p = []))"
proof -
  have wf: "gomap_wf g" using ok by (simp add: group_ok_def)
  have none: "ToleratesPod tt [] p = []" by (simp add: ToleratesPod_def Tolerates_Nil_iff)
  have "d \<in> set (ForEachDomain tt g p policy) \<longleftrightarrow>
      (\<exists>S. map_of g d = Some S \<and> (policy = Some PolicyIgnore \<or> (\<exists>ts \<in> set S. ToleratesPod tt ts p = [])))"
    by (force simp: ForEachDomain_def in_gomap_iff [OF wf, symmetric] list_ex_iff)
  also have "\<dots> \<longleftrightarrow> (\<exists>ts. (d, ts) \<in> ins \<and> (policy = Some PolicyIgnore \<or> ToleratesPod tt ts p = []))"
  proof (cases "map_of g d")
    case None
    then show ?thesis using group_okD(1) [OF ok None] by simp
  next
    case (Some S)
    note S = group_okD(2) [OF ok Some]
    have hd: "S ! 0 \<in> set S" using S by simp
    show ?thesis using Some S hd none by (metis option.inject)
  qed
  finally show ?thesis .
qed

section \<open>Properties\<close>

text \<open>A zone spread with skew 1 over two zones that hold one pod and none.\<close>

definition exampleGroup :: "topology_type \<Rightarrow> topology_group" where
  "exampleGroup ty =
     \<lparr> tgKey = LabelTopologyZone, tgType = ty, maxSkew = 1, minDomains = None, namespaces = {''default''},
       rawSelector = None, nodeFilter = zeroNodeFilter, owners = {}, domains = [(''a'', 1), (''b'', 0)],
       emptyDomains = {''b''} \<rparr>"

definition exampleEnum :: "string set \<Rightarrow> string list" where
  "exampleEnum A = sorted_list_of_set A"

lemma exampleGroup_ok: "tg_ok 1 (exampleGroup ty)"
  by (simp add: tg_ok_def exampleGroup_def gomap_wf_def)

lemma exampleEnum_ok: "enumerates exampleEnum"
  by (simp add: enumerates_def exampleEnum_def)

text \<open>
  C11. Topology spread is exact and keeps the skew. For a key other than the hostname,
  \<^verbatim>\<open>nextDomainTopologySpread\<close> reports as valid exactly the domains the node allows in which the
  pod's count exceeds the least count of any domain the pod supports by at most \<^verbatim>\<open>maxSkew\<close> (with
  fewer supported domains than \<^verbatim>\<open>minDomains\<close> the least count is taken as 0), chooses a valid domain of least
  count if there is one and returns \<^verbatim>\<open>DoesNotExist\<close> otherwise. Once a pod that matches the
  constraint's selector is recorded in the chosen domain, the skew between that domain and every
  supported domain is at most \<^verbatim>\<open>maxSkew\<close>.
\<close>
theorem spread_is_exact_and_keeps_skew:
  assumes "tg_ok n t" "n < MaxInt32 - 1" "int (length (domains t)) \<le> MaxInt32"
    and "tgKey t \<noteq> LabelHostname" "map_of (domains t) [] = None"
    and "wf_requirement nodeDomains" "enumerates enum"
    and "nextDomainTopologySpread sel enum t p podDomains nodeDomains = (req, valid)"
  shows "valid = {d. \<exists>c. map_of (domains t) d = Some c \<and> Has nodeDomains d \<and>
           (if selects sel t p then c + 1 else c) - globalMin t podDomains \<le> maxSkew t} \<and>
    (valid = {} \<longrightarrow> req = reqDoesNotExist (tgKey t)) \<and>
    (valid \<noteq> {} \<longrightarrow> (\<exists>d \<in> valid. req = reqIn (tgKey t) [d] \<and>
       (\<forall>d' \<in> valid. get_or 0 (domains t) d \<le> get_or 0 (domains t) d') \<and>
       (selects sel t p \<longrightarrow> (\<forall>d' c. map_of (domains (RecordDomains [d] t)) d' = Some c \<longrightarrow> Has podDomains d' \<longrightarrow>
          get_or 0 (domains (RecordDomains [d] t)) d - c \<le> maxSkew t))))"
proof -
  note exact = nextDomainTopologySpread_exact [OF assms(1-7), of sel p podDomains, unfolded assms(8) fst_conv snd_conv]
  have V: "valid = {d. \<exists>c. map_of (domains t) d = Some c \<and> Has nodeDomains d \<and>
      (if selects sel t p then c + 1 else c) - globalMin t podDomains \<le> maxSkew t}"
    using exact(1) unfolding validDomains_def inc_def .
  have skew: "get_or 0 (domains (RecordDomains [d] t)) d - c \<le> maxSkew t"
    if d: "d \<in> valid" and self: "selects sel t p"
      and c: "map_of (domains (RecordDomains [d] t)) d' = Some c" and pd: "Has podDomains d'" for d d' c
  proof -
    obtain c0 where c0: "map_of (domains t) d = Some c0" "c0 + 1 - globalMin t podDomains \<le> maxSkew t"
      using d self unfolding V by auto
    have range: "0 \<le> c0" "c0 \<le> n" using tg_okD(3) [OF assms(1) c0(1)] by auto
    have w: "wrap32 (c0 + 1) = c0 + 1" using range assms(2) by (intro wrap32_id) simp_all
    have new: "domains (RecordDomains [d] t) = AList.update d (c0 + 1) (domains t)"
      using c0(1) w by (simp add: RecordDomains_one get_or_def)
    have "0 \<le> maxSkew t" if "d' = d"
      using globalMin_le [OF assms(1) c0(1), of podDomains] pd that c0(2) by simp
    moreover have "globalMin t podDomains \<le> c" if "d' \<noteq> d"
      using globalMin_le [OF assms(1) _ pd, of c] c that by (simp add: new gomap_simps)
    ultimately show ?thesis using c0(2) c by (cases "d' = d") (simp_all add: new gomap_simps)
  qed
  have V': "valid = validDomains sel t p podDomains nodeDomains" by (rule exact(1))
  show ?thesis
  proof (intro conjI impI)
    show "valid = {d. \<exists>c. map_of (domains t) d = Some c \<and> Has nodeDomains d \<and>
      (if selects sel t p then c + 1 else c) - globalMin t podDomains \<le> maxSkew t}" by (rule V)
    show "req = reqDoesNotExist (tgKey t)" if "valid = {}"
      using exact(2) that unfolding V' by blast
    assume "valid \<noteq> {}"
    then obtain d where d: "d \<in> valid" "req = reqIn (tgKey t) [d]"
      "\<forall>d' \<in> valid. get_or 0 (domains t) d \<le> get_or 0 (domains t) d'"
      using exact(3) unfolding V' by blast
    moreover have "selects sel t p \<longrightarrow> (\<forall>d' c. map_of (domains (RecordDomains [d] t)) d' = Some c \<longrightarrow>
        Has podDomains d' \<longrightarrow> get_or 0 (domains (RecordDomains [d] t)) d - c \<le> maxSkew t)"
      using skew [OF d(1)] by (intro impI allI)
    ultimately show "\<exists>d \<in> valid. req = reqIn (tgKey t) [d] \<and>
       (\<forall>d' \<in> valid. get_or 0 (domains t) d \<le> get_or 0 (domains t) d') \<and>
       (selects sel t p \<longrightarrow> (\<forall>d' c. map_of (domains (RecordDomains [d] t)) d' = Some c \<longrightarrow> Has podDomains d' \<longrightarrow>
          get_or 0 (domains (RecordDomains [d] t)) d - c \<le> maxSkew t))" by (intro bexI conjI)
  qed
qed

theorem spread_is_exact_and_keeps_skew_witness:
  "\<exists>req. nextDomainTopologySpread (\<lambda>s l. True) exampleEnum (exampleGroup TopologyTypeSpread)
     (emptyPod ''p'') (reqExists LabelTopologyZone) (reqIn LabelTopologyZone [''a'', ''b'']) = (req, {''b''}) \<and>
     req = reqIn LabelTopologyZone [''b'']"
proof -
  let ?t = "exampleGroup TopologyTypeSpread" and ?node = "reqIn LabelTopologyZone [''a'', ''b'']"
  obtain req where run: "nextDomainTopologySpread (\<lambda>s l. True) exampleEnum ?t (emptyPod ''p'')
      (reqExists LabelTopologyZone) ?node = (req, {''b''})"
  proof -
    have "snd (nextDomainTopologySpread (\<lambda>s l. True) exampleEnum ?t (emptyPod ''p'')
      (reqExists LabelTopologyZone) ?node) = {''b''}" by code_simp
    then show ?thesis using that by (metis prod.collapse)
  qed
  have "\<exists>d \<in> {''b''}. req = reqIn (tgKey ?t) [d]"
    using spread_is_exact_and_keeps_skew [OF exampleGroup_ok _ _ _ _ _ exampleEnum_ok run]
    by (simp add: exampleGroup_def MaxInt32_def label_key_defs)
  then show ?thesis using run by (simp add: exampleGroup_def)
qed

text \<open>
  Pod anti-affinity never reuses a domain. \<^verbatim>\<open>nextDomainAntiAffinity\<close>, which scans whichever of the
  node's domains and the cached empty domains is smaller, allows exactly the registered domains
  that both sides allow and that hold no matching pod; for a single hostname it allows the host exactly when it
  holds none. Recording a pod in an allowed domain leaves exactly one pod there, the other counts as they were.
\<close>
theorem anti_affinity_picks_empty_domains:
  assumes "tg_ok n t" "wf_requirement nodeDomains" "enumerates enum"
  shows "(\<not> (tgKey t = LabelHostname \<and> card (valueSet nodeDomains) = 1) \<longrightarrow>
      (Has (nextDomainAntiAffinity enum t podDomains nodeDomains) d \<longleftrightarrow>
         map_of (domains t) d = Some 0 \<and> Has nodeDomains d \<and> Has podDomains d)) \<and>
    (tgKey t = LabelHostname \<and> valueSet nodeDomains = {h} \<longrightarrow>
      (Has (nextDomainAntiAffinity enum t podDomains nodeDomains) d \<longleftrightarrow> d = h \<and> get_or 0 (domains t) h = 0)) \<and>
    (Has (nextDomainAntiAffinity enum t podDomains nodeDomains) d \<longrightarrow>
      map_of (domains (RecordDomains [d] t)) d' = (if d' = d then Some 1 else map_of (domains t) d'))"
proof -
  note general = nextDomainAntiAffinity_exact [OF assms, of podDomains d]
  note host = nextDomainAntiAffinity_host [OF _ _ assms(3), of t nodeDomains _ podDomains d]
  have "get_or 0 (domains t) d = 0" if has: "Has (nextDomainAntiAffinity enum t podDomains nodeDomains) d"
  proof (cases "tgKey t = LabelHostname \<and> card (valueSet nodeDomains) = 1")
    case True
    then obtain h' where "valueSet nodeDomains = {h'}" by (meson card_1_singletonE)
    then show ?thesis using host has True by auto
  next
    case False
    then show ?thesis using general has by (simp add: get_or_def)
  qed
  then have "Has (nextDomainAntiAffinity enum t podDomains nodeDomains) d \<longrightarrow>
      map_of (domains (RecordDomains [d] t)) d' = (if d' = d then Some 1 else map_of (domains t) d')"
    by (simp add: RecordDomains_one gomap_simps wrap32_def)
  then show ?thesis using general host by blast
qed

theorem anti_affinity_picks_empty_domains_witness:
  "Has (nextDomainAntiAffinity exampleEnum (exampleGroup TopologyTypePodAntiAffinity)
      (reqExists LabelTopologyZone) (reqExists LabelTopologyZone)) ''b'' \<and>
   \<not> Has (nextDomainAntiAffinity exampleEnum (exampleGroup TopologyTypePodAntiAffinity)
      (reqExists LabelTopologyZone) (reqExists LabelTopologyZone)) ''a''"
  using anti_affinity_picks_empty_domains [OF exampleGroup_ok req_total_wf(2) exampleEnum_ok,
      where d = "''a''" and podDomains = "reqExists LabelTopologyZone" and h = "[]" and d' = "[]"]
    anti_affinity_picks_empty_domains [OF exampleGroup_ok req_total_wf(2) exampleEnum_ok,
      where d = "''b''" and podDomains = "reqExists LabelTopologyZone" and h = "[]" and d' = "[]"]
  by (simp add: exampleGroup_def label_key_defs)



text \<open>
  The domain groups lose nothing by their shortcut. \<^verbatim>\<open>TopologyDomainGroup.Insert\<close> stops tracking
  taints once a domain is available without any, yet after any sequence of insertions
  \<^verbatim>\<open>ForEachDomain\<close> visits exactly the domains that were inserted with a set of taints the pod
  tolerates, and with the policy \<^verbatim>\<open>Ignore\<close> all inserted domains.
\<close>
theorem domain_groups_are_exact:
  "d \<in> set (ForEachDomain tt (domainGroupOf ins) p policy) \<longleftrightarrow>
     (\<exists>ts. (d, ts) \<in> set ins \<and> (policy = Some PolicyIgnore \<or> ToleratesPod tt ts p = []))"
  by (rule ForEachDomain_group [OF domainGroupOf_ok])

end
