(* ===== verification/PodUtils.thy ===== *)
theory PodUtils
  imports Taints
begin

text \<open>
  \<^verbatim>\<open>pkg/utils/pod/scheduling.go\<close>: the predicates that decide which pods are scheduled, evicted and
  waited for, and \<^verbatim>\<open>pkg/utils/pdb/pdb.go\<close>: which of them pod disruption budgets let go.

  Times and durations are nanoseconds; \<open>now\<close> is the clock, and differences of times saturate at
  64 bits as \<^verbatim>\<open>Time.Sub\<close> does. \<open>tt\<close> is \<^verbatim>\<open>Toleration.ToleratesTaint\<close> and \<open>sel\<close> the matching of a label
  selector (\<^verbatim>\<open>Selector.Matches\<close>). Events are left out.
\<close>

section \<open>Durations\<close>

definition subTime :: "int \<Rightarrow> int \<Rightarrow> int" where
  "subTime a b = max MinInt64 (min MaxInt64 (a - b))"

definition Minute :: int where "Minute = 60 * 1000000000"

text \<open>The units of \<^verbatim>\<open>time.ParseDuration\<close>, with both spellings of the micro sign in UTF-8.\<close>

definition durationUnits :: "(string, int) gomap" where
  "durationUnits =
     [(''ns'', 1), (''us'', 1000), ([CHR 0xC2, CHR 0xB5, CHR ''s''], 1000),
      ([CHR 0xCE, CHR 0xBC, CHR ''s''], 1000), (''ms'', 1000000), (''s'', 1000000000),
      (''m'', 60000000000), (''h'', 3600000000000)]"

definition digits_value :: "string \<Rightarrow> int" where
  "digits_value ds = fold (\<lambda>c v. v * 10 + (of_char c - 48)) ds 0"

text \<open>One term of a duration and the text after it. The fraction is rounded down to nanoseconds, where
  the library computes it in floating point.\<close>

abbreviation unitChar :: "char \<Rightarrow> bool" where
  "unitChar c \<equiv> c \<noteq> CHR ''.'' \<and> \<not> is_digit c"

definition durationTerm :: "string \<Rightarrow> (int \<times> string) option" where
  "durationTerm s =
     (let whole = takeWhile is_digit s;
          s1 = dropWhile is_digit s;
          pointed = (s1 \<noteq> [] \<and> hd s1 = CHR ''.'');
          frac = (if pointed then takeWhile is_digit (tl s1) else []);
          s2 = (if pointed then dropWhile is_digit (tl s1) else s1);
          unitName = takeWhile unitChar s2
      in if whole = [] \<and> frac = [] \<or> unitName = [] then None
         else case map_of durationUnits unitName of
                None \<Rightarrow> None
              | Some u \<Rightarrow>
                  let v = digits_value whole * u + digits_value frac * u div 10 ^ length frac
                  in if digits_value whole * u > 2 ^ 63 \<or> v > 2 ^ 63 then None
                     else Some (v, dropWhile unitChar s2))"

lemma dropWhile_shorter: "takeWhile P s \<noteq> [] \<Longrightarrow> length (dropWhile P s) < length s"
  by (cases s) (auto simp: length_dropWhile_le le_imp_less_Suc split: if_splits)

lemma dropWhile_tl_le: "length (dropWhile P (tl (dropWhile Q s))) \<le> length s"
  by (rule order_trans [OF length_dropWhile_le])
     (simp add: length_dropWhile_le order_trans [OF diff_le_self])

lemma durationTerm_shorter: "durationTerm s = Some (v, rest) \<Longrightarrow> length rest < length s"
  by (auto simp: durationTerm_def Let_def split: if_splits option.splits dest!: dropWhile_shorter
           intro: less_le_trans [OF _ length_dropWhile_le] less_le_trans [OF _ dropWhile_tl_le])

text \<open>The sum of the terms, kept in 64 unsigned bits.\<close>

function durationTerms :: "string \<Rightarrow> int \<Rightarrow> int option" where
  "durationTerms s d =
     (if s = [] then Some d
      else case durationTerm s of
             None \<Rightarrow> None
           | Some (v, rest) \<Rightarrow>
               let d' = (d + v) mod 2 ^ 64
               in if d' > 2 ^ 63 then None else durationTerms rest d')"
  by pat_completeness auto
termination
  by (relation "measure (\<lambda>(s, d). length s)") (auto dest: durationTerm_shorter)

declare durationTerms.simps [simp del]

definition ParseDuration :: "string \<Rightarrow> int option" where
  "ParseDuration s =
     (let neg = (s \<noteq> [] \<and> hd s = CHR ''-'');
          body = (if s \<noteq> [] \<and> (hd s = CHR ''-'' \<or> hd s = CHR ''+'') then tl s else s)
      in if body = ''0'' then Some 0
         else if body = [] then None
         else case durationTerms body 0 of
                None \<Rightarrow> None
              | Some d \<Rightarrow> if neg then Some (- d) else if d > MaxInt64 then None else Some d)"

section \<open>Predicates on pods\<close>

definition DoNotDisruptAnnotationKey :: string where
  "DoNotDisruptAnnotationKey = Group @ ''/do-not-disrupt''"

definition IsOwnedBy :: "pod \<Rightarrow> (string \<times> string) list \<Rightarrow> bool" where
  "IsOwnedBy p gvks =
     list_ex (\<lambda>(apiVersion, kind).
       list_ex (\<lambda>owner. orAPIVersion owner = apiVersion \<and> orKind owner = kind) (podOwners p)) gvks"

definition IsOwnedByStatefulSet :: "pod \<Rightarrow> bool" where
  "IsOwnedByStatefulSet p = IsOwnedBy p [(''apps/v1'', ''StatefulSet'')]"

definition IsOwnedByDaemonSet :: "pod \<Rightarrow> bool" where
  "IsOwnedByDaemonSet p = IsOwnedBy p [(''apps/v1'', ''DaemonSet'')]"

definition IsOwnedByNode :: "pod \<Rightarrow> bool" where
  "IsOwnedByNode p = IsOwnedBy p [(''v1'', ''Node'')]"

definition IsControlledBy :: "pod \<Rightarrow> (string \<times> string) list \<Rightarrow> bool" where
  "IsControlledBy p gvks =
     (case find (\<lambda>owner. orController owner = Some True) (podOwners p) of
        None \<Rightarrow> False
      | Some owner \<Rightarrow>
          list_ex (\<lambda>(apiVersion, kind). orAPIVersion owner = apiVersion \<and> orKind owner = kind) gvks)"

definition IsControlledByReplicaSet :: "pod \<Rightarrow> bool" where
  "IsControlledByReplicaSet p = IsControlledBy p [(''apps/v1'', ''ReplicaSet'')]"

definition FailedToSchedule :: "pod \<Rightarrow> bool" where
  "FailedToSchedule p =
     list_ex (\<lambda>c. pcType c = ''PodScheduled'' \<and> pcReason c = ''Unschedulable'') (podConditions p)"

definition IsScheduled :: "pod \<Rightarrow> bool" where "IsScheduled p \<longleftrightarrow> nodeName p \<noteq> []"
definition IsPreempting :: "pod \<Rightarrow> bool" where "IsPreempting p \<longleftrightarrow> nominatedNodeName p \<noteq> []"
definition IsPending :: "pod \<Rightarrow> bool" where "IsPending p \<longleftrightarrow> podPhase p = PodPending"

definition IsTerminal :: "pod \<Rightarrow> bool" where
  "IsTerminal p \<longleftrightarrow> podPhase p = PodFailed \<or> podPhase p = PodSucceeded"

definition IsTerminating :: "pod \<Rightarrow> bool" where
  "IsTerminating p \<longleftrightarrow> podDeletionTimestamp p \<noteq> None"

definition IsStuckTerminating :: "pod \<Rightarrow> int \<Rightarrow> bool" where
  "IsStuckTerminating p now =
     (case podDeletionTimestamp p of None \<Rightarrow> False | Some t \<Rightarrow> subTime now t > Minute)"

definition IsActive :: "pod \<Rightarrow> bool" where
  "IsActive p \<longleftrightarrow> \<not> IsTerminal p \<and> \<not> IsTerminating p"

definition IsReschedulable :: "pod \<Rightarrow> bool" where
  "IsReschedulable p \<longleftrightarrow>
     (IsActive p \<or> IsOwnedByStatefulSet p \<and> IsTerminating p) \<and> \<not> IsOwnedByDaemonSet p \<and> \<not> IsOwnedByNode p"

definition parseDoNotDisrupt :: "string \<Rightarrow> int option" where
  "parseDoNotDisrupt s =
     (case ParseDuration s of None \<Rightarrow> None | Some d \<Rightarrow> if d \<le> 0 then None else Some d)"

definition IsDoNotDisruptActive :: "pod \<Rightarrow> int \<Rightarrow> bool" where
  "IsDoNotDisruptActive p now =
     (case map_of (podAnnotations p) DoNotDisruptAnnotationKey of
        None \<Rightarrow> False
      | Some s \<Rightarrow>
          if s = ''true'' then True
          else case parseDoNotDisrupt s of
                 None \<Rightarrow> False
               | Some duration \<Rightarrow>
                   (case podStartTime p of None \<Rightarrow> True | Some start \<Rightarrow> subTime now start < duration))"

definition ToleratesDisruptedNoScheduleTaint :: "(toleration \<Rightarrow> taint \<Rightarrow> bool) \<Rightarrow> pod \<Rightarrow> bool" where
  "ToleratesDisruptedNoScheduleTaint tt p \<longleftrightarrow> ToleratesPod tt [DisruptedNoScheduleTaint] p = []"

definition IsEvictable :: "(toleration \<Rightarrow> taint \<Rightarrow> bool) \<Rightarrow> pod \<Rightarrow> int \<Rightarrow> bool" where
  "IsEvictable tt p now \<longleftrightarrow>
     IsActive p \<and> \<not> ToleratesDisruptedNoScheduleTaint tt p \<and> \<not> IsOwnedByNode p \<and> \<not> IsDoNotDisruptActive p now"

definition IsDrainable :: "(toleration \<Rightarrow> taint \<Rightarrow> bool) \<Rightarrow> pod \<Rightarrow> int \<Rightarrow> bool" where
  "IsDrainable tt p now \<longleftrightarrow>
     \<not> ToleratesDisruptedNoScheduleTaint tt p \<and> \<not> IsStuckTerminating p now \<and> \<not> IsOwnedByNode p"

definition IsWaitingEviction :: "(toleration \<Rightarrow> taint \<Rightarrow> bool) \<Rightarrow> pod \<Rightarrow> int \<Rightarrow> bool" where
  "IsWaitingEviction tt p now \<longleftrightarrow> \<not> IsTerminal p \<and> IsDrainable tt p now"

definition IsPodEligibleForForcedEviction :: "pod \<Rightarrow> int option \<Rightarrow> bool" where
  "IsPodEligibleForForcedEviction p expiration =
     (case expiration of None \<Rightarrow> False
      | Some e \<Rightarrow> (case podDeletionTimestamp p of None \<Rightarrow> False | Some t \<Rightarrow> t > e))"

definition IsProvisionable :: "pod \<Rightarrow> bool" where
  "IsProvisionable p \<longleftrightarrow>
     FailedToSchedule p \<and> \<not> IsScheduled p \<and> \<not> IsPreempting p \<and> \<not> IsOwnedByDaemonSet p \<and> \<not> IsOwnedByNode p"

definition IsDisruptable :: "pod \<Rightarrow> int \<Rightarrow> bool" where
  "IsDisruptable p now \<longleftrightarrow> \<not> IsActive p \<or> \<not> IsDoNotDisruptActive p now"

definition HasPodAntiAffinity :: "pod \<Rightarrow> bool" where
  "HasPodAntiAffinity p =
     (case podAffinityField p of None \<Rightarrow> False
      | Some a \<Rightarrow> (case podAntiAffinity a of None \<Rightarrow> False
          | Some pa \<Rightarrow> length (paRequired pa) \<noteq> 0 \<or> length (paPreferred pa) \<noteq> 0))"

definition HasRequiredPodAntiAffinity :: "pod \<Rightarrow> bool" where
  "HasRequiredPodAntiAffinity p =
     (HasPodAntiAffinity p \<and>
      (case podAffinityField p of None \<Rightarrow> False
       | Some a \<Rightarrow> (case podAntiAffinity a of None \<Rightarrow> False | Some pa \<Rightarrow> length (paRequired pa) \<noteq> 0)))"

definition HasDRARequirements :: "pod \<Rightarrow> bool" where
  "HasDRARequirements p \<longleftrightarrow>
     length (resourceClaims p) > 0 \<or>
     list_ex (\<lambda>c. length (ctrClaims c) > 0) (initContainers p) \<or>
     list_ex (\<lambda>c. length (ctrClaims c) > 0) (containers p)"

section \<open>Pod disruption budgets\<close>

datatype eviction_blocker = ZeroDisruptions | FullyBlockingPDBs

datatype int_or_string = IntVal int | StrVal string

record pod_disruption_budget =
  pdbNamespace :: string
  pdbName :: string
  pdbSelector :: "label_selector option"
  pdbUnhealthyPodEvictionPolicy :: "string option"
  pdbMaxUnavailable :: "int_or_string option"
  pdbMinAvailable :: "int_or_string option"
  pdbDisruptionsAllowed :: int

record pdb_item =
  piKey :: "string \<times> string"
  piMatches :: "(string, string) gomap \<Rightarrow> bool"
  disruptionsAllowed :: int
  isFullyBlocking :: bool
  canAlwaysEvictUnhealthyPods :: bool

text \<open>\<open>parseSel\<close> is \<^verbatim>\<open>LabelSelectorAsSelector\<close>; \<open>None\<close> is its error.\<close>

definition newPdb ::
  "(label_selector option \<Rightarrow> ((string, string) gomap \<Rightarrow> bool) option) \<Rightarrow> pod_disruption_budget \<Rightarrow> pdb_item option" where
  "newPdb parseSel pdb =
     (case parseSel (pdbSelector pdb) of
        None \<Rightarrow> None
      | Some selector \<Rightarrow>
          Some \<lparr> piKey = (pdbNamespace pdb, pdbName pdb), piMatches = selector,
                 disruptionsAllowed = pdbDisruptionsAllowed pdb,
                 isFullyBlocking = (pdbMaxUnavailable pdb = Some (IntVal 0) \<or>
                   pdbMaxUnavailable pdb = Some (StrVal ''0%'') \<or> pdbMinAvailable pdb = Some (StrVal ''100%'')),
                 canAlwaysEvictUnhealthyPods = (pdbUnhealthyPodEvictionPolicy pdb = Some ''AlwaysAllow'') \<rparr>)"

fun newPdbs ::
  "(label_selector option \<Rightarrow> ((string, string) gomap \<Rightarrow> bool) option) \<Rightarrow> pod_disruption_budget list \<Rightarrow>
   pdb_item list option" where
  "newPdbs parseSel [] = Some []"
| "newPdbs parseSel (pdb # rest) =
     (case newPdb parseSel pdb of
        None \<Rightarrow> None
      | Some item \<Rightarrow> map_option (Cons item) (newPdbs parseSel rest))"

text \<open>\<open>listed\<close> is the answer of the API server; \<open>None\<close> is its error.\<close>

definition NewLimits ::
  "(label_selector option \<Rightarrow> ((string, string) gomap \<Rightarrow> bool) option) \<Rightarrow> pod_disruption_budget list option \<Rightarrow>
   pdb_item list option" where
  "NewLimits parseSel listed =
     (case listed of None \<Rightarrow> None | Some pdbs \<Rightarrow> newPdbs parseSel pdbs)"

definition NotReady :: "pod \<Rightarrow> bool" where
  "NotReady p = list_ex (\<lambda>c. pcType c = ''Ready'' \<and> pcStatus c = ''False'') (podConditions p)"

fun evictableLoop :: "pdb_item list \<Rightarrow> pod \<Rightarrow> eviction_blocker \<Rightarrow> (string \<times> string) list \<times> bool" where
  "evictableLoop [] p blocker = ([], True)"
| "evictableLoop (pdb # rest) p blocker =
     (if canAlwaysEvictUnhealthyPods pdb \<and> NotReady p then ([], True)
      else if blocker = ZeroDisruptions \<and> disruptionsAllowed pdb = 0 then ([piKey pdb], False)
      else if blocker = FullyBlockingPDBs \<and> isFullyBlocking pdb then ([piKey pdb], False)
      else evictableLoop rest p blocker)"

definition matchingPDBs :: "pdb_item list \<Rightarrow> pod \<Rightarrow> pdb_item list" where
  "matchingPDBs l p = filter (\<lambda>pdb. fst (piKey pdb) = podNamespace p \<and> piMatches pdb (podLabels p)) l"

definition isEvictable ::
  "(toleration \<Rightarrow> taint \<Rightarrow> bool) \<Rightarrow> pdb_item list \<Rightarrow> pod \<Rightarrow> int \<Rightarrow> eviction_blocker \<Rightarrow> (string \<times> string) list \<times> bool" where
  "isEvictable tt l p now blocker =
     (if \<not> IsEvictable tt p now then ([], True)
      else if length (matchingPDBs l p) > 1 then (map piKey (matchingPDBs l p), False)
      else evictableLoop (matchingPDBs l p) p blocker)"

fun CanEvictPods ::
  "(toleration \<Rightarrow> taint \<Rightarrow> bool) \<Rightarrow> pdb_item list \<Rightarrow> pod list \<Rightarrow> int \<Rightarrow> (string \<times> string) list \<times> bool" where
  "CanEvictPods tt l [] now = ([], True)"
| "CanEvictPods tt l (p # ps) now =
     (case isEvictable tt l p now ZeroDisruptions of
        (pdbs, evictable) \<Rightarrow> if \<not> evictable then (pdbs, False) else CanEvictPods tt l ps now)"

definition isFullyBlocked ::
  "(toleration \<Rightarrow> taint \<Rightarrow> bool) \<Rightarrow> pdb_item list \<Rightarrow> pod \<Rightarrow> int \<Rightarrow> (string \<times> string) list \<times> bool" where
  "isFullyBlocked tt l p now =
     (case isEvictable tt l p now FullyBlockingPDBs of
        (pdbs, evictable) \<Rightarrow> if \<not> evictable then (pdbs, True) else ([], False))"

definition IsCurrentlyReschedulable ::
  "(toleration \<Rightarrow> taint \<Rightarrow> bool) \<Rightarrow> pdb_item list \<Rightarrow> pod \<Rightarrow> int \<Rightarrow> bool" where
  "IsCurrentlyReschedulable tt l p now \<longleftrightarrow>
     IsReschedulable p \<and> IsDisruptable p now \<and> \<not> snd (isFullyBlocked tt l p now)"

section \<open>Durations stay in 64 bits\<close>

lemma durationTerms_range:
  "durationTerms s d = Some r \<Longrightarrow> 0 \<le> d \<Longrightarrow> d \<le> 2 ^ 63 \<Longrightarrow> 0 \<le> r \<and> r \<le> 2 ^ 63"
proof (induction s d arbitrary: r rule: durationTerms.induct)
  case (1 s d)
  show ?case
  proof (cases "s = []")
    case True
    then show ?thesis using 1 by (simp add: durationTerms.simps)
  next
    case False
    note unfolded = "1.prems"(1) [unfolded durationTerms.simps [of s d] if_not_P [OF False]]
    then obtain v rest where parsed: "durationTerm s = Some (v, rest)"
      by (cases "durationTerm s") auto
    note step = unfolded [unfolded parsed option.case prod.case Let_def]
    have small: "\<not> (d + v) mod 2 ^ 64 > 2 ^ 63"
    proof
      assume "(d + v) mod 2 ^ 64 > 2 ^ 63"
      from step [unfolded if_P [OF this]] show False by simp
    qed
    note rec = step [unfolded if_not_P [OF small]]
    show ?thesis
      by (rule "1.IH" [OF False parsed refl refl small rec]) (use small in simp_all)
  qed
qed

lemma ParseDuration_range:
  assumes "ParseDuration s = Some d"
  shows "MinInt64 \<le> d \<and> d \<le> MaxInt64"
proof -
  define body where "body = (if s \<noteq> [] \<and> (hd s = CHR ''-'' \<or> hd s = CHR ''+'') then tl s else s)"
  note eq = assms [unfolded ParseDuration_def Let_def, folded body_def]
  show ?thesis
  proof (cases "body = ''0'' \<or> body = []")
    case True
    with eq show ?thesis by (auto simp: MinInt64_def MaxInt64_def)
  next
    case False
    with eq obtain r where r: "durationTerms body 0 = Some r"
      and d: "d = - r \<or> d = r \<and> r \<le> MaxInt64"
      by (auto split: option.splits if_splits)
    from durationTerms_range [OF r] have "0 \<le> r" "r \<le> 2 ^ 63" by simp_all
    with d show ?thesis by (auto simp: MinInt64_def MaxInt64_def)
  qed
qed

lemma parseDoNotDisrupt_range: "parseDoNotDisrupt s = Some d \<Longrightarrow> 0 < d \<and> d \<le> MaxInt64"
  using ParseDuration_range [of s d] by (auto simp: parseDoNotDisrupt_def split: option.splits if_splits)

lemma subTime_less_iff: "0 < d \<Longrightarrow> d \<le> MaxInt64 \<Longrightarrow> subTime a b < d \<longleftrightarrow> a < b + d"
  by (auto simp: subTime_def MinInt64_def MaxInt64_def)

section \<open>Evictions\<close>

lemma evictable_pods_are_drained:
  "IsEvictable tt p now \<Longrightarrow> IsWaitingEviction tt p now \<and> IsDisruptable p now"
  by (simp add: IsEvictable_def IsWaitingEviction_def IsDrainable_def IsDisruptable_def IsActive_def
      IsTerminating_def IsStuckTerminating_def)

lemma IsDoNotDisruptActive_duration:
  assumes "map_of (podAnnotations p) DoNotDisruptAnnotationKey = Some s" "s \<noteq> ''true''"
    and "parseDoNotDisrupt s = Some d" and "podStartTime p = Some start"
  shows "IsDoNotDisruptActive p now \<longleftrightarrow> now < start + d"
  using assms parseDoNotDisrupt_range [OF assms(3)]
  by (simp add: IsDoNotDisruptActive_def subTime_less_iff)

text \<open>What one pod needs of the budgets: none selects it, or exactly one does and that one lets it go.\<close>

definition pdb_allows :: "eviction_blocker \<Rightarrow> pod \<Rightarrow> pdb_item \<Rightarrow> bool" where
  "pdb_allows blocker p pdb \<longleftrightarrow>
     canAlwaysEvictUnhealthyPods pdb \<and> NotReady p \<or>
     (case blocker of ZeroDisruptions \<Rightarrow> disruptionsAllowed pdb \<noteq> 0 | FullyBlockingPDBs \<Rightarrow> \<not> isFullyBlocking pdb)"

lemma snd_isEvictable:
  "snd (isEvictable tt l p now blocker) \<longleftrightarrow>
     \<not> IsEvictable tt p now \<or> matchingPDBs l p = [] \<or>
     (\<exists>pdb. matchingPDBs l p = [pdb] \<and> pdb_allows blocker p pdb)"
  by (cases "matchingPDBs l p"; cases "tl (matchingPDBs l p)"; cases blocker)
     (auto simp: isEvictable_def pdb_allows_def)

lemma fst_isEvictable:
  "\<not> snd (isEvictable tt l p now blocker) \<Longrightarrow>
     fst (isEvictable tt l p now blocker) = map piKey (matchingPDBs l p) \<and> matchingPDBs l p \<noteq> []"
  by (cases "matchingPDBs l p"; cases "tl (matchingPDBs l p)"; cases blocker)
     (auto simp: isEvictable_def split: if_splits)

lemma snd_CanEvictPods:
  "snd (CanEvictPods tt l ps now) \<longleftrightarrow> (\<forall>p \<in> set ps. snd (isEvictable tt l p now ZeroDisruptions))"
  by (induction ps) (auto simp: split_beta)

lemma CanEvictPods_blocked:
  assumes "\<not> snd (CanEvictPods tt l ps now)"
  obtains p where "p \<in> set ps" "\<not> snd (isEvictable tt l p now ZeroDisruptions)"
    "fst (CanEvictPods tt l ps now) = map piKey (matchingPDBs l p)"
  using assms by (induction ps) (auto simp: split_beta fst_isEvictable split: if_splits)

text \<open>
  C29. \<^verbatim>\<open>Limits.CanEvictPods\<close> answers yes exactly if every pod of the list that Karpenter would evict is
  selected by no budget of its namespace, or by exactly one, which either exempts the pod as unhealthy
  or has disruptions left; when it answers no, it names the budgets that select one of the pods, at
  least one of them. The pods it asks about are all among those a drain waits for, and
  \<^verbatim>\<open>IsCurrentlyReschedulable\<close> holds of no pod whose only budget is fully blocking.\<close>
theorem CanEvictPods_is_exact:
  "(snd (CanEvictPods tt l ps now) \<longleftrightarrow>
     (\<forall>p \<in> set ps. IsEvictable tt p now \<longrightarrow>
        matchingPDBs l p = [] \<or>
        (\<exists>pdb. matchingPDBs l p = [pdb] \<and>
           (canAlwaysEvictUnhealthyPods pdb \<and> NotReady p \<or> disruptionsAllowed pdb \<noteq> 0)))) \<and>
   (\<not> snd (CanEvictPods tt l ps now) \<longrightarrow>
     (\<exists>p \<in> set ps. IsWaitingEviction tt p now \<and> matchingPDBs l p \<noteq> [] \<and>
       fst (CanEvictPods tt l ps now) = map piKey (matchingPDBs l p))) \<and>
   (IsCurrentlyReschedulable tt l p now \<and> IsEvictable tt p now \<and> matchingPDBs l p = [pdb] \<and>
      isFullyBlocking pdb \<longrightarrow> canAlwaysEvictUnhealthyPods pdb \<and> NotReady p)"
proof (intro conjI impI)
  show "snd (CanEvictPods tt l ps now) \<longleftrightarrow>
     (\<forall>p \<in> set ps. IsEvictable tt p now \<longrightarrow>
        matchingPDBs l p = [] \<or>
        (\<exists>pdb. matchingPDBs l p = [pdb] \<and>
           (canAlwaysEvictUnhealthyPods pdb \<and> NotReady p \<or> disruptionsAllowed pdb \<noteq> 0)))"
    unfolding snd_CanEvictPods snd_isEvictable pdb_allows_def eviction_blocker.case by blast
next
  assume "\<not> snd (CanEvictPods tt l ps now)"
  then obtain p where "p \<in> set ps" and "\<not> snd (isEvictable tt l p now ZeroDisruptions)"
    and "fst (CanEvictPods tt l ps now) = map piKey (matchingPDBs l p)"
    by (rule CanEvictPods_blocked)
  then show "\<exists>p \<in> set ps. IsWaitingEviction tt p now \<and> matchingPDBs l p \<noteq> [] \<and>
       fst (CanEvictPods tt l ps now) = map piKey (matchingPDBs l p)"
    using evictable_pods_are_drained [of tt p now] unfolding snd_isEvictable by blast
next
  assume asm: "IsCurrentlyReschedulable tt l p now \<and> IsEvictable tt p now \<and> matchingPDBs l p = [pdb] \<and>
      isFullyBlocking pdb"
  then have "snd (isEvictable tt l p now FullyBlockingPDBs)"
    by (simp add: IsCurrentlyReschedulable_def isFullyBlocked_def split_beta split: if_splits)
  with asm have "pdb_allows FullyBlockingPDBs p pdb" by (simp add: snd_isEvictable)
  with asm show "canAlwaysEvictUnhealthyPods pdb" "NotReady p" by (simp_all add: pdb_allows_def)
qed

text \<open>
  C30. The \<^verbatim>\<open>karpenter.sh/do-not-disrupt\<close> protection given as a duration ends: on a started pod whose
  annotation parses to the duration \<open>d\<close> (which then is positive and fits 64 bits) it is active exactly
  before \<open>start + d\<close>, whatever the clock reads, so from then on the pod is disruptable for good, and
  evictable as soon as it is active, is no mirror pod and does not tolerate the disruption taint.\<close>
theorem do_not_disrupt_expires:
  assumes "map_of (podAnnotations p) DoNotDisruptAnnotationKey = Some s" "s \<noteq> ''true''"
    and "parseDoNotDisrupt s = Some d" and "podStartTime p = Some start"
  shows "0 < d \<and> d \<le> MaxInt64 \<and>
    (IsDoNotDisruptActive p now \<longleftrightarrow> now < start + d) \<and>
    (start + d \<le> now \<longrightarrow> IsDisruptable p now \<and>
       (IsEvictable tt p now \<longleftrightarrow>
          IsActive p \<and> \<not> ToleratesDisruptedNoScheduleTaint tt p \<and> \<not> IsOwnedByNode p))"
  using parseDoNotDisrupt_range [OF assms(3)] IsDoNotDisruptActive_duration [OF assms, of now]
  by (simp add: IsDisruptable_def IsEvictable_def)

section \<open>Examples\<close>

definition examplePdb :: pdb_item where
  "examplePdb = \<lparr> piKey = (''default'', ''one''), piMatches = (\<lambda>l. True), disruptionsAllowed = 0,
     isFullyBlocking = True, canAlwaysEvictUnhealthyPods = False \<rparr>"

definition exampleStarted :: pod where
  "exampleStarted = (emptyPod ''p'')\<lparr> podAnnotations := [(DoNotDisruptAnnotationKey, ''5m'')], podStartTime := Some 0 \<rparr>"

lemma example_five_minutes: "parseDoNotDisrupt ''5m'' = Some (5 * Minute)"
  by (simp add: parseDoNotDisrupt_def ParseDuration_def durationTerms.simps durationTerm_def durationUnits_def
      digits_value_def is_digit_def Minute_def MaxInt64_def Let_def)

theorem CanEvictPods_is_exact_witness:
  "\<not> snd (CanEvictPods (\<lambda>_ _. False) [examplePdb] [emptyPod ''p''] 0)"
  using CanEvictPods_is_exact [of "\<lambda>_ _. False" "[examplePdb]" "[emptyPod ''p'']" 0 "emptyPod ''p''" examplePdb]
  by (simp add: IsEvictable_def IsActive_def IsTerminal_def IsTerminating_def emptyPod_def
      ToleratesDisruptedNoScheduleTaint_def ToleratesPod_def Tolerates_def IsOwnedByNode_def IsOwnedBy_def
      IsDoNotDisruptActive_def matchingPDBs_def examplePdb_def)

theorem do_not_disrupt_expires_witness:
  "IsDoNotDisruptActive exampleStarted 0 \<and> IsDisruptable exampleStarted (5 * Minute)"
proof -
  have facts: "map_of (podAnnotations exampleStarted) DoNotDisruptAnnotationKey = Some ''5m''"
    "''5m'' \<noteq> ''true''" "podStartTime exampleStarted = Some 0"
    by (simp_all add: exampleStarted_def)
  note expires = do_not_disrupt_expires [OF facts(1,2) example_five_minutes facts(3)]
  from expires [of 0] expires [of "5 * Minute"] show ?thesis
    by (simp add: Minute_def)
qed

end
