(* ===== verification/RepairPolicy.thy ===== *)
theory RepairPolicy
  imports PodUtils
begin

text \<open>
  \<^verbatim>\<open>pkg/controllers/node/health/policy.go\<close> with the policy types of \<^verbatim>\<open>pkg/cloudprovider/types.go\<close>: the
  validation of the repair policies of a cloud provider, the policies that match a node's conditions,
  and the repair decision at a point in time.

  Times are nanoseconds and durations are differences of times; \<^verbatim>\<open>float64\<close> scores are real numbers.
  \<open>compile\<close> is \<^verbatim>\<open>regexp.Compile\<close>: \<open>None\<close> is its error and \<open>Some f\<close> a compiled expression with
  \<^verbatim>\<open>MatchString\<close> as \<open>f\<close>. A panic of the code is \<open>None\<close>. Error values keep the kind of the violation and
  the index of the policy, not the message.
\<close>

section \<open>Policies\<close>

definition RebootNode :: string where "RebootNode = ''RebootNode''"
definition ReplaceNode :: string where "ReplaceNode = ''ReplaceNode''"

record repair_policy =
  ConditionType :: string
  ConditionStatus :: string
  ReasonRegex :: string
  TolerationDuration :: int
  rpTerminationGracePeriod :: "int option"
  Priority :: int
  Action :: string

definition repairActionRank :: "string \<Rightarrow> int option" where
  "repairActionRank action =
     (if action = ReplaceNode then Some 1 else if action = RebootNode then Some 0 else None)"

definition IsMoreDisruptiveThan :: "string \<Rightarrow> string \<Rightarrow> bool option" where
  "IsMoreDisruptiveThan a other =
     (case repairActionRank a of
        None \<Rightarrow> None
      | Some x \<Rightarrow> map_option (\<lambda>y. x > y) (repairActionRank other))"

record node_condition =
  condType :: string
  condStatus :: string
  condReason :: string
  condLastTransition :: int

record health_node =
  hnCreated :: int
  hnConditions :: "node_condition list"

type_synonym policy_key = "string \<times> string"

definition minRepairPolicyPriority :: int where "minRepairPolicyPriority = 0"
definition maxRepairPolicyPriority :: int where "maxRepairPolicyPriority = 100"
definition agingConstant :: int where "agingConstant = 30 * Minute"

record compiled_policy =
  cpPolicy :: repair_policy
  reasonRegex :: "(string \<Rightarrow> bool) option"
  cpCondition :: node_condition

text \<open>The zero \<^verbatim>\<open>time.Time\<close> is the first of January of the year one.\<close>

definition zeroTime :: int where "zeroTime = - 62135596800 * 1000000000"

definition noCondition :: node_condition where
  "noCondition = \<lparr> condType = [], condStatus = [], condReason = [], condLastTransition = zeroTime \<rparr>"

definition supportedRepairActions :: "string set" where
  "supportedRepairActions = {ReplaceNode, RebootNode}"

record repair_policy_matcher =
  groups :: "(policy_key, compiled_policy list) gomap"
  fallbackPolicy :: compiled_policy
  ranks :: "(int, int) gomap"

section \<open>Validation\<close>

datatype policy_error =
  EmptyConditionType nat
| InvalidConditionStatus nat
| NegativeToleration nat
| NegativeGracePeriod nat
| PriorityOutOfRange nat
| UnsupportedAction nat
| InvalidReasonRegex nat
| MultipleFallbacks nat
| NoFallback
| FallbackNotReplace
| NoPolicies

definition validConditionStatus :: "string \<Rightarrow> bool" where
  "validConditionStatus status \<longleftrightarrow> status = ''True'' \<or> status = ''False'' \<or> status = ''Unknown''"

definition validateRepairPolicy :: "nat \<Rightarrow> repair_policy \<Rightarrow> string set \<Rightarrow> policy_error list" where
  "validateRepairPolicy index policy supportedActions =
     (if ConditionType policy = [] then [EmptyConditionType index] else []) @
     (if \<not> validConditionStatus (ConditionStatus policy) then [InvalidConditionStatus index] else []) @
     (if TolerationDuration policy < 0 then [NegativeToleration index] else []) @
     (case rpTerminationGracePeriod policy of
        None \<Rightarrow> [] | Some d \<Rightarrow> if d < 0 then [NegativeGracePeriod index] else []) @
     (if Priority policy < minRepairPolicyPriority \<or> Priority policy > maxRepairPolicyPriority
      then [PriorityOutOfRange index] else []) @
     (if Action policy \<notin> supportedActions then [UnsupportedAction index] else [])"

definition compileRepairPolicyReasonRegex ::
  "(string \<Rightarrow> (string \<Rightarrow> bool) option) \<Rightarrow> nat \<Rightarrow> repair_policy \<Rightarrow> policy_error + (string \<Rightarrow> bool) option" where
  "compileRepairPolicyReasonRegex compile index policy =
     (if ReasonRegex policy = [] then Inr None
      else case compile (ReasonRegex policy) of
             None \<Rightarrow> Inl (InvalidReasonRegex index)
           | Some f \<Rightarrow> Inr (Some f))"

definition compileRepairPolicy ::
  "(string \<Rightarrow> (string \<Rightarrow> bool) option) \<Rightarrow> nat \<Rightarrow> repair_policy \<Rightarrow> string set \<Rightarrow> compiled_policy \<times> policy_error list" where
  "compileRepairPolicy compile index policy supportedActions =
     (let errs = validateRepairPolicy index policy supportedActions;
          compiled = (\<lambda>r. \<lparr> cpPolicy = policy, reasonRegex = r, cpCondition = noCondition \<rparr>)
      in case compileRepairPolicyReasonRegex compile index policy of
           Inl err \<Rightarrow> (compiled None, errs @ [err])
         | Inr r \<Rightarrow> (compiled r, errs))"

definition denseRanks :: "repair_policy list \<Rightarrow> (int, int) gomap" where
  "denseRanks policies =
     (let priorities = sorted_list_of_set (Priority ` set policies)
      in zip priorities (map int [0..<length priorities]))"

definition policyKeyOf :: "repair_policy \<Rightarrow> policy_key" where
  "policyKeyOf policy = (ConditionType policy, ConditionStatus policy)"

text \<open>The loop over the policies: groups, the fallback if one was seen, and the errors so far.\<close>

fun groupPolicies ::
  "(string \<Rightarrow> (string \<Rightarrow> bool) option) \<Rightarrow> string set \<Rightarrow> nat \<Rightarrow> repair_policy list \<Rightarrow>
   (policy_key, compiled_policy list) gomap \<Rightarrow> compiled_policy option \<Rightarrow> policy_error list \<Rightarrow>
   (policy_key, compiled_policy list) gomap \<times> compiled_policy option \<times> policy_error list" where
  "groupPolicies compile actions i [] grps fallback errs = (grps, fallback, errs)"
| "groupPolicies compile actions i (policy # rest) grps fallback errs =
     (let key = policyKeyOf policy;
          specificPolicies = get_or [] grps key;
          (compiled, es) = compileRepairPolicy compile i policy actions
      in if ReasonRegex policy = []
         then case fallback of
                Some _ \<Rightarrow> groupPolicies compile actions (Suc i) rest (AList.update key specificPolicies grps) fallback
                            (errs @ es @ [MultipleFallbacks i])
              | None \<Rightarrow> groupPolicies compile actions (Suc i) rest (AList.update key specificPolicies grps)
                          (Some compiled) (errs @ es)
         else groupPolicies compile actions (Suc i) rest
                (AList.update key (specificPolicies @ [compiled]) grps) fallback (errs @ es))"

definition newRepairPolicyMatcher ::
  "(string \<Rightarrow> (string \<Rightarrow> bool) option) \<Rightarrow> repair_policy list \<Rightarrow> string set \<Rightarrow>
   policy_error list + repair_policy_matcher" where
  "newRepairPolicyMatcher compile policies supportedActions =
     (case groupPolicies compile supportedActions 0 policies [] None [] of
        (grps, None, errs) \<Rightarrow> Inl (errs @ [NoFallback])
      | (grps, Some fallback, errs) \<Rightarrow>
          let errs' = (if Action (cpPolicy fallback) \<noteq> ReplaceNode then errs @ [FallbackNotReplace] else errs)
          in if errs' \<noteq> [] then Inl errs'
             else Inr \<lparr> groups = grps, fallbackPolicy = fallback, ranks = denseRanks policies \<rparr>)"

text \<open>\<open>Inr None\<close> is the nil matcher of disabled node repair.\<close>

definition NewRepairPolicyMatcher ::
  "(string \<Rightarrow> (string \<Rightarrow> bool) option) \<Rightarrow> bool \<Rightarrow> bool \<Rightarrow> repair_policy list \<Rightarrow>
   policy_error list + repair_policy_matcher option" where
  "NewRepairPolicyMatcher compile nodeRepair legacyNodeRepair policies =
     (if \<not> nodeRepair \<or> legacyNodeRepair then Inr None
      else if length policies = 0 then Inl [NoPolicies]
      else case newRepairPolicyMatcher compile policies supportedRepairActions of
             Inl errs \<Rightarrow> Inl errs
           | Inr m \<Rightarrow> Inr (Some m))"

section \<open>Matching\<close>

record repair_policy_match =
  mPolicy :: compiled_policy
  mRank :: int
  eligibleAt :: int

record match_condition =
  mcType :: string
  mcStatus :: string
  mcReason :: string
  mcLastTransition :: int

definition newMatchCondition :: "node_condition \<Rightarrow> match_condition" where
  "newMatchCondition c =
     \<lparr> mcType = condType c, mcStatus = condStatus c, mcReason = condReason c,
       mcLastTransition = condLastTransition c \<rparr>"

definition matchCreated :: "health_node \<Rightarrow> int" where
  "matchCreated node = hnCreated node"

definition MatchInputsEqual :: "health_node \<Rightarrow> health_node \<Rightarrow> bool" where
  "MatchInputsEqual a b =
     (if matchCreated a \<noteq> matchCreated b \<or> length (hnConditions a) \<noteq> length (hnConditions b) then False
      else list_all (\<lambda>i. newMatchCondition (hnConditions a ! i) = newMatchCondition (hnConditions b ! i))
             [0..<length (hnConditions a)])"

definition newMatch ::
  "repair_policy_matcher \<Rightarrow> compiled_policy \<Rightarrow> node_condition \<Rightarrow> int \<Rightarrow> repair_policy_match" where
  "newMatch p policy condition transitionTime =
     \<lparr> mPolicy = policy \<lparr> cpCondition := condition \<rparr>,
       mRank = get_or 0 (ranks p) (Priority (cpPolicy policy)),
       eligibleAt = transitionTime + TolerationDuration (cpPolicy policy) \<rparr>"

text \<open>The reason-specific policies that match; a missing expression is dereferenced.\<close>

fun matchingPolicies :: "compiled_policy list \<Rightarrow> string \<Rightarrow> compiled_policy list option" where
  "matchingPolicies [] reason = Some []"
| "matchingPolicies (policy # rest) reason =
     (case reasonRegex policy of
        None \<Rightarrow> None
      | Some f \<Rightarrow> map_option (\<lambda>ps. if f reason then policy # ps else ps) (matchingPolicies rest reason))"

definition matchOne ::
  "repair_policy_matcher \<Rightarrow> int \<Rightarrow> match_condition \<Rightarrow> repair_policy_match list option" where
  "matchOne p created c =
     (let condition = noCondition \<lparr> condType := mcType c, condStatus := mcStatus c, condReason := mcReason c \<rparr>;
          transitionTime = (if mcLastTransition c < created then created else mcLastTransition c)
      in case map_of (groups p) (mcType c, mcStatus c) of
           None \<Rightarrow> Some []
         | Some specificPolicies \<Rightarrow>
             map_option
               (\<lambda>ps. if ps = [] then [newMatch p (fallbackPolicy p) condition transitionTime]
                      else map (\<lambda>policy. newMatch p policy condition transitionTime) ps)
               (matchingPolicies specificPolicies (mcReason c)))"

fun matchLoop ::
  "repair_policy_matcher \<Rightarrow> int \<Rightarrow> match_condition list \<Rightarrow> repair_policy_match list option" where
  "matchLoop p created [] = Some []"
| "matchLoop p created (c # cs) =
     (case matchOne p created c of
        None \<Rightarrow> None
      | Some ms \<Rightarrow> map_option ((@) ms) (matchLoop p created cs))"

definition Match :: "repair_policy_matcher \<Rightarrow> health_node \<Rightarrow> repair_policy_match list option" where
  "Match p node = matchLoop p (matchCreated node) (map newMatchCondition (hnConditions node))"

definition MatchesCondition :: "repair_policy_matcher \<Rightarrow> node_condition \<Rightarrow> bool" where
  "MatchesCondition p condition \<longleftrightarrow> map_of (groups p) (condType condition, condStatus condition) \<noteq> None"

section \<open>The repair decision\<close>

record repair_result =
  resAction :: string
  resCondition :: string
  resConditionStatus :: string
  resReason :: string
  resReasonRegex :: string
  Fallback :: bool
  SelectedEligibleAt :: int
  TerminationGracePeriod :: "int option"
  TerminationGracePeriodCondition :: string
  selectedPriority :: int
  terminationGracePeriodEligibleAt :: int
  scoreRank :: int
  scoreEligibleAt :: int

definition emptyResult :: repair_result where
  "emptyResult =
     \<lparr> resAction = [], resCondition = [], resConditionStatus = [], resReason = [], resReasonRegex = [],
       Fallback = False, SelectedEligibleAt = zeroTime, TerminationGracePeriod = None,
       TerminationGracePeriodCondition = [], selectedPriority = 0,
       terminationGracePeriodEligibleAt = zeroTime, scoreRank = 0, scoreEligibleAt = zeroTime \<rparr>"

definition scoreOf :: "int \<Rightarrow> int \<Rightarrow> int \<Rightarrow> real" where
  "scoreOf rank e now =
     real_of_int rank + (real_of_int (subTime now e) / real_of_int Minute) / (real_of_int agingConstant / real_of_int Minute)"

definition ScoreAt :: "repair_result \<Rightarrow> int \<Rightarrow> real" where
  "ScoreAt r now = (if resAction r = [] then 0 else scoreOf (scoreRank r) (scoreEligibleAt r) now)"

definition mergeScore :: "int \<Rightarrow> int \<Rightarrow> int \<Rightarrow> bool \<Rightarrow> repair_result \<Rightarrow> repair_result" where
  "mergeScore rank e now isFirstEligiblePolicy r =
     (if isFirstEligiblePolicy \<or> scoreOf rank e now > ScoreAt r now
      then r \<lparr> scoreRank := rank, scoreEligibleAt := e \<rparr> else r)"

definition shorterTerminationGracePeriod :: "int \<Rightarrow> string \<Rightarrow> int \<Rightarrow> repair_result \<Rightarrow> bool" where
  "shorterTerminationGracePeriod bound condition e r =
     (case TerminationGracePeriod r of
        None \<Rightarrow> True
      | Some d \<Rightarrow>
          if bound \<noteq> d then bound < d
          else if e \<noteq> terminationGracePeriodEligibleAt r then e < terminationGracePeriodEligibleAt r
          else condition < TerminationGracePeriodCondition r)"

definition mergeGracePeriod :: "compiled_policy \<Rightarrow> int \<Rightarrow> repair_result \<Rightarrow> repair_result" where
  "mergeGracePeriod policy e r =
     (case rpTerminationGracePeriod (cpPolicy policy) of
        None \<Rightarrow> r
      | Some d \<Rightarrow>
          if shorterTerminationGracePeriod d (condType (cpCondition policy)) e r
          then r \<lparr> TerminationGracePeriod := Some d, TerminationGracePeriodCondition := condType (cpCondition policy),
                   terminationGracePeriodEligibleAt := e \<rparr>
          else r)"

definition isSelected :: "compiled_policy \<Rightarrow> int \<Rightarrow> bool \<Rightarrow> repair_result \<Rightarrow> bool option" where
  "isSelected policy e isFirstEligiblePolicy r =
     map_option
       (\<lambda>selected.
          if Action (cpPolicy policy) = resAction r
          then (if Priority (cpPolicy policy) \<noteq> selectedPriority r
                then Priority (cpPolicy policy) > selectedPriority r
                else if e \<noteq> SelectedEligibleAt r then e < SelectedEligibleAt r
                else condType (cpCondition policy) < resCondition r)
          else selected)
       (if isFirstEligiblePolicy then Some True
        else IsMoreDisruptiveThan (Action (cpPolicy policy)) (resAction r))"

definition selectPolicy :: "compiled_policy \<Rightarrow> int \<Rightarrow> repair_result \<Rightarrow> repair_result" where
  "selectPolicy policy e r =
     r \<lparr> resAction := Action (cpPolicy policy), resCondition := condType (cpCondition policy),
         resConditionStatus := condStatus (cpCondition policy), resReason := condReason (cpCondition policy),
         resReasonRegex := ReasonRegex (cpPolicy policy), Fallback := (ReasonRegex (cpPolicy policy) = []),
         SelectedEligibleAt := e, selectedPriority := Priority (cpPolicy policy) \<rparr>"

definition mergePolicy ::
  "compiled_policy \<Rightarrow> int \<Rightarrow> int \<Rightarrow> int \<Rightarrow> repair_result \<Rightarrow> repair_result option" where
  "mergePolicy policy rank e now r =
     (if e > now then Some r
      else let isFirstEligiblePolicy = (resAction r = []);
               r1 = mergeScore rank e now isFirstEligiblePolicy r;
               r2 = mergeGracePeriod policy e r1
           in map_option (\<lambda>selected. if selected then selectPolicy policy e r2 else r2)
                (isSelected policy e isFirstEligiblePolicy r2))"

definition effectiveAt :: "int \<Rightarrow> repair_policy_match \<Rightarrow> int" where
  "effectiveAt notBefore match =
     (let earliest = notBefore + TolerationDuration (cpPolicy (mPolicy match))
      in if eligibleAt match < earliest then earliest else eligibleAt match)"

fun resolveLoop :: "repair_policy_match list \<Rightarrow> int \<Rightarrow> int \<Rightarrow> repair_result \<Rightarrow> repair_result option" where
  "resolveLoop [] now notBefore r = Some r"
| "resolveLoop (match # rest) now notBefore r =
     (case mergePolicy (mPolicy match) (mRank match) (effectiveAt notBefore match) now r of
        None \<Rightarrow> None
      | Some r' \<Rightarrow> resolveLoop rest now notBefore r')"

definition Resolve :: "repair_policy_match list \<Rightarrow> int \<Rightarrow> int \<Rightarrow> repair_result option" where
  "Resolve matches now notBefore = resolveLoop matches now notBefore emptyResult"

section \<open>Choosing the best of a list\<close>

text \<open>The three merges of a decision keep the better of the current and the next policy under a strict
  order: the most urgent action, the shortest grace period and the highest score.\<close>

definition best_of :: "('a \<Rightarrow> 'a \<Rightarrow> bool) \<Rightarrow> 'a set \<Rightarrow> 'a \<Rightarrow> bool" where
  "best_of better E x \<longleftrightarrow> x \<in> E \<and> (\<forall>y \<in> E. \<not> better y x)"

locale strict_preference =
  fixes better :: "'a \<Rightarrow> 'a \<Rightarrow> bool"
  assumes better_trans: "better x y \<Longrightarrow> better y z \<Longrightarrow> better x z"
    and better_irrefl: "\<not> better x x"
begin

lemma best_of_single: "best_of better {x} x"
  by (simp add: best_of_def better_irrefl)

lemma best_of_step:
  "best_of better E x \<Longrightarrow> best_of better (insert y E) (if better y x then y else x)"
  using better_trans better_irrefl unfolding best_of_def by (cases "better y x") auto

end

section \<open>Eligible policies and their orders\<close>

type_synonym eligible = "compiled_policy \<times> int \<times> int"

text \<open>An eligible policy with its rank and the time it became eligible.\<close>

definition eligibleOf :: "int \<Rightarrow> repair_policy_match \<Rightarrow> eligible" where
  "eligibleOf notBefore m = (mPolicy m, mRank m, effectiveAt notBefore m)"

definition eligibleSet :: "int \<Rightarrow> int \<Rightarrow> repair_policy_match list \<Rightarrow> eligible set" where
  "eligibleSet now notBefore ms = {(p, rank, e) \<in> eligibleOf notBefore ` set ms. e \<le> now}"

definition actionRank :: "compiled_policy \<Rightarrow> int" where
  "actionRank p = (if Action (cpPolicy p) = ReplaceNode then 1 else 0)"

fun moreUrgent :: "eligible \<Rightarrow> eligible \<Rightarrow> bool" where
  "moreUrgent (p, rank, e) (p', rank', e') \<longleftrightarrow>
     actionRank p > actionRank p' \<or> actionRank p = actionRank p' \<and>
     (Priority (cpPolicy p) > Priority (cpPolicy p') \<or> Priority (cpPolicy p) = Priority (cpPolicy p') \<and>
      (e < e' \<or> e = e' \<and> condType (cpCondition p) < condType (cpCondition p')))"

fun shorterGrace :: "eligible \<Rightarrow> eligible \<Rightarrow> bool" where
  "shorterGrace (p, rank, e) (p', rank', e') =
     (case (rpTerminationGracePeriod (cpPolicy p), rpTerminationGracePeriod (cpPolicy p')) of
        (None, _) \<Rightarrow> False
      | (Some d, None) \<Rightarrow> True
      | (Some d, Some d') \<Rightarrow>
          d < d' \<or> d = d' \<and> (e < e' \<or> e = e' \<and> condType (cpCondition p) < condType (cpCondition p')))"

fun higherScore :: "int \<Rightarrow> eligible \<Rightarrow> eligible \<Rightarrow> bool" where
  "higherScore now (p, rank, e) (p', rank', e') \<longleftrightarrow> scoreOf rank e now > scoreOf rank' e' now"

interpretation urgent: strict_preference moreUrgent
  by unfold_locales (auto split: prod.splits)

interpretation grace: strict_preference shorterGrace
  by unfold_locales (auto split: prod.splits option.splits)

interpretation score: strict_preference "higherScore now" for now
  by unfold_locales auto

section \<open>What a decision says\<close>

fun selectedFrom :: "repair_result \<Rightarrow> eligible \<Rightarrow> bool" where
  "selectedFrom r (p, rank, e) \<longleftrightarrow>
     resAction r = Action (cpPolicy p) \<and> resCondition r = condType (cpCondition p) \<and>
     resConditionStatus r = condStatus (cpCondition p) \<and> resReason r = condReason (cpCondition p) \<and>
     resReasonRegex r = ReasonRegex (cpPolicy p) \<and> Fallback r = (ReasonRegex (cpPolicy p) = []) \<and>
     SelectedEligibleAt r = e \<and> selectedPriority r = Priority (cpPolicy p)"

fun graceFrom :: "repair_result \<Rightarrow> eligible \<Rightarrow> bool" where
  "graceFrom r (p, rank, e) \<longleftrightarrow>
     TerminationGracePeriod r = rpTerminationGracePeriod (cpPolicy p) \<and>
     (rpTerminationGracePeriod (cpPolicy p) \<noteq> None \<longrightarrow>
        TerminationGracePeriodCondition r = condType (cpCondition p) \<and> terminationGracePeriodEligibleAt r = e)"

fun scoreFrom :: "repair_result \<Rightarrow> eligible \<Rightarrow> bool" where
  "scoreFrom r (p, rank, e) \<longleftrightarrow> scoreRank r = rank \<and> scoreEligibleAt r = e"

definition supported :: "compiled_policy \<Rightarrow> bool" where
  "supported p \<longleftrightarrow> Action (cpPolicy p) \<in> supportedRepairActions"

definition decided :: "int \<Rightarrow> eligible set \<Rightarrow> repair_result \<Rightarrow> bool" where
  "decided now E r \<longleftrightarrow>
     (\<exists>x. best_of moreUrgent E x \<and> selectedFrom r x) \<and>
     (\<exists>x. best_of shorterGrace E x \<and> graceFrom r x) \<and>
     (\<exists>x. best_of (higherScore now) E x \<and> scoreFrom r x)"

lemma supported_action: "supported p \<Longrightarrow> Action (cpPolicy p) \<noteq> []"
  by (auto simp: supported_def supportedRepairActions_def ReplaceNode_def RebootNode_def)

lemma more_disruptive:
  "supported p \<Longrightarrow> supported q \<Longrightarrow>
     IsMoreDisruptiveThan (Action (cpPolicy p)) (Action (cpPolicy q)) = Some (actionRank p > actionRank q)"
  by (auto simp: supported_def supportedRepairActions_def IsMoreDisruptiveThan_def repairActionRank_def
      actionRank_def ReplaceNode_def RebootNode_def)

lemma same_action:
  "supported p \<Longrightarrow> supported q \<Longrightarrow> Action (cpPolicy p) = Action (cpPolicy q) \<longleftrightarrow> actionRank p = actionRank q"
  by (auto simp: supported_def supportedRepairActions_def actionRank_def ReplaceNode_def RebootNode_def)

lemma merge_frames:
  "selectedFrom (mergeScore rank e now first r) x = selectedFrom r x"
  "graceFrom (mergeScore rank e now first r) x = graceFrom r x"
  "TerminationGracePeriod (mergeScore rank e now first r) = TerminationGracePeriod r"
  "selectedFrom (mergeGracePeriod p e r) x = selectedFrom r x"
  "scoreFrom (mergeGracePeriod p e r) x = scoreFrom r x"
  "graceFrom (selectPolicy p e r) x = graceFrom r x"
  "scoreFrom (selectPolicy p e r) x = scoreFrom r x"
  "resAction (mergeGracePeriod p e r) = resAction r"
  "resAction (mergeScore rank e now first r) = resAction r"
  by (cases x; simp add: mergeScore_def mergeGracePeriod_def selectPolicy_def split: option.splits)+

lemma mergeScore_first: "scoreFrom (mergeScore rank e now True r) (p, rank, e)"
  by (simp add: mergeScore_def)

lemma mergeScore_next:
  "scoreFrom r x \<Longrightarrow> resAction r \<noteq> [] \<Longrightarrow>
     scoreFrom (mergeScore rank e now False r) (if higherScore now (p, rank, e) x then (p, rank, e) else x)"
  by (cases x) (auto simp: mergeScore_def ScoreAt_def)

lemma mergeGracePeriod_first:
  "TerminationGracePeriod r = None \<Longrightarrow> graceFrom (mergeGracePeriod p e r) (p, rank, e)"
  by (auto simp: mergeGracePeriod_def shorterTerminationGracePeriod_def split: option.splits)

lemma mergeGracePeriod_next:
  "graceFrom r x \<Longrightarrow>
     graceFrom (mergeGracePeriod p e r) (if shorterGrace (p, rank, e) x then (p, rank, e) else x)"
  by (cases x) (auto simp: mergeGracePeriod_def shorterTerminationGracePeriod_def split: option.splits)

lemma selectPolicy_from: "selectedFrom (selectPolicy p e r) (p, rank, e)"
  by (simp add: selectPolicy_def)

lemma isSelected_next:
  assumes "selectedFrom r (q, rank', e')" "supported p" "supported q"
  shows "isSelected p e False r = Some (moreUrgent (p, rank, e) (q, rank', e'))"
  using assms(1) more_disruptive [OF assms(2,3)] same_action [OF assms(2,3)]
  by (auto simp: isSelected_def)

lemma mergePolicy_first:
  assumes "e \<le> now" "supported p"
  shows "\<exists>r'. mergePolicy p rank e now emptyResult = Some r' \<and> decided now {(p, rank, e)} r'"
proof -
  let ?y = "(p, rank, e)" and ?r1 = "mergeScore rank e now True emptyResult"
  let ?r2 = "mergeGracePeriod p e ?r1"
  have empty: "resAction emptyResult = []" "TerminationGracePeriod emptyResult = None"
    by (simp_all add: emptyResult_def)
  have "isSelected p e True ?r2 = Some True"
    using supported_action [OF assms(2)] by (simp add: isSelected_def merge_frames empty)
  then have eq: "mergePolicy p rank e now emptyResult = Some (selectPolicy p e ?r2)"
    using assms(1) by (simp add: mergePolicy_def Let_def empty)
  have "graceFrom ?r2 ?y" by (rule mergeGracePeriod_first) (simp add: merge_frames empty)
  then have "decided now {?y} (selectPolicy p e ?r2)"
    unfolding decided_def
    using urgent.best_of_single [of ?y] grace.best_of_single [of ?y] score.best_of_single [of now ?y]
      selectPolicy_from [of p e ?r2 rank] mergeScore_first [of rank e now emptyResult p]
    by (intro conjI exI [of _ ?y]) (simp_all only: merge_frames)
  then show ?thesis using eq by blast
qed

lemma decided_action:
  assumes "decided now E r" "\<forall>x \<in> E. supported (fst x)"
  shows "resAction r \<noteq> []"
proof -
  from assms(1) obtain x where "best_of moreUrgent E x" "selectedFrom r x" by (auto simp: decided_def)
  then show ?thesis using assms(2) supported_action by (cases x) (auto simp: best_of_def)
qed

lemma mergePolicy_next:
  assumes "e \<le> now" "supported p" "decided now E r" and E: "\<forall>x \<in> E. supported (fst x)"
  shows "\<exists>r'. mergePolicy p rank e now r = Some r' \<and> decided now (insert (p, rank, e) E) r'"
proof -
  let ?y = "(p, rank, e)" and ?r1 = "mergeScore rank e now False r"
  let ?r2 = "mergeGracePeriod p e ?r1"
  from assms(3) obtain u g s where u: "best_of moreUrgent E u" "selectedFrom r u"
    and g: "best_of shorterGrace E g" "graceFrom r g"
    and s: "best_of (higherScore now) E s" "scoreFrom r s"
    unfolding decided_def by blast
  have act: "resAction r \<noteq> []" by (rule decided_action [OF assms(3) E])
  obtain q rk' e' where u_eq: "u = (q, rk', e')" by (cases u)
  with u E have q: "supported q" by (auto simp: best_of_def)
  define r' where "r' = (if moreUrgent ?y u then selectPolicy p e ?r2 else ?r2)"
  have "isSelected p e False ?r2 = Some (moreUrgent ?y u)"
    unfolding u_eq by (rule isSelected_next [OF _ assms(2) q]) (use u(2) u_eq in \<open>simp only: merge_frames\<close>)
  then have eq: "mergePolicy p rank e now r = Some r'"
    using assms(1) act by (simp add: mergePolicy_def Let_def r'_def)
  have "selectedFrom r' (if moreUrgent ?y u then ?y else u)"
    using u(2) selectPolicy_from [of p e ?r2 rank] by (simp add: r'_def merge_frames del: selectedFrom.simps)
  moreover have "graceFrom r' (if shorterGrace ?y g then ?y else g)"
    using mergeGracePeriod_next [of ?r1 g p e rank] g(2) by (simp add: r'_def merge_frames del: graceFrom.simps shorterGrace.simps split: if_splits)
  moreover have "scoreFrom r' (if higherScore now ?y s then ?y else s)"
    using mergeScore_next [OF s(2) act, of rank e now p] by (simp add: r'_def merge_frames del: scoreFrom.simps higherScore.simps split: if_splits)
  ultimately have "decided now (insert ?y E) r'"
    unfolding decided_def
    using urgent.best_of_step [OF u(1), of ?y] grace.best_of_step [OF g(1), of ?y] score.best_of_step [OF s(1), of ?y]
    by (intro conjI) (rule exI, erule conjI, assumption)+
  then show ?thesis using eq by blast
qed

lemma eligibleSet_Nil [simp]: "eligibleSet now notBefore [] = {}"
  by (simp add: eligibleSet_def)

lemma eligibleSet_Cons:
  "eligibleSet now notBefore (m # ms) =
     (if effectiveAt notBefore m \<le> now then insert (eligibleOf notBefore m) (eligibleSet now notBefore ms)
      else eligibleSet now notBefore ms)"
  by (auto simp: eligibleSet_def eligibleOf_def)

lemma resolveLoop_decided:
  assumes "\<forall>m \<in> set ms. supported (mPolicy m)" "\<forall>x \<in> E. supported (fst x)"
    and "if E = {} then r = emptyResult else decided now E r"
  shows "\<exists>r'. resolveLoop ms now notBefore r = Some r' \<and>
    (if E \<union> eligibleSet now notBefore ms = {} then r' = emptyResult
     else decided now (E \<union> eligibleSet now notBefore ms) r')"
  using assms
proof (induction ms arbitrary: E r)
  case Nil
  then show ?case by simp
next
  case (Cons m ms)
  let ?e = "effectiveAt notBefore m" and ?y = "eligibleOf notBefore m"
  show ?case
  proof (cases "?e \<le> now")
    case False
    then have "mergePolicy (mPolicy m) (mRank m) ?e now r = Some r" by (simp add: mergePolicy_def)
    then have skip: "resolveLoop (m # ms) now notBefore r = resolveLoop ms now notBefore r"
      "eligibleSet now notBefore (m # ms) = eligibleSet now notBefore ms"
      using False by (simp_all add: eligibleSet_Cons)
    show ?thesis unfolding skip by (rule Cons.IH) (use Cons.prems in simp_all)
  next
    case True
    have m: "supported (mPolicy m)" using Cons.prems(1) by simp
    obtain r1 where r1: "mergePolicy (mPolicy m) (mRank m) ?e now r = Some r1" "decided now (insert ?y E) r1"
    proof (cases "E = {}")
      case empty: True
      with Cons.prems(3) show ?thesis
        using mergePolicy_first [OF True m, of "mRank m"] by (auto simp: eligibleOf_def intro: that)
    next
      case False
      with Cons.prems(3) have "decided now E r" by simp
      from mergePolicy_next [OF True m this Cons.prems(2), of "mRank m"] show ?thesis
        by (auto simp: eligibleOf_def intro: that)
    qed
    have "\<forall>x \<in> insert ?y E. supported (fst x)" using m Cons.prems(2) by (auto simp: eligibleOf_def)
    moreover have step: "resolveLoop (m # ms) now notBefore r = resolveLoop ms now notBefore r1"
      "E \<union> eligibleSet now notBefore (m # ms) = insert ?y E \<union> eligibleSet now notBefore ms"
      using r1(1) True by (simp_all add: eligibleSet_Cons)
    ultimately show ?thesis unfolding step using Cons.prems(1) r1(2) by (intro Cons.IH) simp_all
  qed
qed

lemma Resolve_decided:
  assumes "\<forall>m \<in> set ms. supported (mPolicy m)"
  obtains r where "Resolve ms now notBefore = Some r"
    and "eligibleSet now notBefore ms = {} \<Longrightarrow> r = emptyResult"
    and "eligibleSet now notBefore ms \<noteq> {} \<Longrightarrow> decided now (eligibleSet now notBefore ms) r"
  using resolveLoop_decided [OF assms, of "{}" emptyResult now notBefore]
  by (auto simp: Resolve_def split: if_splits)

section \<open>Matching\<close>

text \<open>What validation gives: every expression is compiled, actions are supported and tolerations are
  not negative.\<close>

definition policy_ok :: "compiled_policy \<Rightarrow> bool" where
  "policy_ok p \<longleftrightarrow> supported p \<and> 0 \<le> TolerationDuration (cpPolicy p) \<and>
     (ReasonRegex (cpPolicy p) \<noteq> [] \<longleftrightarrow> reasonRegex p \<noteq> None)"

definition groups_ok :: "(policy_key, compiled_policy list) gomap \<Rightarrow> bool" where
  "groups_ok grps \<longleftrightarrow> (\<forall>key. \<forall>q \<in> set (get_or [] grps key).
     policy_ok q \<and> ReasonRegex (cpPolicy q) \<noteq> [] \<and> policyKeyOf (cpPolicy q) = key)"

definition matcher_ok :: "repair_policy_matcher \<Rightarrow> bool" where
  "matcher_ok p \<longleftrightarrow> policy_ok (fallbackPolicy p) \<and> ReasonRegex (cpPolicy (fallbackPolicy p)) = [] \<and>
     Action (cpPolicy (fallbackPolicy p)) = ReplaceNode \<and>
     groups_ok (groups p)"

definition policy_valid :: "(string \<Rightarrow> (string \<Rightarrow> bool) option) \<Rightarrow> repair_policy \<Rightarrow> bool" where
  "policy_valid compile p \<longleftrightarrow>
     ConditionType p \<noteq> [] \<and> validConditionStatus (ConditionStatus p) \<and> 0 \<le> TolerationDuration p \<and>
     (\<forall>d. rpTerminationGracePeriod p = Some d \<longrightarrow> 0 \<le> d) \<and> 0 \<le> Priority p \<and> Priority p \<le> 100 \<and>
     Action p \<in> supportedRepairActions \<and> (ReasonRegex p \<noteq> [] \<longrightarrow> compile (ReasonRegex p) \<noteq> None)"

lemma validate_Nil_iff:
  "validateRepairPolicy i p supportedRepairActions = [] \<longleftrightarrow>
     ConditionType p \<noteq> [] \<and> validConditionStatus (ConditionStatus p) \<and> 0 \<le> TolerationDuration p \<and>
     (\<forall>d. rpTerminationGracePeriod p = Some d \<longrightarrow> 0 \<le> d) \<and> 0 \<le> Priority p \<and> Priority p \<le> 100 \<and>
     Action p \<in> supportedRepairActions"
  by (auto simp: validateRepairPolicy_def minRepairPolicyPriority_def maxRepairPolicyPriority_def
      split: option.splits)

lemma compile_Nil_iff:
  "snd (compileRepairPolicy compile i p supportedRepairActions) = [] \<longleftrightarrow> policy_valid compile p"
  by (cases "compile (ReasonRegex p)")
     (auto simp: compileRepairPolicy_def compileRepairPolicyReasonRegex_def policy_valid_def validate_Nil_iff Let_def)

lemma compiled_policy:
  "cpPolicy (fst (compileRepairPolicy compile i p A)) = p"
  by (auto simp: compileRepairPolicy_def Let_def split: sum.splits)

lemma compiled_ok:
  "policy_valid compile p \<Longrightarrow> policy_ok (fst (compileRepairPolicy compile i p supportedRepairActions))"
  by (cases "compile (ReasonRegex p)")
     (auto simp: compileRepairPolicy_def compileRepairPolicyReasonRegex_def policy_valid_def policy_ok_def
       supported_def Let_def)

definition isFallback :: "repair_policy \<Rightarrow> bool" where
  "isFallback p \<longleftrightarrow> ReasonRegex p = []"

lemma groupPolicies_errors:
  assumes "groupPolicies compile supportedRepairActions i ps grps fallback errs = (grps', fallback', errs')"
  shows "(errs' = [] \<longleftrightarrow> errs = [] \<and> list_all (policy_valid compile) ps \<and>
           length (filter isFallback ps) + (if fallback = None then 0 else 1) \<le> 1) \<and>
    map_option cpPolicy fallback' =
      (case fallback of Some f \<Rightarrow> Some (cpPolicy f)
       | None \<Rightarrow> if filter isFallback ps = [] then None else Some (hd (filter isFallback ps)))"
  using assms
proof (induction ps arbitrary: i grps fallback errs)
  case Nil
  then show ?case by (auto split: option.splits)
next
  case (Cons p ps)
  obtain c es where c: "compileRepairPolicy compile i p supportedRepairActions = (c, es)" by fastforce
  then have es: "es = [] \<longleftrightarrow> policy_valid compile p" and cp: "cpPolicy c = p"
    using compile_Nil_iff [of compile i p] compiled_policy [of compile i p supportedRepairActions] by simp_all
  show ?case
  proof (cases "isFallback p")
    case True
    then have "ReasonRegex p = []" by (simp add: isFallback_def)
    with True show ?thesis
      using Cons.prems c es cp by (cases fallback) (auto simp: Let_def dest!: Cons.IH)
  next
    case False
    then have "ReasonRegex p \<noteq> []" by (simp add: isFallback_def)
    with False show ?thesis
      using Cons.prems c es by (auto simp: Let_def dest!: Cons.IH)
  qed
qed

lemma groups_ok_update:
  "groups_ok grps \<Longrightarrow> policy_ok c \<Longrightarrow> ReasonRegex (cpPolicy c) \<noteq> [] \<Longrightarrow> key = policyKeyOf (cpPolicy c) \<Longrightarrow>
     groups_ok (AList.update key (get_or [] grps key @ [c]) grps)"
  "groups_ok grps \<Longrightarrow> groups_ok (AList.update key (get_or [] grps key) grps)"
  unfolding groups_ok_def by (auto simp: gomap_simps simp del: split_paired_All)

lemma groupPolicies_groups:
  assumes "groupPolicies compile supportedRepairActions i ps grps fallback errs = (grps', fallback', errs')"
    and "list_all (policy_valid compile) ps" "groups_ok grps"
    and "\<forall>f. fallback = Some f \<longrightarrow> policy_ok f"
  shows "groups_ok grps' \<and> (\<forall>f. fallback' = Some f \<longrightarrow> policy_ok f) \<and>
    fst ` set grps' = fst ` set grps \<union> policyKeyOf ` set ps"
  using assms
proof (induction ps arbitrary: i grps fallback errs)
  case Nil
  then show ?case by simp
next
  case (Cons p ps)
  obtain c es where c: "compileRepairPolicy compile i p supportedRepairActions = (c, es)" by fastforce
  have ok: "policy_ok c" and cp: "cpPolicy c = p"
    using compiled_ok [of compile p i] compiled_policy [of compile i p supportedRepairActions] c Cons.prems(2)
    by simp_all
  define grps1 where "grps1 = AList.update (policyKeyOf p)
    (get_or [] grps (policyKeyOf p) @ (if ReasonRegex p = [] then [] else [c])) grps"
  obtain fb errs1 where rec: "groupPolicies compile supportedRepairActions (Suc i) ps grps1 fb errs1 = (grps', fallback', errs')"
    and fb: "\<forall>f. fb = Some f \<longrightarrow> policy_ok f"
    using Cons.prems(1,4) c ok
    by (cases "ReasonRegex p = []"; cases fallback) (auto simp: Let_def grps1_def)
  have valid: "list_all (policy_valid compile) ps" using Cons.prems(2) by simp
  have ok1: "groups_ok grps1"
    using groups_ok_update(1) [OF Cons.prems(3) ok, of "policyKeyOf p"] groups_ok_update(2) [OF Cons.prems(3), of "policyKeyOf p"] cp
    by (simp add: grps1_def)
  from Cons.IH [OF rec valid ok1 fb] show ?case by (simp add: grps1_def keys_update)
qed

lemma newRepairPolicyMatcher_iff:
  "(\<exists>m. newRepairPolicyMatcher compile ps supportedRepairActions = Inr m) \<longleftrightarrow>
     list_all (policy_valid compile) ps \<and>
     (\<exists>f. filter isFallback ps = [f] \<and> Action f = ReplaceNode)"
proof -
  obtain grps fallback errs where g: "groupPolicies compile supportedRepairActions 0 ps [] None [] = (grps, fallback, errs)"
    by (cases "groupPolicies compile supportedRepairActions 0 ps [] None []")
  from groupPolicies_errors [OF g]
  have errs: "errs = [] \<longleftrightarrow> list_all (policy_valid compile) ps \<and> length (filter isFallback ps) \<le> 1"
    and fb: "map_option cpPolicy fallback = (if filter isFallback ps = [] then None else Some (hd (filter isFallback ps)))"
    by simp_all
  show ?thesis
  proof (cases fallback)
    case None
    with fb show ?thesis by (auto simp: newRepairPolicyMatcher_def g split: if_splits)
  next
    case (Some f)
    with fb have hd: "filter isFallback ps \<noteq> []" "cpPolicy f = hd (filter isFallback ps)" by (auto split: if_splits)
    then have "length (filter isFallback ps) \<le> 1 \<longleftrightarrow> filter isFallback ps = [cpPolicy f]"
      by (cases "filter isFallback ps") auto
    then show ?thesis
      using errs hd Some by (auto simp: newRepairPolicyMatcher_def g Let_def)
  qed
qed

lemma newRepairPolicyMatcher_ok:
  assumes "newRepairPolicyMatcher compile ps supportedRepairActions = Inr m"
  shows "matcher_ok m" "fst ` set (groups m) = policyKeyOf ` set ps" "ranks m = denseRanks ps"
proof -
  obtain grps fallback errs where g: "groupPolicies compile supportedRepairActions 0 ps [] None [] = (grps, fallback, errs)"
    by (cases "groupPolicies compile supportedRepairActions 0 ps [] None []")
  with assms obtain f where f: "fallback = Some f" "errs = []" "Action (cpPolicy f) = ReplaceNode"
    and m: "m = \<lparr> groups = grps, fallbackPolicy = f, ranks = denseRanks ps \<rparr>"
    by (auto simp: newRepairPolicyMatcher_def Let_def split: option.splits if_splits)
  from groupPolicies_errors [OF g] f have valid: "list_all (policy_valid compile) ps"
    and hd: "filter isFallback ps \<noteq> []" "cpPolicy f = hd (filter isFallback ps)"
    by (auto split: if_splits)
  have "cpPolicy f \<in> set (filter isFallback ps)" unfolding hd(2) by (rule hd_in_set [OF hd(1)])
  then have "isFallback (cpPolicy f)" by simp
  moreover have "groups_ok grps \<and> policy_ok f \<and> fst ` set grps = policyKeyOf ` set ps"
    using groupPolicies_groups [OF g valid] f by (simp add: groups_ok_def get_or_def)
  ultimately show "matcher_ok m" "fst ` set (groups m) = policyKeyOf ` set ps" "ranks m = denseRanks ps"
    using f(3) by (simp_all add: matcher_ok_def isFallback_def m)
qed

lemma matchingPolicies_ok:
  "\<forall>q \<in> set ps. reasonRegex q \<noteq> None \<Longrightarrow>
     matchingPolicies ps reason = Some (filter (\<lambda>q. the (reasonRegex q) reason) ps)"
  by (induction ps) auto

lemma MatchInputsEqual_iff:
  "MatchInputsEqual a b \<longleftrightarrow>
     hnCreated a = hnCreated b \<and> map newMatchCondition (hnConditions a) = map newMatchCondition (hnConditions b)"
  unfolding map_equality_iff by (auto simp: MatchInputsEqual_def matchCreated_def list_all_iff)

text \<open>The policies that apply to a condition, and the start of its toleration.\<close>

definition applicable :: "repair_policy_matcher \<Rightarrow> node_condition \<Rightarrow> compiled_policy set" where
  "applicable p c =
     (if MatchesCondition p c
      then let specific = {q \<in> set (get_or [] (groups p) (condType c, condStatus c)). the (reasonRegex q) (condReason c)}
           in if specific = {} then {fallbackPolicy p} else specific
      else {})"

definition matchFor :: "repair_policy_matcher \<Rightarrow> int \<Rightarrow> node_condition \<Rightarrow> compiled_policy \<Rightarrow> repair_policy_match" where
  "matchFor p created c q =
     newMatch p q (c \<lparr> condLastTransition := zeroTime \<rparr>) (max created (condLastTransition c))"

lemma regex_present: "groups_ok grps \<Longrightarrow> q \<in> set (get_or [] grps key) \<Longrightarrow> reasonRegex q \<noteq> None"
  by (auto simp: groups_ok_def policy_ok_def simp del: split_paired_All)

lemma matchOne_ok:
  assumes "matcher_ok p"
  obtains ms where "matchOne p created (newMatchCondition c) = Some ms"
    and "set ms = matchFor p created c ` applicable p c"
proof -
  let ?key = "(condType c, condStatus c)"
  have cond: "noCondition \<lparr> condType := condType c, condStatus := condStatus c, condReason := condReason c \<rparr> =
      c \<lparr> condLastTransition := zeroTime \<rparr>"
    by (simp add: noCondition_def)
  have time: "(if condLastTransition c < created then created else condLastTransition c) =
      max created (condLastTransition c)" by simp
  show ?thesis
  proof (cases "map_of (groups p) ?key")
    case None
    then have "applicable p c = {}" by (simp add: applicable_def MatchesCondition_def)
    then show ?thesis using None that [of "[]"] by (simp add: matchOne_def newMatchCondition_def)
  next
    case (Some sp)
    let ?ps = "filter (\<lambda>q. the (reasonRegex q) (condReason c)) sp"
    have got: "get_or [] (groups p) ?key = sp" by (simp add: get_or_def Some)
    have "\<forall>q \<in> set sp. reasonRegex q \<noteq> None"
      using assms regex_present [of "groups p" _ ?key] by (simp add: matcher_ok_def got)
    then have "matchingPolicies sp (condReason c) = Some ?ps" by (rule matchingPolicies_ok)
    then have one: "matchOne p created (newMatchCondition c) =
        Some (if ?ps = [] then [matchFor p created c (fallbackPolicy p)] else map (matchFor p created c) ?ps)"
      by (simp add: matchOne_def newMatchCondition_def Some matchFor_def cond time Let_def fun_eq_iff max_def cong: map_cong)
    have app: "applicable p c = (if set ?ps = {} then {fallbackPolicy p} else set ?ps)"
      by (auto simp: applicable_def MatchesCondition_def Some got Let_def)
    show ?thesis
      by (rule that [OF one]) (auto simp: app filter_empty_conv)
  qed
qed

lemma matchLoop_ok:
  assumes "matcher_ok p"
  shows "\<exists>ms. matchLoop p created (map newMatchCondition cs) = Some ms \<and>
    set ms = (\<Union>c \<in> set cs. matchFor p created c ` applicable p c)"
proof (induction cs)
  case Nil
  then show ?case by simp
next
  case (Cons c cs)
  obtain ms where "matchOne p created (newMatchCondition c) = Some ms" "set ms = matchFor p created c ` applicable p c"
    by (rule matchOne_ok [OF assms])
  with Cons.IH show ?case by auto
qed

lemma matchFor_policy: "cpPolicy (mPolicy (matchFor p created c q)) = cpPolicy q"
  by (simp add: matchFor_def newMatch_def)

lemma applicable_supported:
  assumes "matcher_ok p" "q \<in> applicable p c"
  shows "supported q"
  using assms
  by (auto simp: applicable_def matcher_ok_def groups_ok_def policy_ok_def Let_def simp del: split_paired_All
      split: if_splits)

lemma Match_ok:
  assumes "matcher_ok p"
  obtains ms where "Match p node = Some ms"
    and "set ms = (\<Union>c \<in> set (hnConditions node). matchFor p (hnCreated node) c ` applicable p c)"
    and "\<forall>m \<in> set ms. supported (mPolicy m)"
proof -
  obtain ms where ms: "Match p node = Some ms"
    "set ms = (\<Union>c \<in> set (hnConditions node). matchFor p (hnCreated node) c ` applicable p c)"
    using matchLoop_ok [OF assms, of "hnCreated node" "hnConditions node"] by (auto simp: Match_def matchCreated_def)
  moreover have "\<forall>m \<in> set ms. supported (mPolicy m)"
    using ms(2) applicable_supported [OF assms] by (auto simp: supported_def matchFor_policy)
  ultimately show ?thesis by (rule that)
qed

lemma decided_unique:
  assumes "decided now E r" "decided now E r'" "\<forall>x \<in> E. supported (fst x)"
  shows "resAction r = resAction r' \<and> resCondition r = resCondition r' \<and>
    SelectedEligibleAt r = SelectedEligibleAt r' \<and> selectedPriority r = selectedPriority r' \<and>
    TerminationGracePeriod r = TerminationGracePeriod r' \<and> ScoreAt r now = ScoreAt r' now"
proof -
  from assms(1) obtain p k e p2 k2 e2 p3 k3 e3 where
    u: "best_of moreUrgent E (p, k, e)" "selectedFrom r (p, k, e)" and
    g: "best_of shorterGrace E (p2, k2, e2)" "graceFrom r (p2, k2, e2)" and
    s: "best_of (higherScore now) E (p3, k3, e3)" "scoreFrom r (p3, k3, e3)"
    by (auto simp: decided_def)
  from assms(2) obtain q l f q2 l2 f2 q3 l3 f3 where
    u': "best_of moreUrgent E (q, l, f)" "selectedFrom r' (q, l, f)" and
    g': "best_of shorterGrace E (q2, l2, f2)" "graceFrom r' (q2, l2, f2)" and
    s': "best_of (higherScore now) E (q3, l3, f3)" "scoreFrom r' (q3, l3, f3)"
    by (auto simp: decided_def)
  have sup: "supported p" "supported q" using u(1) u'(1) assms(3) by (auto simp: best_of_def)
  have "\<not> moreUrgent (p, k, e) (q, l, f)" "\<not> moreUrgent (q, l, f) (p, k, e)"
    using u(1) u'(1) by (auto simp: best_of_def)
  then have "actionRank p = actionRank q" "Priority (cpPolicy p) = Priority (cpPolicy q)" "e = f"
    "condType (cpCondition p) = condType (cpCondition q)"
    by auto
  moreover have "\<not> shorterGrace (p2, k2, e2) (q2, l2, f2)" "\<not> shorterGrace (q2, l2, f2) (p2, k2, e2)"
    using g(1) g'(1) by (auto simp: best_of_def)
  then have "rpTerminationGracePeriod (cpPolicy p2) = rpTerminationGracePeriod (cpPolicy q2)"
    by (auto split: option.splits)
  moreover have "\<not> higherScore now (p3, k3, e3) (q3, l3, f3)" "\<not> higherScore now (q3, l3, f3) (p3, k3, e3)"
    using s(1) s'(1) by (auto simp: best_of_def)
  then have "scoreOf k3 e3 now = scoreOf l3 f3 now" by simp
  ultimately show ?thesis
    using u(2) u'(2) g(2) g'(2) s(2) s'(2) same_action [OF sup] supported_action [OF sup(1)] supported_action [OF sup(2)]
    by (simp add: ScoreAt_def)
qed

section \<open>Ranks and ageing\<close>

lemma denseRanks_lookup:
  assumes "p \<in> set ps"
  shows "map_of (denseRanks ps) (Priority p) = Some (int (card {q \<in> Priority ` set ps. q < Priority p}))"
proof -
  let ?S = "Priority ` set ps"
  define xs where "xs = sorted_list_of_set ?S"
  have xs: "distinct xs" "sorted xs" "set xs = ?S" by (simp_all add: xs_def)
  from assms xs(3) have "Priority p \<in> set xs" by simp
  then obtain i where i: "i < length xs" "xs ! i = Priority p" unfolding in_set_conv_nth by blast
  have zip: "denseRanks ps = zip xs (map int [0..<length xs])" by (simp add: denseRanks_def Let_def xs_def)
  have "(Priority p, int i) \<in> set (denseRanks ps)"
    unfolding zip using i by (auto simp: in_set_zip intro!: exI [of _ i])
  then have lookup: "map_of (denseRanks ps) (Priority p) = Some (int i)"
    unfolding zip using xs(1) by (intro map_of_is_SomeI) simp_all
  have "{q \<in> ?S. q < Priority p} = (\<lambda>j. xs ! j) ` {..<i}"
  proof
    show "{q \<in> ?S. q < Priority p} \<subseteq> (\<lambda>j. xs ! j) ` {..<i}"
    proof
      fix q assume "q \<in> {q \<in> ?S. q < Priority p}"
      then have "q \<in> set xs" "q < Priority p" using xs(3) by simp_all
      then obtain j where j: "j < length xs" "xs ! j = q" "xs ! j < xs ! i"
        using i by (auto simp: in_set_conv_nth)
      then have "j < i" using xs(2) i(1) by (metis leI linorder_not_less sorted_nth_mono)
      with j show "q \<in> (\<lambda>j. xs ! j) ` {..<i}" by auto
    qed
  next
    show "(\<lambda>j. xs ! j) ` {..<i} \<subseteq> {q \<in> ?S. q < Priority p}"
    proof
      fix q assume "q \<in> (\<lambda>j. xs ! j) ` {..<i}"
      then obtain j where j: "j < i" "q = xs ! j" by auto
      then have "q \<in> ?S" using i(1) nth_mem [of j xs] xs(3) by (metis less_trans)
      moreover have "xs ! j \<le> xs ! i" using j(1) i(1) xs(2) by (simp add: sorted_nth_mono)
      moreover have "xs ! j \<noteq> xs ! i" using j(1) i(1) xs(1) by (simp add: nth_eq_iff_index_eq)
      ultimately show "q \<in> {q \<in> ?S. q < Priority p}" using j(2) i(2) by simp
    qed
  qed
  moreover have "inj_on (\<lambda>j. xs ! j) {..<i}"
    using i(1) xs(1) by (auto simp: inj_on_def nth_eq_iff_index_eq)
  ultimately have "card {q \<in> ?S. q < Priority p} = i" by (simp add: card_image)
  with lookup show ?thesis by simp
qed

lemma scoreOf_eq:
  "e \<le> now \<Longrightarrow> now - e \<le> MaxInt64 \<Longrightarrow> scoreOf rank e now = rank + (now - e) / agingConstant"
  by (simp add: scoreOf_def subTime_def MinInt64_def Minute_def agingConstant_def)

lemma eligible_supported:
  "\<forall>m \<in> set ms. supported (mPolicy m) \<Longrightarrow> \<forall>x \<in> eligibleSet now notBefore ms. supported (fst x)"
  by (auto simp: eligibleSet_def eligibleOf_def)

lemma rank_range:
  assumes "newRepairPolicyMatcher compile policies supportedRepairActions = Inr p" "policy \<in> set policies"
  shows "0 \<le> get_or 0 (ranks p) (Priority policy)" "get_or 0 (ranks p) (Priority policy) \<le> 100"
proof -
  have rank: "get_or 0 (ranks p) (Priority policy) = int (card {q \<in> Priority ` set policies. q < Priority policy})"
    using newRepairPolicyMatcher_ok(3) [OF assms(1)] denseRanks_lookup [OF assms(2)] by (simp add: get_or_def)
  have "list_all (policy_valid compile) policies"
    using newRepairPolicyMatcher_iff [of compile policies] assms(1) by blast
  then have range: "\<forall>q \<in> set policies. 0 \<le> Priority q \<and> Priority q \<le> 100"
    by (auto simp: list_all_iff policy_valid_def)
  with assms(2) have "{q \<in> Priority ` set policies. q < Priority policy} \<subseteq> {0..<100}" by fastforce
  then have "card {q \<in> Priority ` set policies. q < Priority policy} \<le> card {0..<100 :: int}"
    by (intro card_mono) simp_all
  then show "0 \<le> get_or 0 (ranks p) (Priority policy)" "get_or 0 (ranks p) (Priority policy) \<le> 100"
    by (simp_all add: rank)
qed

section \<open>Example\<close>

definition examplePolicies :: "repair_policy list" where
  "examplePolicies =
     [\<lparr> ConditionType = ''Ready'', ConditionStatus = ''False'', ReasonRegex = [], TolerationDuration = 30 * Minute,
        rpTerminationGracePeriod = Some Minute, Priority = 10, Action = ReplaceNode \<rparr>,
      \<lparr> ConditionType = ''Ready'', ConditionStatus = ''False'', ReasonRegex = ''Kernel'', TolerationDuration = 10 * Minute,
        rpTerminationGracePeriod = None, Priority = 50, Action = RebootNode \<rparr>]"

definition exampleCompile :: "string \<Rightarrow> (string \<Rightarrow> bool) option" where
  "exampleCompile regex = Some (\<lambda>reason. reason = regex)"

definition exampleUnhealthy :: health_node where
  "exampleUnhealthy =
     \<lparr> hnCreated = 0, hnConditions = [\<lparr> condType = ''Ready'', condStatus = ''False'', condReason = ''Kernel'', condLastTransition = 0 \<rparr>] \<rparr>"

lemma example_valid:
  "list_all (policy_valid exampleCompile) examplePolicies"
  "\<exists>f. filter isFallback examplePolicies = [f] \<and> Action f = ReplaceNode"
  by (simp_all add: examplePolicies_def policy_valid_def exampleCompile_def validConditionStatus_def Minute_def
      supportedRepairActions_def isFallback_def)

section \<open>Properties\<close>

text \<open>
  C16. The repair decision is the right one and never panics. For every policy set that passes
  validation, the matches of a node are, per condition covered by the set, the reason-specific policies
  whose expression matches, or the fallback if none does; and the decision at any time is empty if no
  matched policy has waited out its toleration (measured from no earlier than the last reboot), and
  otherwise takes its action and source from an eligible policy that no other one exceeds (by action,
  then priority, then earlier eligibility, then condition type), its grace period from a shortest one,
  and its score from a highest one.\<close>
theorem repair_decision_is_best:
  assumes "newRepairPolicyMatcher compile policies supportedRepairActions = Inr p"
  shows "\<exists>ms r. Match p node = Some ms \<and> Resolve ms now notBefore = Some r \<and>
    set ms = (\<Union>c \<in> set (hnConditions node). matchFor p (hnCreated node) c ` applicable p c) \<and>
    (if eligibleSet now notBefore ms = {} then r = emptyResult
     else resAction r \<in> supportedRepairActions \<and>
       (\<exists>x. best_of moreUrgent (eligibleSet now notBefore ms) x \<and> selectedFrom r x) \<and>
       (\<exists>x. best_of shorterGrace (eligibleSet now notBefore ms) x \<and> graceFrom r x) \<and>
       (\<exists>x. best_of (higherScore now) (eligibleSet now notBefore ms) x \<and> scoreFrom r x))"
proof -
  obtain ms where ms: "Match p node = Some ms"
    "set ms = (\<Union>c \<in> set (hnConditions node). matchFor p (hnCreated node) c ` applicable p c)"
    and sup: "\<forall>m \<in> set ms. supported (mPolicy m)"
    using Match_ok [OF newRepairPolicyMatcher_ok(1) [OF assms], of node] by metis
  obtain r where r: "Resolve ms now notBefore = Some r"
    "eligibleSet now notBefore ms = {} \<Longrightarrow> r = emptyResult"
    "eligibleSet now notBefore ms \<noteq> {} \<Longrightarrow> decided now (eligibleSet now notBefore ms) r"
    using Resolve_decided [OF sup, of now notBefore] by metis
  have "resAction r \<in> supportedRepairActions"
    if selected: "best_of moreUrgent (eligibleSet now notBefore ms) x" "selectedFrom r x" for x
    using selected eligible_supported [OF sup, of now notBefore]
    by (cases x) (auto simp: best_of_def supported_def)
  then have action: "resAction r \<in> supportedRepairActions" if "decided now (eligibleSet now notBefore ms) r"
    using that unfolding decided_def by blast
  show ?thesis
  proof (cases "eligibleSet now notBefore ms = {}")
    case True
    with ms r(1) r(2) [OF True] show ?thesis by (intro exI conjI) (assumption+, simp)
  next
    case False
    note d = r(3) [OF False]
    show ?thesis
      by (rule exI [of _ ms], rule exI [of _ r], unfold if_not_P [OF False])
         (intro conjI ms r(1) action [OF d] d [unfolded decided_def, THEN conjunct1]
           d [unfolded decided_def, THEN conjunct2, THEN conjunct1]
           d [unfolded decided_def, THEN conjunct2, THEN conjunct2])
  qed
qed

theorem repair_decision_is_best_witness:
  "\<exists>p ms r. newRepairPolicyMatcher exampleCompile examplePolicies supportedRepairActions = Inr p \<and>
     Match p exampleUnhealthy = Some ms \<and> Resolve ms Minute zeroTime = Some r"
proof -
  obtain p where p: "newRepairPolicyMatcher exampleCompile examplePolicies supportedRepairActions = Inr p"
    using newRepairPolicyMatcher_iff [of exampleCompile examplePolicies] example_valid by blast
  from repair_decision_is_best [OF p, of exampleUnhealthy Minute zeroTime] p show ?thesis by blast
qed

text \<open>
  C32. Repair does not depend on when matching ran or on the order of the conditions: matches cached
  for one version of a node are the matches of every version with equal match inputs, and two nodes
  that have the same conditions in different orders get the same action, source condition, time of
  eligibility, priority, grace period and score.\<close>
theorem repair_ignores_cache_and_order:
  assumes "newRepairPolicyMatcher compile policies supportedRepairActions = Inr p"
  shows "(MatchInputsEqual a b \<longrightarrow> Match p a = Match p b) \<and>
    (hnCreated a = hnCreated b \<and> set (hnConditions a) = set (hnConditions b) \<longrightarrow>
      (\<exists>ms ms' r r'. Match p a = Some ms \<and> Match p b = Some ms' \<and>
        Resolve ms now notBefore = Some r \<and> Resolve ms' now notBefore = Some r' \<and>
        resAction r = resAction r' \<and> resCondition r = resCondition r' \<and>
        SelectedEligibleAt r = SelectedEligibleAt r' \<and> selectedPriority r = selectedPriority r' \<and>
        TerminationGracePeriod r = TerminationGracePeriod r' \<and> ScoreAt r now = ScoreAt r' now))"
proof (intro conjI impI)
  assume "MatchInputsEqual a b"
  then show "Match p a = Match p b" by (simp add: MatchInputsEqual_iff Match_def matchCreated_def)
next
  note ok = newRepairPolicyMatcher_ok(1) [OF assms]
  assume same: "hnCreated a = hnCreated b \<and> set (hnConditions a) = set (hnConditions b)"
  obtain ms where ms: "Match p a = Some ms" "\<forall>m \<in> set ms. supported (mPolicy m)"
    "set ms = (\<Union>c \<in> set (hnConditions a). matchFor p (hnCreated a) c ` applicable p c)"
    using Match_ok [OF ok, of a] by metis
  obtain ms' where ms': "Match p b = Some ms'" "\<forall>m \<in> set ms'. supported (mPolicy m)"
    "set ms' = (\<Union>c \<in> set (hnConditions b). matchFor p (hnCreated b) c ` applicable p c)"
    using Match_ok [OF ok, of b] by metis
  let ?E = "eligibleSet now notBefore ms"
  have E: "eligibleSet now notBefore ms' = ?E" using ms(3) ms'(3) same by (simp add: eligibleSet_def)
  obtain r where r: "Resolve ms now notBefore = Some r" "?E = {} \<Longrightarrow> r = emptyResult" "?E \<noteq> {} \<Longrightarrow> decided now ?E r"
    using Resolve_decided [OF ms(2), of now notBefore] by metis
  obtain r' where r': "Resolve ms' now notBefore = Some r'" "?E = {} \<Longrightarrow> r' = emptyResult"
    "?E \<noteq> {} \<Longrightarrow> decided now ?E r'"
    using Resolve_decided [OF ms'(2), of now notBefore, unfolded E] by metis
  have "resAction r = resAction r' \<and> resCondition r = resCondition r' \<and>
        SelectedEligibleAt r = SelectedEligibleAt r' \<and> selectedPriority r = selectedPriority r' \<and>
        TerminationGracePeriod r = TerminationGracePeriod r' \<and> ScoreAt r now = ScoreAt r' now"
    using r(2,3) r'(2,3) decided_unique [OF _ _ eligible_supported [OF ms(2)]] by (cases "?E = {}") blast+
  with ms(1) ms'(1) r(1) r'(1) show "\<exists>ms ms' r r'. Match p a = Some ms \<and> Match p b = Some ms' \<and>
        Resolve ms now notBefore = Some r \<and> Resolve ms' now notBefore = Some r' \<and>
        resAction r = resAction r' \<and> resCondition r = resCondition r' \<and>
        SelectedEligibleAt r = SelectedEligibleAt r' \<and> selectedPriority r = selectedPriority r' \<and>
        TerminationGracePeriod r = TerminationGracePeriod r' \<and> ScoreAt r now = ScoreAt r' now"
    by blast
qed

theorem repair_ignores_cache_and_order_witness:
  "\<exists>p ms. newRepairPolicyMatcher exampleCompile examplePolicies supportedRepairActions = Inr p \<and>
     Match p exampleUnhealthy = Some ms"
proof -
  obtain p where p: "newRepairPolicyMatcher exampleCompile examplePolicies supportedRepairActions = Inr p"
    using newRepairPolicyMatcher_iff [of exampleCompile examplePolicies] example_valid by blast
  from repair_ignores_cache_and_order [OF p, of exampleUnhealthy exampleUnhealthy] p show ?thesis by blast
qed



end
