(* ===== verification/Api.thy ===== *)
theory Api
  imports RepairPolicy Resources
begin

text \<open>
  \<^verbatim>\<open>pkg/apis/v1/nodeclaim.go\<close>, \<^verbatim>\<open>nodeclaim_status.go\<close>, \<^verbatim>\<open>nodepool.go\<close>, \<^verbatim>\<open>nodepool_status.go\<close>: node claims
  and node pools with their disruption budgets and limits, and nodes with the fields the sources read.

  \<open>parseCron\<close> is \<^verbatim>\<open>cron.ParseStandard\<close>: \<open>None\<close> is its error and \<open>Some next\<close> a schedule with \<^verbatim>\<open>Next\<close> as
  \<open>next\<close>. \<open>scaled\<close> is \<^verbatim>\<open>intstr.GetScaledValueFromIntOrPercent\<close>, with \<open>None\<close> as its error. Both belong to
  libraries outside the repository.
\<close>

section \<open>Conditions\<close>

record status_condition =
  scType :: string
  scStatus :: string
  scReason :: string
  scLastTransition :: int

definition getCondition :: "string \<Rightarrow> status_condition list \<Rightarrow> status_condition option" where
  "getCondition t conds = find (\<lambda>c. scType c = t) conds"

definition conditionIs :: "string \<Rightarrow> status_condition option \<Rightarrow> bool" where
  "conditionIs st c \<longleftrightarrow> (case c of None \<Rightarrow> False | Some x \<Rightarrow> scStatus x = st)"

abbreviation conditionIsTrue :: "status_condition option \<Rightarrow> bool" where
  "conditionIsTrue \<equiv> conditionIs ''True''"

abbreviation conditionIsFalse :: "status_condition option \<Rightarrow> bool" where
  "conditionIsFalse \<equiv> conditionIs ''False''"

definition ConditionTypeInitialized :: string where "ConditionTypeInitialized = ''Initialized''"
definition ConditionTypeInstanceTerminating :: string where "ConditionTypeInstanceTerminating = ''InstanceTerminating''"
definition ConditionTypeRebooting :: string where "ConditionTypeRebooting = ''Rebooting''"
definition RebootReasonSucceeded :: string where "RebootReasonSucceeded = ''RebootSucceeded''"
definition ConditionTypeNodeRegistrationHealthy :: string where
  "ConditionTypeNodeRegistrationHealthy = ''NodeRegistrationHealthy''"

section \<open>Node claims and nodes\<close>

record node_class_reference =
  ncrKind :: string
  ncrName :: string
  ncrGroup :: string

record 'q node_claim_spec =
  specTaints :: "taint list"
  StartupTaints :: "taint list"
  specRequirements :: "node_selector_requirement list"
  specResources :: "'q resource_list"
  specNodeClassRef :: "node_class_reference option"
  specTerminationGracePeriod :: "int option"
  ExpireAfter :: "int option"

record 'q node_claim_status =
  statusNodeName :: string
  statusProviderID :: string
  statusImageID :: string
  statusCapacity :: "'q resource_list"
  statusAllocatable :: "'q resource_list"
  statusConditions :: "status_condition list"
  LastPodEventTime :: int

record 'q node_claim =
  ncName :: string
  ncLabels :: "(string, string) gomap"
  ncAnnotations :: "(string, string) gomap"
  ncCreation :: int
  ncDeletion :: "int option"
  ncSpec :: "'q node_claim_spec"
  ncStatus :: "'q node_claim_status"

definition StatusConditions :: "'q node_claim \<Rightarrow> status_condition list" where
  "StatusConditions c = statusConditions (ncStatus c)"

record 'q node =
  nodeMetaName :: string
  nodeLabels :: "(string, string) gomap"
  nodeAnnotations :: "(string, string) gomap"
  nodeDeletion :: "int option"
  nodeProviderID :: string
  nodeTaints :: "taint list"
  nodeCapacity :: "'q resource_list"
  nodeAllocatable :: "'q resource_list"
  nodeHealth :: health_node

section \<open>Node pools\<close>

record node_claim_template_spec =
  tmplTaints :: "taint list"
  tmplStartupTaints :: "taint list"
  tmplRequirements :: "node_selector_requirement list"
  tmplNodeClassRef :: "node_class_reference option"
  tmplTerminationGracePeriod :: "int option"
  tmplExpireAfter :: "int option"

record node_claim_template =
  tmplLabels :: "(string, string) gomap"
  tmplAnnotations :: "(string, string) gomap"
  tmplSpec :: node_claim_template_spec

record budget =
  Reasons :: "string list option"
  Nodes :: string
  Schedule :: "string option"
  Duration :: "int option"

record disruption =
  ConsolidateAfter :: "int option"
  ConsolidationPolicy :: string
  Budgets :: "budget list"

record 'q node_pool_spec =
  Template :: node_claim_template
  Disruption :: disruption
  Limits :: "'q resource_list"
  Weight :: "int option"
  Replicas :: "int option"

record 'q node_pool =
  npName :: string
  npDeletion :: "int option"
  npSpec :: "'q node_pool_spec"
  npConditions :: "status_condition list"

definition ConsolidationPolicyBalanced :: string where "ConsolidationPolicyBalanced = ''Balanced''"

definition IsBalanced :: "string \<Rightarrow> bool" where
  "IsBalanced p \<longleftrightarrow> p = ConsolidationPolicyBalanced"

text \<open>The resource whose usage exceeds its limit first, in the order of the usage map.\<close>

definition ExceededBy :: "'q::linordered_ab_group_add resource_list \<Rightarrow> 'q resource_list \<Rightarrow> string option" where
  "ExceededBy l resources =
     map_option fst
       (find (\<lambda>(resourceName, usage). case map_of l resourceName of None \<Rightarrow> False | Some limit \<Rightarrow> usage > limit) resources)"

definition ToNodeClaim :: "node_claim_template \<Rightarrow> 'q node_claim" where
  "ToNodeClaim t =
     \<lparr> ncName = [], ncLabels = tmplLabels t, ncAnnotations = tmplAnnotations t, ncCreation = zeroTime, ncDeletion = None,
       ncSpec = \<lparr> specTaints = tmplTaints (tmplSpec t), StartupTaints = tmplStartupTaints (tmplSpec t),
                  specRequirements = tmplRequirements (tmplSpec t), specResources = [],
                  specNodeClassRef = tmplNodeClassRef (tmplSpec t),
                  specTerminationGracePeriod = tmplTerminationGracePeriod (tmplSpec t),
                  ExpireAfter = tmplExpireAfter (tmplSpec t) \<rparr>,
       ncStatus = \<lparr> statusNodeName = [], statusProviderID = [], statusImageID = [], statusCapacity = [],
                    statusAllocatable = [], statusConditions = [], LastPodEventTime = zeroTime \<rparr> \<rparr>"

section \<open>Disruption budgets\<close>

text \<open>\<^verbatim>\<open>intstr.FromInt\<close> keeps the lower 32 bits of its argument.\<close>

definition GetIntStrFromValue :: "string \<Rightarrow> int_or_string" where
  "GetIntStrFromValue str =
     (case atoi str of (intVal, None) \<Rightarrow> IntVal (wrap32 intVal) | (_, Some _) \<Rightarrow> StrVal str)"

definition BudgetIsActive :: "(string \<Rightarrow> (int \<Rightarrow> int) option) \<Rightarrow> budget \<Rightarrow> int \<Rightarrow> bool option" where
  "BudgetIsActive parseCron b now =
     (if Schedule b = None \<and> Duration b = None then Some True
      else case parseCron (''TZ=UTC '' @ (case Schedule b of None \<Rightarrow> [] | Some s \<Rightarrow> s)) of
             None \<Rightarrow> None
           | Some next \<Rightarrow>
               let checkPoint = now - (case Duration b of None \<Rightarrow> 0 | Some d \<Rightarrow> d);
                   nextHit = next checkPoint
               in Some (\<not> nextHit > now))"

text \<open>A value and whether an error accompanies it.\<close>

definition GetAllowedDisruptions ::
  "(string \<Rightarrow> (int \<Rightarrow> int) option) \<Rightarrow> (int_or_string \<Rightarrow> int \<Rightarrow> bool \<Rightarrow> int option) \<Rightarrow> budget \<Rightarrow> int \<Rightarrow> int \<Rightarrow> int \<times> bool" where
  "GetAllowedDisruptions parseCron scaled b now numNodes =
     (case BudgetIsActive parseCron b now of
        None \<Rightarrow> (0, True)
      | Some active \<Rightarrow>
          if \<not> active then (MaxInt32, False)
          else case scaled (GetIntStrFromValue (Nodes b)) numNodes True of
                 None \<Rightarrow> (0, True)
               | Some res \<Rightarrow> (res, False))"

definition budgetApplies :: "string \<Rightarrow> budget \<Rightarrow> bool" where
  "budgetApplies reason b \<longleftrightarrow> (case Reasons b of None \<Rightarrow> True | Some rs \<Rightarrow> reason \<in> set rs)"

definition GetAllowedDisruptionsByReason ::
  "(string \<Rightarrow> (int \<Rightarrow> int) option) \<Rightarrow> (int_or_string \<Rightarrow> int \<Rightarrow> bool \<Rightarrow> int option) \<Rightarrow> 'q node_pool \<Rightarrow> int \<Rightarrow> int \<Rightarrow>
   string \<Rightarrow> int \<times> bool" where
  "GetAllowedDisruptionsByReason parseCron scaled np now numNodes reason =
     fold (\<lambda>b (allowedNodes, multiErr).
             case GetAllowedDisruptions parseCron scaled b now numNodes of
               (val, err) \<Rightarrow>
                 (if budgetApplies reason b then min allowedNodes val else allowedNodes,
                  multiErr \<or> err))
       (Budgets (Disruption (npSpec np))) (MaxInt32, False)"

definition MustGetAllowedDisruptions ::
  "(string \<Rightarrow> (int \<Rightarrow> int) option) \<Rightarrow> (int_or_string \<Rightarrow> int \<Rightarrow> bool \<Rightarrow> int option) \<Rightarrow> 'q node_pool \<Rightarrow> int \<Rightarrow> int \<Rightarrow>
   string \<Rightarrow> int" where
  "MustGetAllowedDisruptions parseCron scaled np now numNodes reason =
     (case GetAllowedDisruptionsByReason parseCron scaled np now numNodes reason of
        (allowedDisruptions, err) \<Rightarrow> if err then 0 else allowedDisruptions)"

section \<open>Facts about budgets\<close>

abbreviation allowedStep :: "(budget \<Rightarrow> int \<times> bool) \<Rightarrow> string \<Rightarrow> budget \<Rightarrow> int \<times> bool \<Rightarrow> int \<times> bool" where
  "allowedStep f reason \<equiv>
     \<lambda>b (allowedNodes, multiErr).
       case f b of (val, err) \<Rightarrow> (if budgetApplies reason b then min allowedNodes val else allowedNodes, multiErr \<or> err)"

lemma allowed_fold:
  "fold (allowedStep f reason) bs (n, e) = (r, err) \<Longrightarrow>
     (err \<longleftrightarrow> e \<or> (\<exists>b \<in> set bs. snd (f b))) \<and> r \<le> n \<and>
     (\<forall>b \<in> set bs. budgetApplies reason b \<longrightarrow> r \<le> fst (f b)) \<and>
     (r = n \<or> (\<exists>b \<in> set bs. budgetApplies reason b \<and> r = fst (f b)))"
proof (induction bs arbitrary: n e)
  case Nil
  then show ?case by simp
next
  case (Cons b bs)
  obtain val er where b: "f b = (val, er)" by fastforce
  let ?n = "if budgetApplies reason b then min n val else n"
  from Cons.prems have "fold (allowedStep f reason) bs (?n, e \<or> er) = (r, err)"
    by (simp add: b)
  from Cons.IH [OF this] show ?case by (auto simp: b min_def split: if_splits)
qed

lemma ByReason_spec:
  assumes "GetAllowedDisruptionsByReason parseCron scaled np now numNodes reason = (r, err)"
  defines "f \<equiv> \<lambda>b. GetAllowedDisruptions parseCron scaled b now numNodes"
    and "bs \<equiv> Budgets (Disruption (npSpec np))"
  shows "(err \<longleftrightarrow> (\<exists>b \<in> set bs. snd (f b))) \<and> r \<le> MaxInt32 \<and>
     (\<forall>b \<in> set bs. budgetApplies reason b \<longrightarrow> r \<le> fst (f b)) \<and>
     (r = MaxInt32 \<or> (\<exists>b \<in> set bs. budgetApplies reason b \<and> r = fst (f b)))"
  using allowed_fold [where f = f and reason = reason and bs = bs and n = MaxInt32 and e = False and r = r and err = err] assms(1)
  by (simp add: GetAllowedDisruptionsByReason_def f_def bs_def)

lemma parse_digits_all: "parse_digits a s = Inr n \<Longrightarrow> list_all is_digit s"
  by (induction s arbitrary: a) (auto simp: Let_def split: if_splits)

lemma atoi_percent: "snd (atoi (s @ ''%'')) \<noteq> None"
proof -
  have "parse_uint (t @ ''%'') \<noteq> Inr n" for t n
    using parse_digits_all [of 0 "t @ ''%''" n] by (auto simp: parse_uint_def is_digit_def)
  note this [of "tl s"] this [of s] this [of "[]"]
  then show ?thesis
    by (cases s) (auto simp: atoi_def Let_def split: sum.splits num_error.splits)
qed

lemma GetIntStr_percent: "GetIntStrFromValue (s @ ''%'') = StrVal (s @ ''%'')"
  using atoi_percent [of s] by (auto simp: GetIntStrFromValue_def split: prod.splits option.splits)

lemma GetIntStr_int: "int64 k \<Longrightarrow> GetIntStrFromValue (format_int k) = IntVal (wrap32 k)"
  by (simp add: GetIntStrFromValue_def)

lemma wrapped_count: "GetIntStrFromValue ''4294967296'' = IntVal 0"
  by (simp add: GetIntStrFromValue_def atoi_def parse_uint_def is_digit_def wrap32_def Let_def)

text \<open>\<open>follows next hits\<close>: \<open>next t\<close> is the first of the schedule's hits after \<open>t\<close>.\<close>

definition follows :: "(int \<Rightarrow> int) \<Rightarrow> int set \<Rightarrow> bool" where
  "follows next hits \<longleftrightarrow> (\<forall>t. next t \<in> hits \<and> t < next t \<and> (\<forall>h \<in> hits. t < h \<longrightarrow> next t \<le> h))"

text \<open>When a budget is in force: it has no schedule, or a hit of its schedule lies within its duration.\<close>

definition budgetOpen :: "(string \<Rightarrow> int set) \<Rightarrow> budget \<Rightarrow> int \<Rightarrow> bool" where
  "budgetOpen hits b now \<longleftrightarrow>
     (if Schedule b = None \<and> Duration b = None then True
      else \<exists>h \<in> hits (case Schedule b of None \<Rightarrow> [] | Some s \<Rightarrow> s).
             now - (case Duration b of None \<Rightarrow> 0 | Some d \<Rightarrow> d) < h \<and> h \<le> now)"

lemma follows_window:
  assumes "follows next hits"
  shows "next t \<le> now \<longleftrightarrow> (\<exists>h \<in> hits. t < h \<and> h \<le> now)"
proof
  assume "next t \<le> now"
  then show "\<exists>h \<in> hits. t < h \<and> h \<le> now" using assms unfolding follows_def by blast
next
  assume "\<exists>h \<in> hits. t < h \<and> h \<le> now"
  then obtain h where h: "h \<in> hits" "t < h" "h \<le> now" by blast
  with assms have "next t \<le> h" unfolding follows_def by blast
  with h(3) show "next t \<le> now" by linarith
qed

text \<open>The number of nodes a well-formed budget stands for.\<close>

definition budgetNodes :: "int \<Rightarrow> budget \<Rightarrow> int \<Rightarrow> bool" where
  "budgetNodes numNodes b n \<longleftrightarrow>
     (\<exists>k. Nodes b = format_int k \<and> 0 \<le> k \<and> k \<le> MaxInt32 \<and> n = k) \<or>
     (\<exists>p. Nodes b = format_int p @ ''%'' \<and> 0 \<le> p \<and> p \<le> 100 \<and> n = \<lceil>real_of_int p * real_of_int numNodes / 100\<rceil>)"

definition scales :: "(int_or_string \<Rightarrow> int \<Rightarrow> bool \<Rightarrow> int option) \<Rightarrow> bool" where
  "scales scaled \<longleftrightarrow>
     (\<forall>v n. scaled (IntVal v) n True = Some v) \<and>
     (\<forall>p n. 0 \<le> p \<and> p \<le> 100 \<longrightarrow> scaled (StrVal (format_int p @ ''%'')) n True = Some \<lceil>real_of_int p * real_of_int n / 100\<rceil>)"

definition schedules :: "(string \<Rightarrow> (int \<Rightarrow> int) option) \<Rightarrow> (string \<Rightarrow> int set) \<Rightarrow> bool" where
  "schedules parseCron hits \<longleftrightarrow>
     (\<forall>s next. parseCron (''TZ=UTC '' @ s) = Some next \<longrightarrow> follows next (hits s))"

lemma GetAllowedDisruptions_value:
  assumes "scales scaled" "budgetNodes numNodes b n" "BudgetIsActive parseCron b now = Some True"
  shows "GetAllowedDisruptions parseCron scaled b now numNodes = (n, False)"
proof -
  have int: "scaled (GetIntStrFromValue (Nodes b)) numNodes True = Some n"
    if k: "Nodes b = format_int k" "0 \<le> k" "k \<le> MaxInt32" "n = k" for k
  proof -
    have "int64 k" using k by (simp add: int64_def MinInt64_def MaxInt64_def MaxInt32_def)
    then show ?thesis using k assms(1) by (simp add: GetIntStr_int scales_def wrap32_id)
  qed
  have percent: "scaled (GetIntStrFromValue (Nodes b)) numNodes True = Some n"
    if "Nodes b = format_int p @ ''%''" "0 \<le> p" "p \<le> 100" "n = \<lceil>real_of_int p * real_of_int numNodes / 100\<rceil>" for p
    using that assms(1) by (simp add: GetIntStr_percent scales_def)
  have "scaled (GetIntStrFromValue (Nodes b)) numNodes True = Some n"
    using assms(2) int percent unfolding budgetNodes_def by blast
  then show ?thesis using assms(3) by (simp add: GetAllowedDisruptions_def)
qed

lemma BudgetIsActive_open:
  assumes "schedules parseCron hits" "BudgetIsActive parseCron b now = Some act"
  shows "act \<longleftrightarrow> budgetOpen hits b now"
proof (cases "Schedule b = None \<and> Duration b = None")
  case True
  then show ?thesis using assms(2) by (simp add: BudgetIsActive_def budgetOpen_def)
next
  case False
  let ?s = "case Schedule b of None \<Rightarrow> [] | Some s \<Rightarrow> s"
  note unfolded = assms(2) [unfolded BudgetIsActive_def if_not_P [OF False]]
  then obtain nxt where n: "parseCron (''TZ=UTC '' @ ?s) = Some nxt"
    by (cases "parseCron (''TZ=UTC '' @ ?s)") auto
  with assms(1) have "follows nxt (hits ?s)" unfolding schedules_def by blast
  from follows_window [OF this, of "now - (case Duration b of None \<Rightarrow> 0 | Some d \<Rightarrow> d)" now] unfolded n False
  show ?thesis by (simp add: budgetOpen_def Let_def not_less if_not_P [OF False])
qed

section \<open>Example\<close>

definition exampleScaled :: "int_or_string \<Rightarrow> int \<Rightarrow> bool \<Rightarrow> int option" where
  "exampleScaled v n up =
     (case v of
        IntVal k \<Rightarrow> Some k
      | StrVal s \<Rightarrow>
          (case atoi (butlast s) of
             (p, None) \<Rightarrow> Some \<lceil>real_of_int p * real_of_int n / 100\<rceil>
           | (_, Some _) \<Rightarrow> None))"

definition exampleHourly :: "string \<Rightarrow> (int \<Rightarrow> int) option" where
  "exampleHourly s = Some (\<lambda>t. (t div 3600 + 1) * 3600)"

definition exampleBudget :: budget where
  "exampleBudget = \<lparr> Reasons = None, Nodes = ''2'', Schedule = Some ''0 * * * *'', Duration = Some 600 \<rparr>"

definition exampleBudgetPool :: "int node_pool" where
  "exampleBudgetPool =
     \<lparr> npName = ''default'', npDeletion = None,
       npSpec = \<lparr> Template = \<lparr> tmplLabels = [], tmplAnnotations = [],
                    tmplSpec = \<lparr> tmplTaints = [], tmplStartupTaints = [], tmplRequirements = [], tmplNodeClassRef = None,
                      tmplTerminationGracePeriod = None, tmplExpireAfter = None \<rparr> \<rparr>,
                  Disruption = \<lparr> ConsolidateAfter = None, ConsolidationPolicy = [],
                    Budgets = [exampleBudget] \<rparr>,
                  Limits = [], Weight = None, Replicas = None \<rparr>,
       npConditions = [] \<rparr>"

lemma exampleScaled_ok: "scales exampleScaled"
proof -
  have "atoi (format_int p) = (p, None)" if "0 \<le> p" "p \<le> 100" for p
    by (rule atoi_format_int) (use that in \<open>simp add: int64_def MinInt64_def MaxInt64_def\<close>)
  then show ?thesis by (simp add: scales_def exampleScaled_def butlast_append)
qed

lemma exampleHourly_ok: "schedules exampleHourly (\<lambda>s. {h. 3600 dvd h})"
proof -
  have least: "(t div 3600 + 1) * 3600 \<le> h" if "t < h" "3600 dvd h" for t h :: int
  proof -
    from that obtain k where k: "h = 3600 * k" by (auto elim: dvdE)
    have "t div 3600 * 3600 \<le> t" using div_mult_mod_eq [of t 3600] pos_mod_sign [of 3600 t] by linarith
    with that(1) k have "t div 3600 < k" by linarith
    then show ?thesis using k by simp
  qed
  have "t < (t div 3600 + 1) * 3600" for t :: int
  proof -
    have "t mod 3600 < 3600" by simp
    then show ?thesis using div_mult_mod_eq [of t 3600] by (simp add: distrib_right)
  qed
  with least show ?thesis by (simp add: schedules_def exampleHourly_def follows_def)
qed

section \<open>Properties\<close>



end
