(* ===== verification/Validation.thy ===== *)
theory Validation
  imports Api Requirements
begin

text \<open>
  \<^verbatim>\<open>pkg/apis/v1/nodeclaim_validation.go\<close> and \<^verbatim>\<open>nodepool_validation.go\<close>: the validation of node pools that
  the API server cannot do. \<open>qname\<close> and \<open>labelValue\<close> are \<^verbatim>\<open>validation.IsQualifiedName\<close> and
  \<^verbatim>\<open>validation.IsValidLabelValue\<close> of Kubernetes, which return a list of complaints. Error values keep the
  kind of the violation. The datatype of taint effects has no invalid effects, so that check is absent.
\<close>

datatype validation_error =
  EmptyTaintKey
| UnqualifiedTaintKey string
| UnqualifiedTaintValue string
| DuplicateTaint string taint_effect
| UnsupportedOperator string
| RestrictedKey string
| NoKnownValues string
| NotEnoughKnownValues string
| UnqualifiedKey string
| InvalidLabelValue string
| MissingValue string
| TooFewValues string
| NotSinglePositiveInteger string
| NodePoolKeyInLabels
| NodePoolKeyInRequirements

section \<open>Taints\<close>

type_synonym taint_key_effect = "string \<times> taint_effect"

text \<open>The errors of one list of taints and the key and effect pairs seen so far.\<close>

fun validateTaintsField ::
  "(string \<Rightarrow> string list) \<Rightarrow> taint list \<Rightarrow> taint_key_effect set \<Rightarrow> validation_error list \<times> taint_key_effect set" where
  "validateTaintsField qname [] existing = ([], existing)"
| "validateTaintsField qname (t # ts) existing =
     (let key = (taintKey t, taintEffect t);
          errs = (if length (taintKey t) = 0 then [EmptyTaintKey] else []) @
                 map (\<lambda>_. UnqualifiedTaintKey (taintKey t)) (qname (taintKey t)) @
                 (if length (taintValue t) \<noteq> 0
                  then map (\<lambda>_. UnqualifiedTaintValue (taintValue t)) (qname (taintValue t)) else []) @
                 (if key \<in> existing then [DuplicateTaint (taintKey t) (taintEffect t)] else []);
          (rest, seen) = validateTaintsField qname ts (insert key existing)
      in (errs @ rest, seen))"

definition validateTaints :: "(string \<Rightarrow> string list) \<Rightarrow> node_claim_template_spec \<Rightarrow> validation_error list" where
  "validateTaints qname spec =
     (let (errs, existing) = validateTaintsField qname (tmplTaints spec) {};
          (errs', _) = validateTaintsField qname (tmplStartupTaints spec) existing
      in errs @ errs')"

section \<open>Requirements\<close>

definition SupportedNodeSelectorOps :: "node_selector_operator set" where
  "SupportedNodeSelectorOps = {OpIn, OpNotIn, OpExists, OpDoesNotExist, OpGt, OpLt, OpGte, OpLte}"

definition validateWellKnownValues :: "node_selector_requirement \<Rightarrow> validation_error option" where
  "validateWellKnownValues r =
     (if nsrKey r \<notin> WellKnownLabels \<or> nsrOperator r \<noteq> OpIn then None
      else case map_of WellKnownValuesForRequirements (nsrKey r) of
             None \<Rightarrow> None
           | Some knownValues \<Rightarrow>
               let vs = filter (\<lambda>v. v \<in> knownValues) (nsrValues r)
               in if length vs = 0 then Some (NoKnownValues (nsrKey r))
                  else case nsrMinValues r of
                         None \<Rightarrow> None
                       | Some n \<Rightarrow> if int (length vs) < n then Some (NotEnoughKnownValues (nsrKey r)) else None)"

definition ValidateRequirement ::
  "(string \<Rightarrow> string list) \<Rightarrow> (string \<Rightarrow> string list) \<Rightarrow> node_selector_requirement \<Rightarrow> validation_error list" where
  "ValidateRequirement qname labelValue req =
     (let r = req \<lparr> nsrKey := get_or (nsrKey req) NormalizedLabels (nsrKey req) \<rparr>;
          key = nsrKey r; op = nsrOperator r; vs = nsrValues r
      in (if op \<notin> SupportedNodeSelectorOps then [UnsupportedOperator key] else []) @
         (if IsRestrictedLabel key then [RestrictedKey key] else []) @
         (case validateWellKnownValues r of None \<Rightarrow> [] | Some e \<Rightarrow> [e]) @
         map (\<lambda>_. UnqualifiedKey key) (qname key) @
         concat (map (\<lambda>v. map (\<lambda>_. InvalidLabelValue v) (labelValue v)) vs) @
         (if op = OpIn \<and> length vs = 0 then [MissingValue key] else []) @
         (if op = OpIn \<and> (case nsrMinValues r of None \<Rightarrow> False | Some n \<Rightarrow> int (length vs) < n)
          then [TooFewValues key] else []) @
         (if op = OpGt \<or> op = OpLt \<or> op = OpGte \<or> op = OpLte
          then if length vs \<noteq> 1 then [NotSinglePositiveInteger key]
               else case atoi (hd vs) of
                      (v, err) \<Rightarrow> if err \<noteq> None \<or> v < 0 then [NotSinglePositiveInteger key] else []
          else []))"

definition validateRequirements ::
  "(string \<Rightarrow> string list) \<Rightarrow> (string \<Rightarrow> string list) \<Rightarrow> node_claim_template_spec \<Rightarrow> validation_error list" where
  "validateRequirements qname labelValue spec =
     concat (map (ValidateRequirement qname labelValue) (tmplRequirements spec))"

section \<open>Node pools\<close>

definition validateLabels ::
  "(string \<Rightarrow> string list) \<Rightarrow> (string \<Rightarrow> string list) \<Rightarrow> node_claim_template \<Rightarrow> validation_error list" where
  "validateLabels qname labelValue t =
     concat (map (\<lambda>(key, v).
       (if key = NodePoolLabelKey then [NodePoolKeyInLabels] else []) @
       map (\<lambda>_. UnqualifiedKey key) (qname key) @
       map (\<lambda>_. InvalidLabelValue v) (labelValue v) @
       (if IsRestrictedLabel key then [RestrictedKey key] else [])) (tmplLabels t))"

definition validateRequirementsNodePoolKeyDoesNotExist :: "node_claim_template \<Rightarrow> validation_error list" where
  "validateRequirementsNodePoolKeyDoesNotExist t =
     concat (map (\<lambda>r. if nsrKey r = NodePoolLabelKey then [NodePoolKeyInRequirements] else [])
       (tmplRequirements (tmplSpec t)))"

definition RuntimeValidate ::
  "(string \<Rightarrow> string list) \<Rightarrow> (string \<Rightarrow> string list) \<Rightarrow> 'q node_pool \<Rightarrow> validation_error list" where
  "RuntimeValidate qname labelValue np =
     (let t = Template (npSpec np)
      in validateLabels qname labelValue t @ validateTaints qname (tmplSpec t) @
         validateRequirements qname labelValue (tmplSpec t) @ validateRequirementsNodePoolKeyDoesNotExist t)"

section \<open>What validation accepts\<close>

lemma supported_ops: "op \<in> SupportedNodeSelectorOps \<longleftrightarrow> knownOp op"
  by (cases op) (auto simp: SupportedNodeSelectorOps_def knownOp_def)

definition taint_ok :: "(string \<Rightarrow> string list) \<Rightarrow> taint \<Rightarrow> bool" where
  "taint_ok qname t \<longleftrightarrow> taintKey t \<noteq> [] \<and> qname (taintKey t) = [] \<and>
     (taintValue t \<noteq> [] \<longrightarrow> qname (taintValue t) = [])"

abbreviation taintPair :: "taint \<Rightarrow> taint_key_effect" where
  "taintPair t \<equiv> (taintKey t, taintEffect t)"

lemma validateTaintsField_spec:
  "snd (validateTaintsField qname ts existing) = existing \<union> taintPair ` set ts \<and>
   (fst (validateTaintsField qname ts existing) = [] \<longleftrightarrow>
     list_all (taint_ok qname) ts \<and> distinct (map taintPair ts) \<and> existing \<inter> taintPair ` set ts = {})"
  by (induction ts arbitrary: existing) (auto simp: taint_ok_def Let_def split_beta)

lemma validateTaints_iff:
  "validateTaints qname spec = [] \<longleftrightarrow>
     list_all (taint_ok qname) (tmplTaints spec @ tmplStartupTaints spec) \<and>
     distinct (map taintPair (tmplTaints spec @ tmplStartupTaints spec))"
  using validateTaintsField_spec [of qname "tmplTaints spec" "{}"]
    validateTaintsField_spec [of qname "tmplStartupTaints spec" "taintPair ` set (tmplTaints spec)"]
  by (auto simp: validateTaints_def Let_def split_beta)

definition known_values_ok :: "node_selector_requirement \<Rightarrow> bool" where
  "known_values_ok r \<longleftrightarrow>
     (\<forall>known. normalize_key (nsrKey r) \<in> WellKnownLabels \<and> nsrOperator r = OpIn \<and>
        map_of WellKnownValuesForRequirements (normalize_key (nsrKey r)) = Some known \<longrightarrow>
        (let n = length (filter (\<lambda>v. v \<in> known) (nsrValues r))
         in 1 \<le> n \<and> (\<forall>m. nsrMinValues r = Some m \<longrightarrow> m \<le> int n)))"

definition requirement_ok ::
  "(string \<Rightarrow> string list) \<Rightarrow> (string \<Rightarrow> string list) \<Rightarrow> node_selector_requirement \<Rightarrow> bool" where
  "requirement_ok qname labelValue r \<longleftrightarrow>
     wellFormedSelector (nsrOperator r) (nsrValues r) \<and> \<not> IsRestrictedLabel (normalize_key (nsrKey r)) \<and>
     qname (normalize_key (nsrKey r)) = [] \<and> list_all (\<lambda>v. labelValue v = []) (nsrValues r) \<and>
     known_values_ok r \<and>
     (nsrOperator r = OpIn \<longrightarrow>
        nsrValues r \<noteq> [] \<and> (\<forall>m. nsrMinValues r = Some m \<longrightarrow> m \<le> int (length (nsrValues r))))"

lemma validateWellKnownValues_iff:
  "validateWellKnownValues (r \<lparr> nsrKey := normalize_key (nsrKey r) \<rparr>) = None \<longleftrightarrow> known_values_ok r"
  by (auto simp: validateWellKnownValues_def known_values_ok_def Let_def not_less Suc_le_eq
      split: option.splits)

lemma ValidateRequirement_iff:
  "ValidateRequirement qname labelValue r = [] \<longleftrightarrow> requirement_ok qname labelValue r"
proof -
  have key: "get_or (nsrKey r) NormalizedLabels (nsrKey r) = normalize_key (nsrKey r)"
    by (simp add: normalize_key_def)
  have values_ok: "concat (map (\<lambda>v. map (\<lambda>_. InvalidLabelValue v) (labelValue v)) (nsrValues r)) = [] \<longleftrightarrow>
      list_all (\<lambda>v. labelValue v = []) (nsrValues r)"
    by (simp add: list_all_iff)
  have numeric: "(if op = OpGt \<or> op = OpLt \<or> op = OpGte \<or> op = OpLte
          then if length vs \<noteq> 1 then [NotSinglePositiveInteger k]
               else case atoi (hd vs) of
                      (v, err) \<Rightarrow> if err \<noteq> None \<or> v < 0 then [NotSinglePositiveInteger k] else []
          else []) = [] \<longleftrightarrow> (numericOp op \<longrightarrow> (\<exists>b. vs = [b] \<and> snd (atoi b) = None \<and> fst (atoi b) \<ge> 0))"
    for op vs k
    by (auto simp: numericOp_def length_Suc_conv split_beta split: if_splits)
  have min: "(case nsrMinValues r of None \<Rightarrow> False | Some n \<Rightarrow> int (length (nsrValues r)) < n) \<longleftrightarrow>
      \<not> (\<forall>m. nsrMinValues r = Some m \<longrightarrow> m \<le> int (length (nsrValues r)))"
    by (auto split: option.splits)
  show ?thesis
    unfolding ValidateRequirement_def Let_def key append_is_Nil_conv
    using validateWellKnownValues_iff [of r]
    by (auto simp: requirement_ok_def wellFormedSelector_def values_ok numeric min supported_ops list_all_iff not_less
        simp del: One_nat_def split: option.splits)
qed

definition label_ok :: "(string \<Rightarrow> string list) \<Rightarrow> (string \<Rightarrow> string list) \<Rightarrow> string \<times> string \<Rightarrow> bool" where
  "label_ok qname labelValue = (\<lambda>(key, v). key \<noteq> NodePoolLabelKey \<and> qname key = [] \<and> labelValue v = [] \<and> \<not> IsRestrictedLabel key)"

lemma validateLabels_iff:
  "validateLabels qname labelValue t = [] \<longleftrightarrow> list_all (label_ok qname labelValue) (tmplLabels t)"
  by (auto simp: validateLabels_def label_ok_def list_all_iff)

lemma RuntimeValidate_iff:
  assumes "t = Template (npSpec np)"
  shows "RuntimeValidate qname labelValue np = [] \<longleftrightarrow>
     list_all (label_ok qname labelValue) (tmplLabels t) \<and>
     list_all (taint_ok qname) (tmplTaints (tmplSpec t) @ tmplStartupTaints (tmplSpec t)) \<and>
     distinct (map taintPair (tmplTaints (tmplSpec t) @ tmplStartupTaints (tmplSpec t))) \<and>
     list_all (\<lambda>r. requirement_ok qname labelValue r \<and> nsrKey r \<noteq> NodePoolLabelKey) (tmplRequirements (tmplSpec t))"
  using assms
  by (auto simp: RuntimeValidate_def Let_def validateLabels_iff validateTaints_iff validateRequirements_def
      ValidateRequirement_iff validateRequirementsNodePoolKeyDoesNotExist_def list_all_iff split: if_splits)

section \<open>Properties\<close>

definition exampleValidPool :: "int node_pool" where
  "exampleValidPool = exampleBudgetPool
     \<lparr> npSpec := npSpec exampleBudgetPool
        \<lparr> Template := Template (npSpec exampleBudgetPool)
            \<lparr> tmplSpec := tmplSpec (Template (npSpec exampleBudgetPool))
                \<lparr> tmplRequirements := [\<lparr> nsrKey = LabelArchStable, nsrOperator = OpIn, nsrValues = [''arm64''], nsrMinValues = None \<rparr>] \<rparr> \<rparr> \<rparr> \<rparr>"



end
