(* ===== verification/DisruptionCost.thy ===== *)
theory DisruptionCost
  imports Api InstanceTypes
begin

text \<open>
  \<^verbatim>\<open>pkg/utils/disruption/disruption.go\<close>: what it costs to disrupt a pod and a node, and how much of the
  lifetime of a node remains.

  \<^verbatim>\<open>float64\<close> values are real numbers; a result that is not a number in the code is \<open>None\<close>. The feature gate
  \<^verbatim>\<open>PodDeletionCostManagement\<close> is the parameter \<open>gate\<close>. Log messages are left out.
\<close>

section \<open>Costs\<close>

definition DisruptionCostAnnotationKey :: string where
  "DisruptionCostAnnotationKey = Group @ ''/disruption-cost''"

definition PodDeletionCost :: string where
  "PodDeletionCost = ''controller.kubernetes.io/pod-deletion-cost''"

definition PerNodeBaseDisruptionCost :: real where "PerNodeBaseDisruptionCost = 1"

text \<open>\<^verbatim>\<open>strconv.ParseInt(s, 10, 32)\<close>, with \<open>None\<close> for a syntax or range error.\<close>

definition parseInt32 :: "string \<Rightarrow> int option" where
  "parseInt32 s =
     (case atoi s of
        (v, None) \<Rightarrow> if - 2147483648 \<le> v \<and> v \<le> 2147483647 then Some v else None
      | (_, Some _) \<Rightarrow> None)"

definition Clamp :: "real \<Rightarrow> real \<Rightarrow> real \<Rightarrow> real" where
  "Clamp x low high = (if x < low then low else if x > high then high else x)"

definition annotatedCost :: "string \<Rightarrow> real" where
  "annotatedCost costStr = (case parseInt32 costStr of None \<Rightarrow> 0 | Some v \<Rightarrow> real_of_int v / 2 ^ 27)"

definition EvictionCost :: "bool \<Rightarrow> pod \<Rightarrow> real" where
  "EvictionCost gate p =
     (let steered = (case map_of (podAnnotations p) DisruptionCostAnnotationKey of
                       Some costStr \<Rightarrow> 1 + annotatedCost costStr
                     | None \<Rightarrow>
                         if \<not> gate
                         then (case map_of (podAnnotations p) PodDeletionCost of
                                 Some costStr \<Rightarrow> 1 + annotatedCost costStr
                               | None \<Rightarrow> 1)
                         else 1);
          cost = (case podPriority p of None \<Rightarrow> steered | Some q \<Rightarrow> steered + real_of_int q / 2 ^ 25)
      in Clamp cost (- 10) 10)"

definition ReschedulingCost :: "bool \<Rightarrow> pod list \<Rightarrow> real" where
  "ReschedulingCost gate pods = fold (\<lambda>p cost. cost + EvictionCost gate p) pods 0"

definition ComputeRescheduleDisruptionCost :: "bool \<Rightarrow> pod list \<Rightarrow> real" where
  "ComputeRescheduleDisruptionCost gate pods =
     fold (\<lambda>p cost. cost + max 0 (EvictionCost gate p)) pods PerNodeBaseDisruptionCost"

definition SavingsRatio :: "real \<Rightarrow> real \<Rightarrow> real option" where
  "SavingsRatio price cost = (if cost = 0 then None else Some (price / cost))"

definition ResolveOfferingPrice :: "choices \<Rightarrow> (string, string) gomap \<Rightarrow> 'q instance_type option \<Rightarrow> real option" where
  "ResolveOfferingPrice ch labels it =
     (case it of
        None \<Rightarrow> Some 0
      | Some i \<Rightarrow>
          map_option (\<lambda>(price, ok). if \<not> ok then 0 else price)
            (OfferingPrice ch (itOfferings i) (get_or [] labels LabelTopologyZone) (get_or [] labels CapacityTypeLabelKey)))"

section \<open>Ages\<close>

definition seconds :: "int \<Rightarrow> real" where
  "seconds d = real_of_int d / 1000000000"

text \<open>The quotient of floating point numbers, clamped: dividing by zero gives an infinity or no number.\<close>

definition clampedQuotient :: "real \<Rightarrow> real \<Rightarrow> real option" where
  "clampedQuotient x y =
     (if y \<noteq> 0 then Some (Clamp (x / y) 0 1)
      else if x < 0 then Some 0 else if x > 0 then Some 1 else None)"

definition LifetimeRemaining :: "int \<Rightarrow> 'q node_claim \<Rightarrow> real option" where
  "LifetimeRemaining now c =
     (case ExpireAfter (ncSpec c) of
        None \<Rightarrow> Some 1
      | Some expireAfter \<Rightarrow>
          let ageInSeconds = seconds (subTime now (ncCreation c));
              totalLifetimeSeconds = seconds expireAfter
          in clampedQuotient (totalLifetimeSeconds - ageInSeconds) totalLifetimeSeconds)"

definition IsUnderConsolidateAfter :: "'q node_pool option \<Rightarrow> 'q node_claim option \<Rightarrow> int \<Rightarrow> bool" where
  "IsUnderConsolidateAfter nodePool nodeClaim now =
     (case (nodePool, nodeClaim) of
        (Some np, Some c) \<Rightarrow>
          (case ConsolidateAfter (Disruption (npSpec np)) of
             None \<Rightarrow> False
           | Some after \<Rightarrow>
               if after = 0 then False
               else case getCondition ConditionTypeInitialized (StatusConditions c) of
                      None \<Rightarrow> False
                    | Some initialized \<Rightarrow>
                        if \<not> conditionIsTrue (Some initialized) then False
                        else let timeToCheck = (if LastPodEventTime (ncStatus c) \<noteq> zeroTime
                                                then LastPodEventTime (ncStatus c) else scLastTransition initialized)
                             in subTime now timeToCheck < after)
      | _ \<Rightarrow> False)"

section \<open>Lemmas\<close>

lemma Clamp_bounds: "low \<le> high \<Longrightarrow> low \<le> Clamp x low high \<and> Clamp x low high \<le> high"
  by (simp add: Clamp_def)

lemma EvictionCost_bounds: "- 10 \<le> EvictionCost gate p" "EvictionCost gate p \<le> 10"
  using Clamp_bounds [of "- 10" 10] by (auto simp: EvictionCost_def Let_def)

lemma fold_cost: "fold (\<lambda>p cost. cost + f p) ps c = c + (\<Sum>p \<leftarrow> ps. f p)" for c :: real
  by (induction ps arbitrary: c) (auto simp: add.assoc)

lemma reschedule_cost_sum:
  "ComputeRescheduleDisruptionCost gate ps = 1 + (\<Sum>p \<leftarrow> ps. max 0 (EvictionCost gate p))"
  by (simp add: ComputeRescheduleDisruptionCost_def fold_cost PerNodeBaseDisruptionCost_def)

lemma reschedule_cost_bounds:
  "1 \<le> ComputeRescheduleDisruptionCost gate ps"
  "ComputeRescheduleDisruptionCost gate ps \<le> 1 + 10 * real (length ps)"
proof -
  have "0 \<le> (\<Sum>p \<leftarrow> ps. max 0 (EvictionCost gate p))" by (rule sum_list_nonneg) auto
  then show "1 \<le> ComputeRescheduleDisruptionCost gate ps" by (simp add: reschedule_cost_sum)
  have "(\<Sum>p \<leftarrow> ps. max 0 (EvictionCost gate p)) \<le> 10 * real (length ps)"
    by (induction ps) (use EvictionCost_bounds in \<open>auto simp: max_def algebra_simps intro: order_trans add_mono\<close>)
  then show "ComputeRescheduleDisruptionCost gate ps \<le> 1 + 10 * real (length ps)"
    by (simp add: reschedule_cost_sum)
qed

lemma parseInt32_range: "parseInt32 s = Some v \<Longrightarrow> - 2147483648 \<le> v \<and> v \<le> 2147483647"
  by (auto simp: parseInt32_def split: prod.splits option.splits if_splits)

lemma annotatedCost_bounds: "- 16 \<le> annotatedCost s" "annotatedCost s < 16"
  using parseInt32_range [of s]
  by (auto simp: annotatedCost_def field_simps split: option.splits)

lemma LifetimeRemaining_none:
  "LifetimeRemaining now c = None \<longleftrightarrow>
     ExpireAfter (ncSpec c) = Some 0 \<and> subTime now (ncCreation c) = 0"
  by (auto simp: LifetimeRemaining_def clampedQuotient_def Let_def seconds_def split: option.splits)

lemma LifetimeRemaining_bounds:
  "LifetimeRemaining now c = Some r \<Longrightarrow> 0 \<le> r \<and> r \<le> 1"
  using Clamp_bounds [of 0 1]
  by (auto simp: LifetimeRemaining_def clampedQuotient_def Let_def split: option.splits if_splits)

lemma subTime_mono: "a \<le> b \<Longrightarrow> subTime a t \<le> subTime b t"
  by (auto simp: subTime_def)

lemma Clamp_mono: "x \<le> y \<Longrightarrow> low \<le> high \<Longrightarrow> Clamp x low high \<le> Clamp y low high"
  by (simp add: Clamp_def)

lemma LifetimeRemaining_antimono:
  assumes e: "ExpireAfter (ncSpec c) = Some e" "0 < e" and le: "now \<le> later"
    and r: "LifetimeRemaining now c = Some r" "LifetimeRemaining later c = Some r'"
  shows "r' \<le> r"
proof -
  have pos: "0 < seconds e" using e(2) by (simp add: seconds_def)
  have "seconds (subTime now (ncCreation c)) \<le> seconds (subTime later (ncCreation c))"
    using subTime_mono [OF le] by (simp add: seconds_def divide_right_mono)
  then have "(seconds e - seconds (subTime later (ncCreation c))) / seconds e
      \<le> (seconds e - seconds (subTime now (ncCreation c))) / seconds e"
    using pos by (simp add: divide_right_mono)
  then show ?thesis
    using r pos Clamp_mono [of _ _ 0 1] by (auto simp: LifetimeRemaining_def e clampedQuotient_def Let_def)
qed

section \<open>Properties\<close>

text \<open>
  C39. The cost of evicting a pod lies between -10 and 10 although the annotation alone may steer it up to
  17, so the cost of a node is at least 1 and at most 1 plus 10 per pod and the savings ratio never panics. The
  remaining lifetime lies between 0 and 1 and falls with time; it is undefined exactly for an expiry of zero at the
  instant of creation.\<close>
theorem disruption_costs_are_bounded:
  fixes c :: "'q node_claim"
  shows "- 10 \<le> EvictionCost gate p \<and> EvictionCost gate p \<le> 10 \<and>
     1 \<le> ComputeRescheduleDisruptionCost gate ps \<and>
     ComputeRescheduleDisruptionCost gate ps \<le> 1 + 10 * real (length ps) \<and>
     SavingsRatio price (ComputeRescheduleDisruptionCost gate ps) \<noteq> None \<and>
     (map_of (podAnnotations p) DisruptionCostAnnotationKey = Some ''2147483647'' \<and> podPriority p = None \<longrightarrow>
        EvictionCost gate p = 10) \<and>
     (LifetimeRemaining now c = None \<longleftrightarrow>
        ExpireAfter (ncSpec c) = Some 0 \<and> subTime now (ncCreation c) = 0) \<and>
     (LifetimeRemaining now c = Some r \<longrightarrow> 0 \<le> r \<and> r \<le> 1) \<and>
     (ExpireAfter (ncSpec c) = Some e \<and> 0 < e \<and> now \<le> later \<and>
        LifetimeRemaining now c = Some r \<and> LifetimeRemaining later c = Some r' \<longrightarrow> r' \<le> r)"
proof (intro conjI impI)
  have "parseInt32 ''2147483647'' = Some 2147483647" by code_simp
  then show "EvictionCost gate p = 10"
    if "map_of (podAnnotations p) DisruptionCostAnnotationKey = Some ''2147483647'' \<and> podPriority p = None"
    using that by (simp add: EvictionCost_def annotatedCost_def Clamp_def)
  show "SavingsRatio price (ComputeRescheduleDisruptionCost gate ps) \<noteq> None"
    using reschedule_cost_bounds(1) [of gate ps] by (simp add: SavingsRatio_def)
  show "r' \<le> r" if "ExpireAfter (ncSpec c) = Some e \<and> 0 < e \<and> now \<le> later \<and>
        LifetimeRemaining now c = Some r \<and> LifetimeRemaining later c = Some r'"
    using that LifetimeRemaining_antimono [of c e now later r r'] by simp
  show "0 \<le> r" "r \<le> 1" if "LifetimeRemaining now c = Some r"
    using LifetimeRemaining_bounds [OF that] by simp_all
qed (simp_all only: EvictionCost_bounds reschedule_cost_bounds LifetimeRemaining_none)

definition exampleAgingClaim :: "int node_claim" where
  "exampleAgingClaim =
     (ToNodeClaim \<lparr> tmplLabels = [], tmplAnnotations = [],
        tmplSpec = \<lparr> tmplTaints = [], tmplStartupTaints = [], tmplRequirements = [], tmplNodeClassRef = None,
                     tmplTerminationGracePeriod = None, tmplExpireAfter = Some 4000000000 \<rparr> \<rparr>) \<lparr> ncCreation := 0 \<rparr>"

theorem disruption_costs_are_bounded_witness:
  "EvictionCost True ((emptyPod ''a'') \<lparr> podAnnotations := [(DisruptionCostAnnotationKey, ''2147483647'')] \<rparr>) = 10 \<and>
   LifetimeRemaining 1000000000 exampleAgingClaim = Some (3 / 4) \<and>
   LifetimeRemaining 3000000000 exampleAgingClaim = Some (1 / 4) \<and> (1 / 4 :: real) \<le> 3 / 4"
proof -
  have early: "LifetimeRemaining 1000000000 exampleAgingClaim = Some (3 / 4)"
    by (simp add: LifetimeRemaining_def exampleAgingClaim_def ToNodeClaim_def seconds_def subTime_def MaxInt64_def
        MinInt64_def clampedQuotient_def Clamp_def)
  have late: "LifetimeRemaining 3000000000 exampleAgingClaim = Some (1 / 4)"
    by (simp add: LifetimeRemaining_def exampleAgingClaim_def ToNodeClaim_def seconds_def subTime_def MaxInt64_def
        MinInt64_def clampedQuotient_def Clamp_def)
  have e: "ExpireAfter (ncSpec exampleAgingClaim) = Some 4000000000"
    by (simp add: exampleAgingClaim_def ToNodeClaim_def)
  show ?thesis
    using disruption_costs_are_bounded
      [where gate = True and p = "(emptyPod ''a'') \<lparr> podAnnotations := [(DisruptionCostAnnotationKey, ''2147483647'')] \<rparr>"
        and c = exampleAgingClaim and now = 1000000000 and later = 3000000000 and e = 4000000000
        and r = "3 / 4" and r' = "1 / 4" and ps = "[]" and price = 0] early late e
    by (simp add: emptyPod_def)
qed

end
