(* ===== verification/StateNode.thy ===== *)
theory StateNode
  imports DisruptionCost Volumes
begin

text \<open>
  \<^verbatim>\<open>pkg/controllers/state/statenode.go\<close> with the pod lookups of \<^verbatim>\<open>pkg/utils/node/node.go\<close>: the cached view of
  one node, made of the Node object, the NodeClaim object and the usage of the pods bound to it.

  Reads of the API server and functions of Kubernetes are the fields of \<open>env\<close>: \<open>ceilingRequests\<close> and
  \<open>ceilingLimits\<close> are the effective requests and limits of a pod, \<open>quantity\<close> turns an integer into a quantity,
  \<open>listPodsOn\<close> lists the pods with a given \<^verbatim>\<open>spec.nodeName\<close> and \<open>csiDrivers\<close> the drivers of a CSINode with
  their allocatable counts. Dereferencing a nil object is \<open>None\<close>. Maps that the code leaves nil are empty.
\<close>

section \<open>State\<close>

record 'q env =
  kubeOf :: kube
  parseIP :: "string \<Rightarrow> ip"
  ceilingRequests :: "pod \<Rightarrow> 'q resource_list"
  ceilingLimits :: "pod \<Rightarrow> 'q resource_list"
  quantity :: "int \<Rightarrow> 'q"
  matchTaint :: "taint \<Rightarrow> taint \<Rightarrow> bool"
  podDeletionCostManagement :: bool
  BatchMaxDuration :: int
  listPodsOn :: "string \<Rightarrow> api_error + pod list"
  csiDrivers :: "string \<Rightarrow> api_error + (string \<times> int option) list"

record 'q state_node =
  snNode :: "'q node option"
  snNodeClaim :: "'q node_claim option"
  daemonSetRequests :: "(namespaced_name, 'q resource_list) gomap"
  daemonSetLimits :: "(namespaced_name, 'q resource_list) gomap"
  podRequests :: "(namespaced_name, 'q resource_list) gomap"
  podLimits :: "(namespaced_name, 'q resource_list) gomap"
  podDisruptionCosts :: "(namespaced_name, real) gomap"
  hostPortUsage :: host_port_usage
  volumeUsage :: volume_usage
  markedForDeletion :: bool
  nominatedUntil :: int
  repairPolicyMatches :: "repair_policy_match list"

definition NewNode :: "'q state_node" where
  "NewNode =
     \<lparr> snNode = None, snNodeClaim = None, daemonSetRequests = [], daemonSetLimits = [], podRequests = [],
       podLimits = [], podDisruptionCosts = [], hostPortUsage = NewHostPortUsage, volumeUsage = NewVolumeUsage,
       markedForDeletion = False, nominatedUntil = zeroTime, repairPolicyMatches = [] \<rparr>"

definition NodeRegisteredLabelKey :: string where "NodeRegisteredLabelKey = Group @ ''/registered''"
definition NodeInitializedLabelKey :: string where "NodeInitializedLabelKey = Group @ ''/initialized''"

definition RebootingNoScheduleTaint :: taint where
  "RebootingNoScheduleTaint =
     \<lparr> taintKey = Group @ ''/rebooting'', taintValue = [], taintEffect = NoSchedule \<rparr>"

section \<open>Lifecycle\<close>

definition Managed :: "'q state_node \<Rightarrow> bool" where
  "Managed n \<longleftrightarrow> snNodeClaim n \<noteq> None"

definition nodeLabelIs :: "string \<Rightarrow> string \<Rightarrow> 'q state_node \<Rightarrow> bool" where
  "nodeLabelIs key v n \<longleftrightarrow> (case snNode n of None \<Rightarrow> False | Some nd \<Rightarrow> get_or [] (nodeLabels nd) key = v)"

definition Registered :: "'q state_node \<Rightarrow> bool" where
  "Registered n = (if Managed n then nodeLabelIs NodeRegisteredLabelKey ''true'' n else True)"

definition Initialized :: "'q state_node \<Rightarrow> bool" where
  "Initialized n = (if Managed n then nodeLabelIs NodeInitializedLabelKey ''true'' n else True)"

text \<open>The field of the object that represents the node: the claim until the node registers.\<close>

definition represented :: "('q node_claim \<Rightarrow> 'a) \<Rightarrow> ('q node \<Rightarrow> 'a) \<Rightarrow> 'q state_node \<Rightarrow> 'a option" where
  "represented ofClaim ofNode n =
     (case snNode n of
        None \<Rightarrow> map_option ofClaim (snNodeClaim n)
      | Some nd \<Rightarrow>
          (case snNodeClaim n of
             None \<Rightarrow> Some (ofNode nd)
           | Some c \<Rightarrow> if \<not> Registered n then Some (ofClaim c) else Some (ofNode nd)))"

definition snName :: "'q state_node \<Rightarrow> string option" where
  "snName n = represented ncName nodeMetaName n"

definition snAnnotations :: "'q state_node \<Rightarrow> (string, string) gomap option" where
  "snAnnotations n = represented ncAnnotations nodeAnnotations n"

definition snLabels :: "'q state_node \<Rightarrow> (string, string) gomap option" where
  "snLabels n = represented ncLabels nodeLabels n"

definition snProviderID :: "'q state_node \<Rightarrow> string option" where
  "snProviderID n =
     (case snNode n of
        None \<Rightarrow> map_option (\<lambda>c. statusProviderID (ncStatus c)) (snNodeClaim n)
      | Some nd \<Rightarrow> Some (nodeProviderID nd))"

definition HostName :: "'q state_node \<Rightarrow> string option" where
  "HostName n =
     (case snLabels n of
        None \<Rightarrow> None
      | Some ls \<Rightarrow> if get_or [] ls LabelHostname = [] then snName n else Some (get_or [] ls LabelHostname))"

definition rebootCondition :: "'q node_claim \<Rightarrow> status_condition option" where
  "rebootCondition c = getCondition ConditionTypeRebooting (StatusConditions c)"

definition RebootInProgress :: "'q state_node \<Rightarrow> bool" where
  "RebootInProgress n =
     (case snNodeClaim n of None \<Rightarrow> False | Some c \<Rightarrow> conditionIsTrue (rebootCondition c))"

definition RebootReinitializing :: "'q state_node \<Rightarrow> bool" where
  "RebootReinitializing n =
     (case snNodeClaim n of
        None \<Rightarrow> False
      | Some c \<Rightarrow>
          if Initialized n then False
          else case rebootCondition c of
                 None \<Rightarrow> False
               | Some cond \<Rightarrow> conditionIsFalse (Some cond) \<and> scReason cond = RebootReasonSucceeded)"

definition GetRepairResult :: "'q state_node \<Rightarrow> int \<Rightarrow> repair_result option" where
  "GetRepairResult n now =
     (case snNode n of
        None \<Rightarrow> Some emptyResult
      | Some _ \<Rightarrow>
          let rebootFinishedAt =
                (case snNodeClaim n of
                   None \<Rightarrow> zeroTime
                 | Some c \<Rightarrow>
                     (case rebootCondition c of
                        None \<Rightarrow> zeroTime
                      | Some rebooting \<Rightarrow>
                          if conditionIsFalse (Some rebooting) then scLastTransition rebooting else zeroTime))
          in Resolve (repairPolicyMatches n) now rebootFinishedAt)"

definition Deleted :: "'q state_node \<Rightarrow> bool" where
  "Deleted n =
     (case snNodeClaim n of
        Some c \<Rightarrow>
          ncDeletion c \<noteq> None \<or>
          conditionIsTrue (getCondition ConditionTypeInstanceTerminating (StatusConditions c))
      | None \<Rightarrow> (case snNode n of None \<Rightarrow> False | Some nd \<Rightarrow> nodeDeletion nd \<noteq> None))"

definition MarkedForDeletion :: "'q state_node \<Rightarrow> bool" where
  "MarkedForDeletion n \<longleftrightarrow> markedForDeletion n \<or> Deleted n"

definition nominationWindow :: "'q env \<Rightarrow> int" where
  "nominationWindow E = max (wrap64 (2 * BatchMaxDuration E)) (10 * 1000000000)"

definition Nominate :: "'q env \<Rightarrow> int \<Rightarrow> 'q state_node \<Rightarrow> 'q state_node" where
  "Nominate E now n = n \<lparr> nominatedUntil := now + nominationWindow E \<rparr>"

definition Nominated :: "'q state_node \<Rightarrow> int \<Rightarrow> bool" where
  "Nominated n now \<longleftrightarrow> nominatedUntil n > now"

definition ActiveNodes :: "'q state_node list \<Rightarrow> 'q state_node list" where
  "ActiveNodes ns = filter (\<lambda>n. \<not> MarkedForDeletion n) ns"

definition DeletingNodes :: "'q state_node list \<Rightarrow> 'q state_node list" where
  "DeletingNodes ns = filter (\<lambda>n. MarkedForDeletion n) ns"

section \<open>Taints\<close>

definition snTaints :: "'q env \<Rightarrow> 'q state_node \<Rightarrow> taint list option" where
  "snTaints E n =
     (let taints = (if \<not> Registered n \<and> Managed n \<or> snNode n = None
                    then map_option (\<lambda>c. specTaints (ncSpec c)) (snNodeClaim n)
                    else map_option nodeTaints (snNode n))
      in case (taints, snNodeClaim n) of
           (None, _) \<Rightarrow> None
         | (Some ts, None) \<Rightarrow> Some ts
         | (Some ts, Some c) \<Rightarrow>
             if \<not> Initialized n \<or> RebootInProgress n
             then Some (filter (\<lambda>t. \<not> (IsKnownEphemeralTaint (matchTaint E) (Some t) \<or>
                                        matchTaint E t RebootingNoScheduleTaint \<or>
                                        list_ex (\<lambda>s. matchTaint E s t) (StartupTaints (ncSpec c)))) ts)
             else Some ts)"

text \<open>The taints that \<^verbatim>\<open>RequireNoScheduleTaint\<close> leaves on a node of the API server.\<close>

definition requiredTaints :: "(taint \<Rightarrow> taint \<Rightarrow> bool) \<Rightarrow> bool \<Rightarrow> bool \<Rightarrow> taint list \<Rightarrow> taint list" where
  "requiredTaints mt addTaint deleting ts =
     (let hasTaint = list_ex (\<lambda>t. mt t DisruptedNoScheduleTaint) ts
      in if hasTaint \<and> deleting then ts
         else if \<not> addTaint then filter (\<lambda>t. \<not> mt t DisruptedNoScheduleTaint) ts
         else if \<not> hasTaint
         then filter (\<lambda>t. \<not> mt t DisruptedNoScheduleTaint) ts @ [DisruptedNoScheduleTaint]
         else ts)"

section \<open>Resources\<close>

definition overrideZeros ::
  "'q::linordered_ab_group_add resource_list \<Rightarrow> 'q resource_list \<Rightarrow> 'q resource_list" where
  "overrideZeros claimed ret =
     fold (\<lambda>(resourceName, q) r. if qty r resourceName = 0 then AList.update resourceName q r else r) claimed ret"

definition Capacity :: "'q env \<Rightarrow> 'q state_node \<Rightarrow> 'q::linordered_ab_group_add resource_list option" where
  "Capacity E n =
     (let withNode = (\<lambda>r. assignMap r [(NodeResource, quantity E 1)])
      in case snNodeClaim n of
           Some c \<Rightarrow>
             if \<not> Initialized n
             then (case snNode n of
                     Some nd \<Rightarrow> Some (withNode (overrideZeros (statusCapacity (ncStatus c)) (nodeCapacity nd)))
                   | None \<Rightarrow> Some (withNode (statusCapacity (ncStatus c))))
             else map_option (\<lambda>nd. withNode (nodeCapacity nd)) (snNode n)
         | None \<Rightarrow> map_option (\<lambda>nd. withNode (nodeCapacity nd)) (snNode n))"

definition snAllocatable :: "'q state_node \<Rightarrow> 'q::linordered_ab_group_add resource_list option" where
  "snAllocatable n =
     (case snNodeClaim n of
        Some c \<Rightarrow>
          if \<not> Initialized n
          then (case snNode n of
                  Some nd \<Rightarrow> Some (overrideZeros (statusAllocatable (ncStatus c)) (nodeAllocatable nd))
                | None \<Rightarrow> Some (statusAllocatable (ncStatus c)))
          else map_option nodeAllocatable (snNode n)
      | None \<Rightarrow> map_option nodeAllocatable (snNode n))"

definition PodRequests :: "'q state_node \<Rightarrow> 'q::linordered_ab_group_add resource_list" where
  "PodRequests n =
     (case fold (\<lambda>(_, requests) tot. Some (MergeInto tot requests)) (podRequests n) None of
        None \<Rightarrow> [] | Some r \<Rightarrow> r)"

definition PodLimits :: "'q state_node \<Rightarrow> 'q::linordered_ab_group_add resource_list" where
  "PodLimits n = Merge (map snd (podLimits n))"

definition DaemonSetRequests :: "'q state_node \<Rightarrow> 'q::linordered_ab_group_add resource_list" where
  "DaemonSetRequests n = Merge (map snd (daemonSetRequests n))"

definition DaemonSetLimits :: "'q state_node \<Rightarrow> 'q::linordered_ab_group_add resource_list" where
  "DaemonSetLimits n = Merge (map snd (daemonSetLimits n))"

definition Available :: "'q state_node \<Rightarrow> 'q::linordered_ab_group_add resource_list option" where
  "Available n = map_option (\<lambda>a. Subtract a (PodRequests n)) (snAllocatable n)"

definition DisruptionCost :: "'q state_node \<Rightarrow> real" where
  "DisruptionCost n = fold (\<lambda>(_, c) cost. cost + c) (podDisruptionCosts n) PerNodeBaseDisruptionCost"

section \<open>Pods\<close>

text \<open>\<^verbatim>\<open>updateForPod\<close>: nothing changes when the volumes of the pod cannot be resolved.\<close>

definition updateForPod ::
  "'q env \<Rightarrow> pod \<Rightarrow> 'q state_node \<Rightarrow> api_error + 'q::linordered_ab_group_add state_node" where
  "updateForPod E p n =
     (let key = podKey p;
          hostPorts = GetHostPorts (parseIP E) p
      in case GetVolumes (kubeOf E) p of
           Inl err \<Rightarrow> Inl err
         | Inr volumes \<Rightarrow>
             let requests = RequestsForPods (ceilingRequests E) (quantity E) [p];
                 limits = LimitsForPods (ceilingLimits E) (quantity E) [p];
                 n1 = n \<lparr> podRequests := AList.update key requests (podRequests n),
                          podLimits := AList.update key limits (podLimits n) \<rparr>;
                 n2 = (if IsOwnedByDaemonSet p
                       then n1 \<lparr> daemonSetRequests := AList.update key requests (daemonSetRequests n1),
                                 daemonSetLimits := AList.update key limits (daemonSetLimits n1) \<rparr>
                       else n1);
                 evictionCost = EvictionCost (podDeletionCostManagement E) p;
                 n3 = (if \<not> IsOwnedByDaemonSet p
                       then n2 \<lparr> podDisruptionCosts :=
                                   (if evictionCost > 0 then AList.update key evictionCost (podDisruptionCosts n2)
                                    else AList.delete key (podDisruptionCosts n2)) \<rparr>
                       else n2)
             in Inr (n3 \<lparr> hostPortUsage := AddPorts p hostPorts (hostPortUsage n3),
                          volumeUsage := AddPodVolumes key volumes (volumeUsage n3) \<rparr>))"

definition cleanupForPod :: "namespaced_name \<Rightarrow> 'q state_node \<Rightarrow> 'q state_node" where
  "cleanupForPod key n =
     n \<lparr> hostPortUsage := DeletePodPorts key (hostPortUsage n),
         volumeUsage := DeletePodVolumes key (volumeUsage n),
         podRequests := AList.delete key (podRequests n),
         podLimits := AList.delete key (podLimits n),
         daemonSetRequests := AList.delete key (daemonSetRequests n),
         daemonSetLimits := AList.delete key (daemonSetLimits n),
         podDisruptionCosts := AList.delete key (podDisruptionCosts n) \<rparr>"

fun GetPods :: "'q env \<Rightarrow> string list \<Rightarrow> api_error + pod list" where
  "GetPods E [] = Inr []"
| "GetPods E (name # names) =
     (if name = [] then GetPods E names
      else case listPodsOn E name of
             Inl e \<Rightarrow> Inl e
           | Inr ps \<Rightarrow> (case GetPods E names of Inl e \<Rightarrow> Inl e | Inr rest \<Rightarrow> Inr (ps @ rest)))"

definition ReschedulablePods :: "'q env \<Rightarrow> string list \<Rightarrow> api_error + pod list" where
  "ReschedulablePods E names =
     (case GetPods E names of Inl e \<Rightarrow> Inl e | Inr ps \<Rightarrow> Inr (filter IsReschedulable ps))"

definition snPods :: "'q env \<Rightarrow> 'q state_node \<Rightarrow> api_error + pod list" where
  "snPods E n = (case snNode n of None \<Rightarrow> Inr [] | Some nd \<Rightarrow> GetPods E [nodeMetaName nd])"

fun nodesPods :: "'q env \<Rightarrow> 'q state_node list \<Rightarrow> api_error + pod list" where
  "nodesPods E [] = Inr []"
| "nodesPods E (n # ns) =
     (case snPods E n of
        Inl e \<Rightarrow> Inl e
      | Inr ps \<Rightarrow> (case nodesPods E ns of Inl e \<Rightarrow> Inl e | Inr rest \<Rightarrow> Inr (ps @ rest)))"

text \<open>\<open>parseSel\<close> and \<open>listed\<close> are the label selectors and the budgets that \<^verbatim>\<open>pdb.NewLimits\<close> reads.\<close>

definition GetCurrentlyReschedulablePods ::
  "'q env \<Rightarrow> (toleration \<Rightarrow> taint \<Rightarrow> bool) \<Rightarrow> (label_selector option \<Rightarrow> ((string, string) gomap \<Rightarrow> bool) option) \<Rightarrow>
   pod_disruption_budget list option \<Rightarrow> int \<Rightarrow> 'q node list \<Rightarrow> api_error option + pod list" where
  "GetCurrentlyReschedulablePods E tt parseSel listed now nodes =
     (case GetPods E (map nodeMetaName nodes) of
        Inl e \<Rightarrow> Inl (Some e)
      | Inr pods \<Rightarrow>
          (case NewLimits parseSel listed of
             None \<Rightarrow> Inl None
           | Some pdbs \<Rightarrow> Inr (filter (\<lambda>p. IsCurrentlyReschedulable tt pdbs p now) pods)))"

definition CurrentlyReschedulablePods ::
  "'q env \<Rightarrow> (toleration \<Rightarrow> taint \<Rightarrow> bool) \<Rightarrow> (label_selector option \<Rightarrow> ((string, string) gomap \<Rightarrow> bool) option) \<Rightarrow>
   pod_disruption_budget list option \<Rightarrow> int \<Rightarrow> 'q state_node \<Rightarrow> api_error option + pod list" where
  "CurrentlyReschedulablePods E tt parseSel listed now n =
     (case snNode n of
        None \<Rightarrow> Inr []
      | Some nd \<Rightarrow> GetCurrentlyReschedulablePods E tt parseSel listed now [nd])"

section \<open>Disruptability\<close>

datatype disruption_error =
  NotManaged
| NoAssociatedNode
| NodeRebooting
| NodeDeleting
| NodeNotRegistered
| NodeUninitializedError
| NodeNominated
| NodeDoNotDisruptError
| NodePoolLabelMissing
| PodBlockEvictionError
| ListingPods api_error

definition IsPodBlockEvictionError :: "disruption_error option \<Rightarrow> bool" where
  "IsPodBlockEvictionError err \<longleftrightarrow> err = Some PodBlockEvictionError"

definition IgnorePodBlockEvictionError :: "disruption_error option \<Rightarrow> disruption_error option" where
  "IgnorePodBlockEvictionError err = (if IsPodBlockEvictionError err then None else err)"

definition IsNodeDoNotDisruptError :: "disruption_error option \<Rightarrow> bool" where
  "IsNodeDoNotDisruptError err \<longleftrightarrow> err = Some NodeDoNotDisruptError"

definition IgnoreNodeDoNotDisruptError :: "disruption_error option \<Rightarrow> disruption_error option" where
  "IgnoreNodeDoNotDisruptError err = (if IsNodeDoNotDisruptError err then None else err)"

definition IsNodeUninitializedError :: "disruption_error option \<Rightarrow> bool" where
  "IsNodeUninitializedError err \<longleftrightarrow> err = Some NodeUninitializedError"

definition IgnoreNodeUninitializedError :: "disruption_error option \<Rightarrow> disruption_error option" where
  "IgnoreNodeUninitializedError err = (if IsNodeUninitializedError err then None else err)"

text \<open>The outer \<open>None\<close> is a nil dereference, the inner one the absence of an error.\<close>

definition ValidateNodeDisruptable :: "'q state_node \<Rightarrow> int \<Rightarrow> disruption_error option option" where
  "ValidateNodeDisruptable n now =
     (if snNodeClaim n = None then Some (Some NotManaged)
      else if snNode n = None then Some (Some NoAssociatedNode)
      else if RebootInProgress n then Some (Some NodeRebooting)
      else if MarkedForDeletion n then Some (Some NodeDeleting)
      else if \<not> Initialized n
      then if \<not> Registered n then Some (Some NodeNotRegistered) else Some (Some NodeUninitializedError)
      else if Nominated n now then Some (Some NodeNominated)
      else case snAnnotations n of
             None \<Rightarrow> None
           | Some as \<Rightarrow>
               if get_or [] as DoNotDisruptAnnotationKey = ''true'' then Some (Some NodeDoNotDisruptError)
               else case snLabels n of
                      None \<Rightarrow> None
                    | Some ls \<Rightarrow> if map_of ls NodePoolLabelKey = None then Some (Some NodePoolLabelMissing)
                                  else Some None)"

definition ValidatePodsDisruptable ::
  "'q env \<Rightarrow> (toleration \<Rightarrow> taint \<Rightarrow> bool) \<Rightarrow> pdb_item list \<Rightarrow> 'q state_node \<Rightarrow> int \<Rightarrow>
   pod list \<times> disruption_error option" where
  "ValidatePodsDisruptable E tt pdbs n now =
     (case snPods E n of
        Inl e \<Rightarrow> ([], Some (ListingPods e))
      | Inr pods \<Rightarrow>
          if list_ex (\<lambda>po. \<not> IsDisruptable po now) pods then (pods, Some PodBlockEvictionError)
          else case CanEvictPods tt pdbs pods now of
                 (pdbKeys, ok) \<Rightarrow> if \<not> ok then (pods, Some PodBlockEvictionError) else (pods, None))"

section \<open>Lifecycle lemmas\<close>

definition present :: "'q state_node \<Rightarrow> bool" where
  "present n \<longleftrightarrow> snNode n \<noteq> None \<or> snNodeClaim n \<noteq> None"

lemma represented_present: "represented f g n \<noteq> None \<longleftrightarrow> present n"
  by (auto simp: represented_def present_def split: option.splits)

lemma Initialized_claim: "\<not> Initialized n \<Longrightarrow> snNodeClaim n \<noteq> None"
  by (simp add: Initialized_def Managed_def split: if_splits)

lemma Initialized_node: "Initialized n \<Longrightarrow> snNodeClaim n \<noteq> None \<Longrightarrow> snNode n \<noteq> None"
  by (auto simp: Initialized_def Managed_def nodeLabelIs_def split: option.splits)

lemma Registered_node: "Registered n \<Longrightarrow> snNodeClaim n \<noteq> None \<Longrightarrow> snNode n \<noteq> None"
  by (auto simp: Registered_def Managed_def nodeLabelIs_def split: option.splits)

lemma Capacity_present: "Capacity E n \<noteq> None \<longleftrightarrow> present n"
  using Initialized_node [of n] by (auto simp: Capacity_def present_def Let_def split: option.splits)

lemma Capacity_counts_node: "Capacity E n = Some r \<Longrightarrow> qty r NodeResource = quantity E 1"
  by (auto simp: Capacity_def Let_def assignMap_def gomap_simps split: option.splits if_splits)

lemma overrideZeros_wf: "gomap_wf r \<Longrightarrow> gomap_wf (overrideZeros claimed r)"
  unfolding overrideZeros_def by (rule fold_gomap_wf) auto

lemma qty_overrideZeros:
  assumes "gomap_wf claimed"
  shows "qty (overrideZeros claimed r) k = (if qty r k = 0 then qty claimed k else qty r k)"
proof -
  let ?f = "\<lambda>k q m. if qty m k = 0 then AList.update k q m else m"
  let ?g = "\<lambda>k q cur. if (case cur of None \<Rightarrow> 0 | Some v \<Rightarrow> v) = 0 then Some q else cur"
  have "map_of (overrideZeros claimed r) k =
      (case map_of claimed k of None \<Rightarrow> map_of r k | Some q \<Rightarrow> ?g k q (map_of r k))"
    unfolding overrideZeros_def
    by (rule map_of_fold_pointwise [OF assms]) (auto simp: gomap_simps get_or_def)
  then show ?thesis by (auto simp: get_or_def split: option.splits)
qed

section \<open>The pods a state node tracks\<close>

definition podsMap :: "(pod \<Rightarrow> 'v) \<Rightarrow> pod list \<Rightarrow> (namespaced_name, 'v) gomap" where
  "podsMap f ps = map (\<lambda>p. (podKey p, f p)) ps"

definition dropPod :: "namespaced_name \<Rightarrow> pod list \<Rightarrow> pod list" where
  "dropPod key ps = filter (\<lambda>p. podKey p \<noteq> key) ps"

definition putPod :: "pod \<Rightarrow> pod list \<Rightarrow> pod list" where
  "putPod p ps = dropPod (podKey p) ps @ [p]"

lemma podsMap_wf: "gomap_wf (podsMap f ps) \<longleftrightarrow> distinct (map podKey ps)"
proof -
  have "map fst (podsMap f ps) = map podKey ps" by (simp add: podsMap_def)
  then show ?thesis by (simp only: gomap_wf_def)
qed

lemma podsMap_drop: "map_of (podsMap f (dropPod key ps)) k = (if k = key then None else map_of (podsMap f ps) k)"
  by (induction ps) (auto simp: podsMap_def dropPod_def)

lemma podsMap_filter_drop:
  "map_of (podsMap f (filter P (dropPod key ps))) k = (if k = key then None else map_of (podsMap f (filter P ps)) k)"
proof -
  have "filter P (dropPod key ps) = dropPod key (filter P ps)"
    by (simp add: dropPod_def conj_commute)
  then show ?thesis by (simp only: podsMap_drop)
qed

lemma podsMap_put: "map_of (podsMap f (putPod p ps)) k = (if k = podKey p then Some (f p) else map_of (podsMap f ps) k)"
proof -
  have "map_of (podsMap f (putPod p ps)) k =
      (case map_of (podsMap f (dropPod (podKey p) ps)) k of None \<Rightarrow> map_of [(podKey p, f p)] k | Some v \<Rightarrow> Some v)"
    by (simp add: podsMap_def putPod_def map_add_def split: option.splits)
  then show ?thesis by (auto simp: podsMap_drop split: option.splits)
qed

lemma podsMap_filter_put:
  "map_of (podsMap f (filter P (putPod p ps))) k =
     (if k = podKey p then (if P p then Some (f p) else None) else map_of (podsMap f (filter P ps)) k)"
proof -
  have "filter P (putPod p ps) = filter P (dropPod (podKey p) ps) @ (if P p then [p] else [])"
    by (simp add: putPod_def)
  then have "map_of (podsMap f (filter P (putPod p ps))) k =
      (case map_of (podsMap f (filter P (dropPod (podKey p) ps))) k of
         None \<Rightarrow> map_of (if P p then [(podKey p, f p)] else []) k | Some v \<Rightarrow> Some v)"
    by (simp add: podsMap_def map_add_def split: option.splits)
  then show ?thesis by (auto simp: podsMap_filter_drop split: option.splits)
qed

lemma distinct_drop: "distinct (map podKey ps) \<Longrightarrow> distinct (map podKey (dropPod key ps))"
  by (induction ps) (auto simp: dropPod_def)

lemma distinct_put: "distinct (map podKey ps) \<Longrightarrow> distinct (map podKey (putPod p ps))"
  using distinct_drop [of ps "podKey p"] by (auto simp: putPod_def dropPod_def)

lemma set_put: "set (putPod p ps) = insert p {q \<in> set ps. podKey q \<noteq> podKey p}"
  by (auto simp: putPod_def dropPod_def)

text \<open>Maps with the same lookups have the same entries with the same multiplicity.\<close>

lemma gomap_same_mset:
  assumes "gomap_wf m" "gomap_wf m'" "map_of m = map_of m'"
  shows "mset m = mset m'"
proof -
  have "distinct m" "distinct m'" using assms(1,2) by (simp_all add: gomap_wf_def distinct_map)
  then show ?thesis using gomap_same_entries [OF assms] by (simp add: set_eq_iff_mset_eq_distinct)
qed

lemma sum_podsMap:
  fixes g :: "'v \<Rightarrow> 'b::comm_monoid_add"
  assumes "gomap_wf m" "distinct (map podKey ps)" "map_of m = map_of (podsMap f ps)"
  shows "(\<Sum>(k, v) \<leftarrow> m. g v) = (\<Sum>p \<leftarrow> ps. g (f p))"
proof -
  have "mset m = mset (podsMap f ps)"
    using assms by (intro gomap_same_mset) (simp_all add: podsMap_wf)
  then have "sum_mset (mset (map (\<lambda>(k, v). g v) m)) = sum_mset (mset (map (\<lambda>(k, v). g v) (podsMap f ps)))"
    by simp
  then have "(\<Sum>(k, v) \<leftarrow> m. g v) = (\<Sum>(k, v) \<leftarrow> podsMap f ps. g v)" by (simp only: sum_mset_sum_list)
  then show ?thesis by (simp add: podsMap_def comp_def)
qed

text \<open>\<open>tracks E n ps\<close>: the usage recorded in \<open>n\<close> is that of the pods \<open>ps\<close>.\<close>

abbreviation podReq :: "'q::linordered_ab_group_add env \<Rightarrow> pod \<Rightarrow> 'q resource_list" where
  "podReq E p \<equiv> RequestsForPods (ceilingRequests E) (quantity E) [p]"

abbreviation podLim :: "'q::linordered_ab_group_add env \<Rightarrow> pod \<Rightarrow> 'q resource_list" where
  "podLim E p \<equiv> LimitsForPods (ceilingLimits E) (quantity E) [p]"

definition costly :: "'q env \<Rightarrow> pod \<Rightarrow> bool" where
  "costly E p \<longleftrightarrow> \<not> IsOwnedByDaemonSet p \<and> EvictionCost (podDeletionCostManagement E) p > 0"

definition usage_wf :: "'q state_node \<Rightarrow> bool" where
  "usage_wf n \<longleftrightarrow> gomap_wf (podRequests n) \<and> gomap_wf (podLimits n) \<and> gomap_wf (daemonSetRequests n) \<and>
     gomap_wf (daemonSetLimits n) \<and> gomap_wf (podDisruptionCosts n) \<and> gomap_wf (hostPortUsage n)"

definition tracks :: "'q::linordered_ab_group_add env \<Rightarrow> 'q state_node \<Rightarrow> pod list \<Rightarrow> bool" where
  "tracks E n ps \<longleftrightarrow> usage_wf n \<and> distinct (map podKey ps) \<and>
     map_of (podRequests n) = map_of (podsMap (podReq E) ps) \<and>
     map_of (podLimits n) = map_of (podsMap (podLim E) ps) \<and>
     map_of (daemonSetRequests n) = map_of (podsMap (podReq E) (filter IsOwnedByDaemonSet ps)) \<and>
     map_of (daemonSetLimits n) = map_of (podsMap (podLim E) (filter IsOwnedByDaemonSet ps)) \<and>
     map_of (podDisruptionCosts n) =
       map_of (podsMap (EvictionCost (podDeletionCostManagement E)) (filter (costly E) ps)) \<and>
     map_of (hostPortUsage n) = map_of (podsMap (GetHostPorts (parseIP E)) ps)"

lemma tracks_NewNode: "tracks E NewNode []"
  by (simp add: tracks_def usage_wf_def NewNode_def NewHostPortUsage_def podsMap_def)

lemma tracks_cleanup: "tracks E n ps \<Longrightarrow> tracks E (cleanupForPod key n) (dropPod key ps)"
  by (auto simp: tracks_def usage_wf_def cleanupForPod_def DeletePodPorts_def gomap_simps fun_eq_iff podsMap_drop
      podsMap_filter_drop distinct_drop)

lemma updateForPod_fields:
  assumes "updateForPod E p n = Inr n'"
  shows "podRequests n' = AList.update (podKey p) (podReq E p) (podRequests n)"
    "podLimits n' = AList.update (podKey p) (podLim E p) (podLimits n)"
    "daemonSetRequests n' = (if IsOwnedByDaemonSet p
       then AList.update (podKey p) (podReq E p) (daemonSetRequests n) else daemonSetRequests n)"
    "daemonSetLimits n' = (if IsOwnedByDaemonSet p
       then AList.update (podKey p) (podLim E p) (daemonSetLimits n) else daemonSetLimits n)"
    "podDisruptionCosts n' = (if IsOwnedByDaemonSet p then podDisruptionCosts n
       else if costly E p
       then AList.update (podKey p) (EvictionCost (podDeletionCostManagement E) p) (podDisruptionCosts n)
       else AList.delete (podKey p) (podDisruptionCosts n))"
    "hostPortUsage n' = AList.update (podKey p) (GetHostPorts (parseIP E) p) (hostPortUsage n)"
    "snNode n' = snNode n" "snNodeClaim n' = snNodeClaim n" "markedForDeletion n' = markedForDeletion n"
    "nominatedUntil n' = nominatedUntil n" "repairPolicyMatches n' = repairPolicyMatches n"
  using assms by (auto simp: updateForPod_def Let_def AddPorts_def costly_def split: sum.splits if_splits)

lemma tracks_update:
  assumes n: "tracks E n ps" and p: "updateForPod E p n = Inr n'"
    and same: "\<And>q. q \<in> set ps \<Longrightarrow> podKey q = podKey p \<Longrightarrow> IsOwnedByDaemonSet q = IsOwnedByDaemonSet p"
  shows "tracks E n' (putPod p ps)"
proof -
  have absent: "map_of (podsMap f (filter P ps)) (podKey p) = None"
    if "\<And>q. P q \<Longrightarrow> IsOwnedByDaemonSet q \<noteq> IsOwnedByDaemonSet p" for f :: "pod \<Rightarrow> 'v" and P
    using that same by (fastforce simp: map_of_eq_None_iff podsMap_def)
  have daemon: "map_of (podsMap f (filter IsOwnedByDaemonSet ps)) (podKey p) = None"
    if "\<not> IsOwnedByDaemonSet p" for f :: "pod \<Rightarrow> 'v"
    using that by (intro absent) auto
  have cost: "map_of (podsMap f (filter (costly E) ps)) (podKey p) = None"
    if "IsOwnedByDaemonSet p" for f :: "pod \<Rightarrow> 'v"
    using that by (intro absent) (auto simp: costly_def)
  have notcostly: "IsOwnedByDaemonSet p \<Longrightarrow> \<not> costly E p" by (simp add: costly_def)
  show ?thesis
    using n unfolding tracks_def usage_wf_def updateForPod_fields [OF p]
    by (auto simp: gomap_simps fun_eq_iff podsMap_put podsMap_filter_put distinct_put daemon cost notcostly)
qed

section \<open>What tracked pods give\<close>

lemma RequestsForPods_wf: "gomap_wf (RequestsForPods f q ps)"
  by (simp add: RequestsForPods_def Merge_wf)

lemma LimitsForPods_wf: "gomap_wf (LimitsForPods f q ps)"
  by (simp add: LimitsForPods_def Merge_wf)

lemma fold_MergeInto:
  assumes "list_all (\<lambda>(k, r). gomap_wf r) m"
  shows "qty (case fold (\<lambda>(_, r) tot. Some (MergeInto tot r)) m tot of None \<Rightarrow> [] | Some r \<Rightarrow> r) k =
    qty (case tot of None \<Rightarrow> [] | Some r \<Rightarrow> r) k + (\<Sum>(_, r) \<leftarrow> m. qty r k)"
  using assms
proof (induction m arbitrary: tot)
  case (Cons x m)
  then show ?case
    by (cases x) (simp add: MergeInto_def qty_fold_add add.assoc)
qed simp

lemma tracked_values_wf:
  assumes "gomap_wf m" "map_of m = map_of (podsMap f ps)" "\<And>p. gomap_wf (f p)"
  shows "list_all (\<lambda>(k, r). gomap_wf r) m"
proof -
  have "gomap_wf r" if "(k, r) \<in> set m" for k r
  proof -
    have "map_of (podsMap f ps) k = Some r" using that assms(1,2) by (simp add: in_gomap_iff)
    then show ?thesis using assms(3) by (auto dest!: map_of_SomeD simp: podsMap_def)
  qed
  then show ?thesis by (auto simp: list_all_iff)
qed

lemma tracks_PodRequests:
  assumes "tracks E n ps"
  shows "qty (PodRequests n) k = (\<Sum>p \<leftarrow> ps. qty (podReq E p) k)"
proof -
  have wf: "gomap_wf (podRequests n)" "distinct (map podKey ps)"
    and m: "map_of (podRequests n) = map_of (podsMap (podReq E) ps)"
    using assms by (simp_all add: tracks_def usage_wf_def)
  have "qty (PodRequests n) k = (\<Sum>(_, r) \<leftarrow> podRequests n. qty r k)"
    using fold_MergeInto [OF tracked_values_wf [OF wf(1) m RequestsForPods_wf], of None k]
    by (simp add: PodRequests_def gomap_simps)
  then show ?thesis using sum_podsMap [OF wf m, of "\<lambda>r. qty r k"] by simp
qed

lemma tracks_Merge:
  assumes "gomap_wf m" "distinct (map podKey ps)" "map_of m = map_of (podsMap f ps)" "\<And>p. gomap_wf (f p)"
  shows "qty (Merge (map snd m)) k = (\<Sum>p \<leftarrow> ps. qty (f p) k)"
proof -
  have "\<forall>rl \<in> set (map snd m). gomap_wf rl"
    using tracked_values_wf [OF assms(1,3,4)] by (auto simp: list_all_iff)
  then have "qty (Merge (map snd m)) k = (\<Sum>r \<leftarrow> map snd m. qty r k)" by (rule qty_Merge)
  also have "\<dots> = (\<Sum>(_, r) \<leftarrow> m. qty r k)" by (simp add: comp_def case_prod_unfold)
  also have "\<dots> = (\<Sum>p \<leftarrow> ps. qty (f p) k)" by (rule sum_podsMap [OF assms(1-3)])
  finally show ?thesis .
qed

lemma fold_costs: "fold (\<lambda>(_, c) cost. cost + c) m (b :: real) = b + (\<Sum>(_, c) \<leftarrow> m. c)"
  by (induction m arbitrary: b) auto

lemma sum_list_filter_zero:
  "(\<And>x. x \<in> set xs \<Longrightarrow> \<not> P x \<Longrightarrow> f x = 0) \<Longrightarrow> (\<Sum>x \<leftarrow> filter P xs. f x) = (\<Sum>x \<leftarrow> xs. f x)"
  for f :: "'a \<Rightarrow> 'b::monoid_add"
  by (induction xs) auto

lemma tracks_DisruptionCost:
  assumes "tracks E n ps"
  shows "DisruptionCost n =
     ComputeRescheduleDisruptionCost (podDeletionCostManagement E) (filter (\<lambda>p. \<not> IsOwnedByDaemonSet p) ps)"
proof -
  let ?c = "EvictionCost (podDeletionCostManagement E)"
  have wf: "gomap_wf (podDisruptionCosts n)" "distinct (map podKey (filter (costly E) ps))"
    and m: "map_of (podDisruptionCosts n) = map_of (podsMap ?c (filter (costly E) ps))"
    using assms by (simp_all add: tracks_def usage_wf_def distinct_map_filter)
  have "DisruptionCost n = 1 + (\<Sum>p \<leftarrow> filter (costly E) ps. ?c p)"
    using sum_podsMap [OF wf m, of "\<lambda>c. c"]
    by (simp add: DisruptionCost_def fold_costs PerNodeBaseDisruptionCost_def)
  also have "(\<Sum>p \<leftarrow> filter (costly E) ps. ?c p) = (\<Sum>p \<leftarrow> filter (costly E) ps. max 0 (?c p))"
    by (rule arg_cong [where f = sum_list], rule map_cong) (auto simp: costly_def)
  also have "filter (costly E) ps = filter (\<lambda>p. ?c p > 0) (filter (\<lambda>p. \<not> IsOwnedByDaemonSet p) ps)"
    by (simp add: costly_def [abs_def] conj_commute)
  also have "(\<Sum>p \<leftarrow> filter (\<lambda>p. ?c p > 0) (filter (\<lambda>p. \<not> IsOwnedByDaemonSet p) ps). max 0 (?c p)) =
      (\<Sum>p \<leftarrow> filter (\<lambda>p. \<not> IsOwnedByDaemonSet p) ps. max 0 (?c p))"
    by (rule sum_list_filter_zero) auto
  finally show ?thesis by (simp add: reschedule_cost_sum)
qed

text \<open>A node whose usage started empty and followed pods coming and going.\<close>

inductive follows_pods :: "'q::linordered_ab_group_add env \<Rightarrow> 'q state_node \<Rightarrow> pod list \<Rightarrow> bool" for E where
  start: "follows_pods E (NewNode \<lparr> snNode := nd, snNodeClaim := c \<rparr>) []"
| come: "follows_pods E n ps \<Longrightarrow> updateForPod E p n = Inr n' \<Longrightarrow>
     (\<And>q. q \<in> set ps \<Longrightarrow> podKey q = podKey p \<Longrightarrow> IsOwnedByDaemonSet q = IsOwnedByDaemonSet p) \<Longrightarrow>
     follows_pods E n' (putPod p ps)"
| go: "follows_pods E n ps \<Longrightarrow> follows_pods E (cleanupForPod key n) (dropPod key ps)"

lemma tracks_objects: "tracks E (n \<lparr> snNode := nd, snNodeClaim := c \<rparr>) ps = tracks E n ps"
  by (simp add: tracks_def usage_wf_def)

lemma follows_tracks: "follows_pods E n ps \<Longrightarrow> tracks E n ps"
proof (induction rule: follows_pods.induct)
  case (start nd c)
  show ?case unfolding tracks_objects by (rule tracks_NewNode)
next
  case (come n ps p n')
  then show ?case by (intro tracks_update) auto
next
  case (go n ps key)
  show ?case using go.IH by (rule tracks_cleanup)
qed

definition exampleKube :: kube where
  "exampleKube =
     \<lparr> getPVC = (\<lambda>_. Inl NotFound), getPV = (\<lambda>_. Inl NotFound), getStorageClassProvisioner = (\<lambda>_. Inl NotFound),
       csiNameFromInTreeName = (\<lambda>_. None) \<rparr>"

definition exampleEnv :: "int env" where
  "exampleEnv =
     \<lparr> kubeOf = exampleKube, parseIP = (\<lambda>_. None), ceilingRequests = (\<lambda>_. [(ResourceCPU, 2)]),
       ceilingLimits = (\<lambda>_. []), quantity = (\<lambda>i. i),
       matchTaint = (\<lambda>a b. taintKey a = taintKey b \<and> taintEffect a = taintEffect b),
       podDeletionCostManagement = False, BatchMaxDuration = 10 * 1000000000,
       listPodsOn = (\<lambda>_. Inr []), csiDrivers = (\<lambda>_. Inl NotFound) \<rparr>"

definition exampleNode :: "string \<Rightarrow> int node" where
  "exampleNode name =
     \<lparr> nodeMetaName = name, nodeLabels = [], nodeAnnotations = [], nodeDeletion = None, nodeProviderID = name,
       nodeTaints = [], nodeCapacity = [(ResourceCPU, 8)], nodeAllocatable = [(ResourceCPU, 8)],
       nodeHealth = \<lparr> hnCreated = 0, hnConditions = [] \<rparr> \<rparr>"

section \<open>Properties\<close>







end
