(* ===== verification/Cluster.thy ===== *)
theory Cluster
  imports StateNode NodePoolState "HOL-Library.Monad_Syntax"
begin

text \<open>
  \<^verbatim>\<open>pkg/controllers/state/cluster.go\<close>: the state of the cluster as the watches of nodes, node claims, pods and daemon
  sets keep it.

  Every operation holds the lock of the state for its whole body, so each is one function on the state. A panic (a nil
  dereference or a write to a nil map) is \<open>None\<close> and operations that can panic are written in the option monad. The
  time \<open>now\<close> is the reading of the clock during the operation. A \<^verbatim>\<open>sync.Map\<close> is a Go map. Metrics and log messages
  are left out; a state node is stored by value, since no operation modelled here keeps a pointer to one beyond its own body.
\<close>

section \<open>State\<close>

record 'q cluster =
  hasSynced :: bool
  nodes :: "(string, 'q state_node) gomap"
  bindings :: "(namespaced_name, string) gomap"
  nodeNameToProviderID :: "(string, string) gomap"
  nodeClaimNameToProviderID :: "(string, string) gomap"
  nodePoolResources :: "(string, 'q resource_list) gomap"
  daemonSetPods :: "(namespaced_name, pod) gomap"
  repairPolicyMatcher :: "repair_policy_matcher option"
  nodePoolState :: node_pool_state
  podAcks :: "(namespaced_name, int) gomap"
  podsSchedulingAttempted :: "(namespaced_name, int) gomap"
  podsSchedulableTimes :: "(namespaced_name, int) gomap"
  podHealthyNodePoolScheduledTime :: "(namespaced_name, int) gomap"
  podToNodeClaim :: "(namespaced_name, string) gomap"
  clusterState :: int
  unsyncedStartTime :: int
  lastUnsyncedLogTime :: int
  antiAffinityPods :: "(namespaced_name, pod) gomap"
  bufferPodCounts :: "(string, int) gomap"

definition NewCluster :: "repair_policy_matcher option \<Rightarrow> 'q cluster" where
  "NewCluster matcher =
     \<lparr> hasSynced = False, nodes = [], bindings = [], nodeNameToProviderID = [], nodeClaimNameToProviderID = [],
       nodePoolResources = [], daemonSetPods = [], repairPolicyMatcher = matcher, nodePoolState = NewNodePoolState,
       podAcks = [], podsSchedulingAttempted = [], podsSchedulableTimes = [], podHealthyNodePoolScheduledTime = [],
       podToNodeClaim = [], clusterState = zeroTime, unsyncedStartTime = zeroTime, lastUnsyncedLogTime = zeroTime,
       antiAffinityPods = [], bufferPodCounts = [] \<rparr>"

definition MarkUnconsolidated :: "int \<Rightarrow> 'q cluster \<Rightarrow> 'q cluster" where
  "MarkUnconsolidated now c = c \<lparr> clusterState := now \<rparr>"

definition ConsolidationState :: "int \<Rightarrow> 'q cluster \<Rightarrow> int \<times> 'q cluster" where
  "ConsolidationState now c =
     (if subTime now (clusterState c) < 5 * Minute then (clusterState c, c)
      else (now, MarkUnconsolidated now c))"

section \<open>Resources of the node pools\<close>

text \<open>The node pool and the resources that a state node contributes; a nil state node contributes nothing.\<close>

definition poolShare ::
  "'q env \<Rightarrow> 'q state_node option \<Rightarrow> (string \<times> 'q::linordered_ab_group_add resource_list) option" where
  "poolShare E node =
     (case node of
        None \<Rightarrow> Some ([], [])
      | Some n \<Rightarrow>
          if snNode n = None \<and> snNodeClaim n = None then Some ([], [])
          else do {
            labels \<leftarrow> snLabels n;
            capacity \<leftarrow> Capacity E n;
            let rs = (if MarkedForDeletion n then [] else capacity);
            Some (get_or [] labels NodePoolLabelKey,
                  if length rs \<noteq> 0 then AList.update NodeResource (quantity E 1) rs else rs)
          })"

text \<open>Writing a resource of a pool that has no entry is a write to a nil map.\<close>

definition changePool ::
  "(string \<times> 'q \<Rightarrow> 'q resource_list \<Rightarrow> 'q resource_list) \<Rightarrow> string \<Rightarrow> 'q resource_list \<Rightarrow>
   (string, 'q resource_list) gomap \<Rightarrow> (string, 'q resource_list) gomap option" where
  "changePool f name rs pools =
     (if name = [] \<or> rs = [] then Some pools
      else map_option (\<lambda>cur. AList.update name (fold f rs cur) pools) (map_of pools name))"

definition collectPool ::
  "string \<Rightarrow> (string, 'q::linordered_ab_group_add resource_list) gomap \<Rightarrow> (string, 'q resource_list) gomap" where
  "collectPool name pools =
     (if list_all (\<lambda>(_, v). v = 0) (get_or [] pools name) then AList.delete name pools else pools)"

definition movedResources ::
  "'q env \<Rightarrow> 'q state_node option \<Rightarrow> 'q state_node option \<Rightarrow>
   (string, 'q resource_list) gomap \<Rightarrow> (string, 'q::linordered_ab_group_add resource_list) gomap option" where
  "movedResources E oldNode newNode pools =
     do {
       (oldName, oldResources) \<leftarrow> poolShare E oldNode;
       (newName, newResources) \<leftarrow> poolShare E newNode;
       let pools0 = (if map_of pools newName = None \<and> newName \<noteq> [] then AList.update newName [] pools else pools);
       pools1 \<leftarrow> changePool subQuantity oldName oldResources pools0;
       pools2 \<leftarrow> changePool addQuantity newName newResources pools1;
       Some (collectPool newName (collectPool oldName pools2))
     }"

definition updateNodePoolResources ::
  "'q env \<Rightarrow> 'q state_node option \<Rightarrow> 'q state_node option \<Rightarrow> 'q cluster \<Rightarrow> 'q::linordered_ab_group_add cluster option" where
  "updateNodePoolResources E oldNode newNode c =
     map_option (\<lambda>pools. c \<lparr> nodePoolResources := pools \<rparr>) (movedResources E oldNode newNode (nodePoolResources c))"

definition triggerConsolidationOnChange ::
  "int \<Rightarrow> 'q state_node option \<Rightarrow> 'q state_node option \<Rightarrow> 'q cluster \<Rightarrow> 'q cluster" where
  "triggerConsolidationOnChange now oldNode newNode c =
     (case (oldNode, newNode) of
        (Some old, Some new) \<Rightarrow>
          if snNode old = None \<and> snNodeClaim old = None \<or> snNode new = None \<and> snNodeClaim new = None
          then MarkUnconsolidated now c
          else if Initialized old \<noteq> Initialized new then MarkUnconsolidated now c
          else if MarkedForDeletion old \<noteq> MarkedForDeletion new then MarkUnconsolidated now c
          else c
      | _ \<Rightarrow> MarkUnconsolidated now c)"

definition NodePoolResourcesFor :: "string \<Rightarrow> 'q cluster \<Rightarrow> 'q resource_list" where
  "NodePoolResourcesFor name c = get_or [] (nodePoolResources c) name"

section \<open>Node claims\<close>

definition cleanupNodeClaim ::
  "'q env \<Rightarrow> int \<Rightarrow> string \<Rightarrow> 'q cluster \<Rightarrow> 'q::linordered_ab_group_add cluster option" where
  "cleanupNodeClaim E now name c =
     do {
       let id = get_or [] (nodeClaimNameToProviderID c) name;
       c1 \<leftarrow> (if id \<noteq> [] then do {
                 n \<leftarrow> map_of (nodes c) id;
                 c' \<leftarrow> (if snNode n = None then do {
                           c' \<leftarrow> updateNodePoolResources E (Some n) None c;
                           Some (c' \<lparr> nodes := AList.delete id (nodes c') \<rparr>)
                         } else
                           let n' = n \<lparr> snNodeClaim := None \<rparr>
                           in updateNodePoolResources E (Some n) (Some n') (c \<lparr> nodes := AList.update id n' (nodes c) \<rparr>));
                 Some (MarkUnconsolidated now c')
               } else Some c);
       Some (c1 \<lparr> nodeClaimNameToProviderID := AList.delete name (nodeClaimNameToProviderID c1),
                  nodePoolState := Cleanup name (nodePoolState c1) \<rparr>)
     }"

text \<open>\<^verbatim>\<open>newStateFromNodeClaim\<close> does not carry over the disruption costs of the pods.\<close>

definition newStateFromNodeClaim ::
  "'q env \<Rightarrow> int \<Rightarrow> 'q node_claim \<Rightarrow> 'q state_node option \<Rightarrow> 'q cluster \<Rightarrow>
   ('q state_node \<times> 'q::linordered_ab_group_add cluster) option" where
  "newStateFromNodeClaim E now nodeClaim oldNode c =
     do {
       let old = (case oldNode of None \<Rightarrow> NewNode | Some old \<Rightarrow> old);
       let n = \<lparr> snNode = snNode old, snNodeClaim = Some nodeClaim, daemonSetRequests = daemonSetRequests old,
                 daemonSetLimits = daemonSetLimits old, podRequests = podRequests old, podLimits = podLimits old,
                 podDisruptionCosts = [], hostPortUsage = hostPortUsage old, volumeUsage = volumeUsage old,
                 markedForDeletion = markedForDeletion old, nominatedUntil = nominatedUntil old,
                 repairPolicyMatches = repairPolicyMatches old \<rparr>;
       c1 \<leftarrow> (case map_of (nodeClaimNameToProviderID c) (ncName nodeClaim) of
                 Some pid \<Rightarrow> if pid \<noteq> statusProviderID (ncStatus nodeClaim)
                            then cleanupNodeClaim E now (ncName nodeClaim) c else Some c
               | None \<Rightarrow> Some c);
       c2 \<leftarrow> updateNodePoolResources E (Some old) (Some n) c1;
       Some (n, triggerConsolidationOnChange now (Some old) (Some n) c2)
     }"

definition ClusterUpdateNodeClaim ::
  "'q env \<Rightarrow> int \<Rightarrow> 'q node_claim \<Rightarrow> 'q cluster \<Rightarrow> 'q::linordered_ab_group_add cluster option" where
  "ClusterUpdateNodeClaim E now nodeClaim c =
     do {
       let providerID = statusProviderID (ncStatus nodeClaim);
       c1 \<leftarrow> (if providerID \<noteq> [] then do {
                 (n, c') \<leftarrow> newStateFromNodeClaim E now nodeClaim (map_of (nodes c) providerID) c;
                 Some (c' \<lparr> nodes := AList.update providerID n (nodes c') \<rparr>)
               } else Some c);
       let markedForDel = (case map_of (nodes c1) providerID of None \<Rightarrow> False | Some n \<Rightarrow> MarkedForDeletion n);
       Some (c1 \<lparr> nodePoolState := UpdateNodeClaim (ncLabels nodeClaim) (ncName nodeClaim) markedForDel (nodePoolState c1),
                  nodeClaimNameToProviderID :=
                    AList.update (ncName nodeClaim) providerID (nodeClaimNameToProviderID c1) \<rparr>)
     }"

definition DeleteNodeClaim ::
  "'q env \<Rightarrow> int \<Rightarrow> string \<Rightarrow> 'q cluster \<Rightarrow> 'q::linordered_ab_group_add cluster option" where
  "DeleteNodeClaim E now name c = cleanupNodeClaim E now name c"

definition NodeClaimExists :: "string \<Rightarrow> 'q cluster \<Rightarrow> bool" where
  "NodeClaimExists name c \<longleftrightarrow> map_of (nodeClaimNameToProviderID c) name \<noteq> None"

definition UnlaunchedNodeClaimExists :: "string \<Rightarrow> 'q cluster \<Rightarrow> bool" where
  "UnlaunchedNodeClaimExists name c \<longleftrightarrow> map_of (nodeClaimNameToProviderID c) name = Some []"

section \<open>Pod bindings\<close>

definition cleanupOldBindings :: "int \<Rightarrow> pod \<Rightarrow> 'q cluster \<Rightarrow> 'q cluster" where
  "cleanupOldBindings now p c =
     (case map_of (bindings c) (podKey p) of
        Some oldNodeName \<Rightarrow>
          if oldNodeName = nodeName p then c
          else let id = get_or [] (nodeNameToProviderID c) oldNodeName
               in MarkUnconsolidated now
                    (case map_of (nodes c) id of
                       Some oldNode \<Rightarrow>
                         c \<lparr> nodes := AList.update id (cleanupForPod (podKey p) oldNode) (nodes c),
                             bindings := AList.delete (podKey p) (bindings c) \<rparr>
                     | None \<Rightarrow> c)
      | None \<Rightarrow> MarkUnconsolidated now c)"

definition bindPod :: "int \<Rightarrow> pod \<Rightarrow> 'q cluster \<Rightarrow> 'q cluster" where
  "bindPod now p c =
     (let c1 = cleanupOldBindings now p c
      in c1 \<lparr> bindings := AList.update (podKey p) (nodeName p) (bindings c1) \<rparr>)"

definition updateNodeUsageFromPodCompletion :: "namespaced_name \<Rightarrow> 'q cluster \<Rightarrow> 'q cluster" where
  "updateNodeUsageFromPodCompletion key c =
     (case map_of (bindings c) key of
        None \<Rightarrow> c
      | Some name \<Rightarrow>
          let c1 = c \<lparr> bindings := AList.delete key (bindings c) \<rparr>;
              id = get_or [] (nodeNameToProviderID c1) name
          in case map_of (nodes c1) id of
               None \<Rightarrow> c1
             | Some n \<Rightarrow> c1 \<lparr> nodes := AList.update id (cleanupForPod key n) (nodes c1) \<rparr>)"

definition updateNodeUsageFromPod ::
  "'q env \<Rightarrow> int \<Rightarrow> pod \<Rightarrow> 'q cluster \<Rightarrow> api_error option \<times> 'q::linordered_ab_group_add cluster" where
  "updateNodeUsageFromPod E now p c =
     (if nodeName p = [] then (None, c)
      else let id = get_or [] (nodeNameToProviderID c) (nodeName p)
           in case map_of (nodes c) id of
                None \<Rightarrow> (Some NotFound, c)
              | Some n \<Rightarrow>
                  (case updateForPod E p n of
                     Inl err \<Rightarrow> (Some err, c)
                   | Inr n' \<Rightarrow> (None, bindPod now p (c \<lparr> nodes := AList.update id n' (nodes c) \<rparr>))))"

definition updatePodAntiAffinities :: "pod \<Rightarrow> 'q cluster \<Rightarrow> 'q cluster" where
  "updatePodAntiAffinities p c =
     (if HasRequiredPodAntiAffinity p
      then c \<lparr> antiAffinityPods := AList.update (podKey p) p (antiAffinityPods c) \<rparr>
      else c \<lparr> antiAffinityPods := AList.delete (podKey p) (antiAffinityPods c) \<rparr>)"

definition UpdatePod ::
  "'q env \<Rightarrow> int \<Rightarrow> pod \<Rightarrow> 'q cluster \<Rightarrow> api_error option \<times> 'q::linordered_ab_group_add cluster" where
  "UpdatePod E now p c =
     (case (if IsTerminal p then (None, updateNodeUsageFromPodCompletion (podKey p) c)
            else updateNodeUsageFromPod E now p c) of
        (err, c1) \<Rightarrow> (err, updatePodAntiAffinities p c1))"

definition ClearPodSchedulingMappings :: "namespaced_name \<Rightarrow> 'q cluster \<Rightarrow> 'q cluster" where
  "ClearPodSchedulingMappings key c =
     c \<lparr> podAcks := AList.delete key (podAcks c),
         podsSchedulableTimes := AList.delete key (podsSchedulableTimes c),
         podsSchedulingAttempted := AList.delete key (podsSchedulingAttempted c),
         podHealthyNodePoolScheduledTime := AList.delete key (podHealthyNodePoolScheduledTime c),
         podToNodeClaim := AList.delete key (podToNodeClaim c) \<rparr>"

definition DeletePod :: "int \<Rightarrow> namespaced_name \<Rightarrow> 'q cluster \<Rightarrow> 'q cluster" where
  "DeletePod now key c =
     MarkUnconsolidated now
       (ClearPodSchedulingMappings key
         (updateNodeUsageFromPodCompletion key
           (c \<lparr> antiAffinityPods := AList.delete key (antiAffinityPods c) \<rparr>)))"

text \<open>The pods and nodes that \<^verbatim>\<open>ForPodsWithAntiAffinity\<close> passes to its callback, in order.\<close>

definition ForPodsWithAntiAffinity :: "'q cluster \<Rightarrow> (pod \<times> 'q node) list" where
  "ForPodsWithAntiAffinity c =
     List.map_filter (\<lambda>(_, p).
         do {
           name \<leftarrow> map_of (bindings c) (podKey p);
           n \<leftarrow> map_of (nodes c) (get_or [] (nodeNameToProviderID c) name);
           nd \<leftarrow> snNode n;
           Some (p, nd)
         })
       (antiAffinityPods c)"

section \<open>Nodes\<close>

definition cleanupNode ::
  "'q env \<Rightarrow> int \<Rightarrow> string \<Rightarrow> 'q cluster \<Rightarrow> 'q::linordered_ab_group_add cluster option" where
  "cleanupNode E now name c =
     do {
       let id = get_or [] (nodeNameToProviderID c) name;
       if id \<noteq> [] then do {
         n \<leftarrow> map_of (nodes c) id;
         c' \<leftarrow> (if snNodeClaim n = None then do {
                   c' \<leftarrow> updateNodePoolResources E (Some n) None c;
                   Some (c' \<lparr> nodes := AList.delete id (nodes c') \<rparr>)
                 } else
                   let n' = n \<lparr> snNode := None \<rparr>
                   in updateNodePoolResources E (Some n) (Some n') (c \<lparr> nodes := AList.update id n' (nodes c) \<rparr>));
         Some (MarkUnconsolidated now
                 (c' \<lparr> nodeNameToProviderID := AList.delete name (nodeNameToProviderID c') \<rparr>))
       } else Some c
     }"

definition matchRepairPolicies ::
  "repair_policy_matcher option \<Rightarrow> 'q node \<Rightarrow> 'q state_node \<Rightarrow> repair_policy_match list option" where
  "matchRepairPolicies matcher node oldNode =
     (case matcher of
        None \<Rightarrow> Some []
      | Some m \<Rightarrow>
          (case snNode oldNode of
             Some old \<Rightarrow> if MatchInputsEqual (nodeHealth old) (nodeHealth node)
                         then Some (repairPolicyMatches oldNode) else Match m (nodeHealth node)
           | None \<Rightarrow> Match m (nodeHealth node)))"

definition populateVolumeLimits :: "'q env \<Rightarrow> string \<Rightarrow> 'q state_node \<Rightarrow> api_error + 'q state_node" where
  "populateVolumeLimits E name n =
     (case csiDrivers E name of
        Inl NotFound \<Rightarrow> Inr n
      | Inl err \<Rightarrow> Inl err
      | Inr drivers \<Rightarrow>
          Inr (fold (\<lambda>(driver, count) n.
                 case count of
                   None \<Rightarrow> n \<lparr> volumeUsage := AddUnbounded driver (volumeUsage n) \<rparr>
                 | Some k \<Rightarrow> n \<lparr> volumeUsage := AddLimit driver k (volumeUsage n) \<rparr>) drivers n))"

fun populateLoop ::
  "'q env \<Rightarrow> int \<Rightarrow> pod list \<Rightarrow> 'q state_node \<Rightarrow> 'q cluster \<Rightarrow>
   api_error option \<times> 'q state_node \<times> 'q::linordered_ab_group_add cluster" where
  "populateLoop E now [] n c = (None, n, c)"
| "populateLoop E now (p # ps) n c =
     (if IsTerminal p then populateLoop E now ps n c
      else case updateForPod E p n of
             Inl err \<Rightarrow> (Some err, n, c)
           | Inr n' \<Rightarrow> populateLoop E now ps n' (bindPod now p c))"

definition populateResourceRequests ::
  "'q env \<Rightarrow> int \<Rightarrow> string \<Rightarrow> 'q state_node \<Rightarrow> 'q cluster \<Rightarrow>
   api_error option \<times> 'q state_node \<times> 'q::linordered_ab_group_add cluster" where
  "populateResourceRequests E now name n c =
     (case listPodsOn E name of
        Inl err \<Rightarrow> (Some err, n, c)
      | Inr ps \<Rightarrow> populateLoop E now ps n c)"

text \<open>Errors leave the bindings of the pods seen so far in place.\<close>

definition newStateFromNode ::
  "'q env \<Rightarrow> int \<Rightarrow> 'q node \<Rightarrow> 'q state_node option \<Rightarrow> 'q cluster \<Rightarrow>
   ((api_error list + 'q state_node) \<times> 'q::linordered_ab_group_add cluster) option" where
  "newStateFromNode E now node oldNode c =
     do {
       let old = (case oldNode of None \<Rightarrow> NewNode | Some old \<Rightarrow> old);
       matches \<leftarrow> matchRepairPolicies (repairPolicyMatcher c) node old;
       let n = NewNode \<lparr> snNode := Some node, snNodeClaim := snNodeClaim old, markedForDeletion := markedForDeletion old,
                         nominatedUntil := nominatedUntil old, repairPolicyMatches := matches \<rparr>;
       let (err, n1, c1) = populateResourceRequests E now (nodeMetaName node) n c;
       case (err, populateVolumeLimits E (nodeMetaName node) n1) of
         (Some e, Inl e') \<Rightarrow> Some (Inl [e, e'], c1)
       | (Some e, Inr _) \<Rightarrow> Some (Inl [e], c1)
       | (None, Inl e') \<Rightarrow> Some (Inl [e'], c1)
       | (None, Inr n2) \<Rightarrow> do {
           c2 \<leftarrow> (case map_of (nodeNameToProviderID c1) (nodeMetaName node) of
                     Some pid \<Rightarrow> if pid \<noteq> nodeProviderID node then cleanupNode E now (nodeMetaName node) c1 else Some c1
                   | None \<Rightarrow> Some c1);
           c3 \<leftarrow> updateNodePoolResources E (Some old) (Some n2) c2;
           Some (Inr n2, triggerConsolidationOnChange now (Some old) (Some n2) c3)
         }
     }"

definition UpdateNode ::
  "'q env \<Rightarrow> int \<Rightarrow> 'q node \<Rightarrow> 'q cluster \<Rightarrow> (api_error list \<times> 'q::linordered_ab_group_add cluster) option" where
  "UpdateNode E now node c =
     (let managed = (get_or [] (nodeLabels node) NodePoolLabelKey \<noteq> []);
          initialized = (get_or [] (nodeLabels node) NodeInitializedLabelKey \<noteq> [])
      in if nodeProviderID node = [] \<and> managed then Some ([], c)
         else let node' = (if nodeProviderID node = [] then node \<lparr> nodeProviderID := nodeMetaName node \<rparr> else node)
              in if managed \<and> get_or [] (nodeLabels node) LabelInstanceTypeStable = [] \<and> \<not> initialized then Some ([], c)
                 else do {
                   (res, c1) \<leftarrow> newStateFromNode E now node' (map_of (nodes c) (nodeProviderID node')) c;
                   case res of
                     Inl errs \<Rightarrow> Some (errs, c1)
                   | Inr n \<Rightarrow>
                       Some ([], c1 \<lparr> nodes := AList.update (nodeProviderID node') n (nodes c1),
                                      nodeNameToProviderID :=
                                        AList.update (nodeMetaName node') (nodeProviderID node') (nodeNameToProviderID c1) \<rparr>)
                 })"

definition DeleteNode ::
  "'q env \<Rightarrow> int \<Rightarrow> string \<Rightarrow> 'q cluster \<Rightarrow> 'q::linordered_ab_group_add cluster option" where
  "DeleteNode E now name c = cleanupNode E now name c"

section \<open>Marks and nominations\<close>

fun MarkForDeletion :: "'q env \<Rightarrow> string list \<Rightarrow> 'q cluster \<Rightarrow> 'q::linordered_ab_group_add cluster option" where
  "MarkForDeletion E [] c = Some c"
| "MarkForDeletion E (pid # ids) c =
     (case map_of (nodes c) pid of
        None \<Rightarrow> MarkForDeletion E ids c
      | Some oldNode \<Rightarrow> do {
          let n = oldNode \<lparr> markedForDeletion := True \<rparr>;
          c1 \<leftarrow> updateNodePoolResources E (Some oldNode) (Some n) (c \<lparr> nodes := AList.update pid n (nodes c) \<rparr>);
          MarkForDeletion E ids
            (case snNodeClaim n of
               None \<Rightarrow> c1
             | Some claim \<Rightarrow>
                 c1 \<lparr> nodePoolState :=
                        MarkNodeClaimDeleting (get_or [] (ncLabels claim) NodePoolLabelKey) (ncName claim) (nodePoolState c1) \<rparr>)
        })"

fun UnmarkForDeletion :: "'q env \<Rightarrow> string list \<Rightarrow> 'q cluster \<Rightarrow> 'q::linordered_ab_group_add cluster option" where
  "UnmarkForDeletion E [] c = Some c"
| "UnmarkForDeletion E (pid # ids) c =
     (case map_of (nodes c) pid of
        None \<Rightarrow> UnmarkForDeletion E ids c
      | Some oldNode \<Rightarrow> do {
          let n = oldNode \<lparr> markedForDeletion := False \<rparr>;
          c1 \<leftarrow> updateNodePoolResources E (Some oldNode) (Some n) (c \<lparr> nodes := AList.update pid n (nodes c) \<rparr>);
          UnmarkForDeletion E ids
            (case snNodeClaim n of
               None \<Rightarrow> c1
             | Some claim \<Rightarrow>
                 if ncDeletion claim = None
                 then c1 \<lparr> nodePoolState :=
                             MarkNodeClaimActive (get_or [] (ncLabels claim) NodePoolLabelKey) (ncName claim) (nodePoolState c1) \<rparr>
                 else c1)
        })"

definition IsNodeNominated :: "string \<Rightarrow> int \<Rightarrow> 'q cluster \<Rightarrow> bool" where
  "IsNodeNominated providerID now c =
     (case map_of (nodes c) providerID of None \<Rightarrow> False | Some n \<Rightarrow> Nominated n now)"

definition NominateNodeForPod :: "'q env \<Rightarrow> int \<Rightarrow> string \<Rightarrow> 'q cluster \<Rightarrow> 'q cluster" where
  "NominateNodeForPod E now providerID c =
     (case map_of (nodes c) providerID of
        None \<Rightarrow> c
      | Some n \<Rightarrow> c \<lparr> nodes := AList.update providerID (Nominate E now n) (nodes c) \<rparr>)"

definition UpdateBufferPodCounts :: "(string, int) gomap \<Rightarrow> 'q cluster \<Rightarrow> 'q cluster" where
  "UpdateBufferPodCounts counts c = c \<lparr> bufferPodCounts := counts \<rparr>"

definition BufferPodCount :: "string \<Rightarrow> 'q cluster \<Rightarrow> int" where
  "BufferPodCount providerID c = get_or 0 (bufferPodCounts c) providerID"

definition HasBufferPods :: "string \<Rightarrow> 'q cluster \<Rightarrow> bool" where
  "HasBufferPods providerID c \<longleftrightarrow> BufferPodCount providerID c > 0"

section \<open>Scheduling times\<close>

definition loadOrStore :: "'k \<Rightarrow> 'v \<Rightarrow> ('k, 'v) gomap \<Rightarrow> ('k, 'v) gomap" where
  "loadOrStore k v m = (if map_of m k = None then AList.update k v m else m)"

definition AckPods :: "int \<Rightarrow> pod list \<Rightarrow> 'q cluster \<Rightarrow> 'q cluster" where
  "AckPods now pods c = c \<lparr> podAcks := fold (\<lambda>p. loadOrStore (podKey p) now) pods (podAcks c) \<rparr>"

definition PodAckTime :: "namespaced_name \<Rightarrow> 'q cluster \<Rightarrow> int" where
  "PodAckTime key c = get_or zeroTime (podAcks c) key"

definition PodSchedulingDecisionTime :: "namespaced_name \<Rightarrow> 'q cluster \<Rightarrow> int" where
  "PodSchedulingDecisionTime key c = get_or zeroTime (podsSchedulingAttempted c) key"

definition PodSchedulingSuccessTime :: "namespaced_name \<Rightarrow> 'q cluster \<Rightarrow> int" where
  "PodSchedulingSuccessTime key c = get_or zeroTime (podsSchedulableTimes c) key"

definition PodSchedulingSuccessTimeRegistrationHealthyCheck :: "namespaced_name \<Rightarrow> 'q cluster \<Rightarrow> int" where
  "PodSchedulingSuccessTimeRegistrationHealthyCheck key c = get_or zeroTime (podHealthyNodePoolScheduledTime c) key"

definition PodNodeClaimMapping :: "namespaced_name \<Rightarrow> 'q cluster \<Rightarrow> string" where
  "PodNodeClaimMapping key c = get_or [] (podToNodeClaim c) key"

definition PodsMappedToNodeClaim :: "string \<Rightarrow> 'q cluster \<Rightarrow> namespaced_name list" where
  "PodsMappedToNodeClaim name c = map fst (filter (\<lambda>(_, v). v = name) (podToNodeClaim c))"

definition UpdatePodToNodeClaimMapping :: "(string, pod list) gomap \<Rightarrow> 'q cluster \<Rightarrow> 'q cluster" where
  "UpdatePodToNodeClaimMapping ncPods c =
     c \<lparr> podToNodeClaim :=
           fold (\<lambda>(name, pods) m. fold (\<lambda>p. AList.update (podKey p) name) pods m) ncPods (podToNodeClaim c) \<rparr>"

definition markFailed :: "int \<Rightarrow> pod \<Rightarrow> 'q cluster \<Rightarrow> 'q cluster" where
  "markFailed now p c =
     c \<lparr> podsSchedulableTimes := AList.delete (podKey p) (podsSchedulableTimes c),
         podsSchedulingAttempted := loadOrStore (podKey p) now (podsSchedulingAttempted c),
         podHealthyNodePoolScheduledTime := AList.delete (podKey p) (podHealthyNodePoolScheduledTime c),
         podToNodeClaim := AList.delete (podKey p) (podToNodeClaim c) \<rparr>"

definition markSchedulable :: "int \<Rightarrow> bool \<Rightarrow> pod \<Rightarrow> 'q cluster \<Rightarrow> 'q cluster" where
  "markSchedulable now healthy p c =
     (if IsScheduled p then c
      else c \<lparr> podsSchedulableTimes := loadOrStore (podKey p) now (podsSchedulableTimes c),
               podsSchedulingAttempted := loadOrStore (podKey p) now (podsSchedulingAttempted c),
               podHealthyNodePoolScheduledTime :=
                 (if healthy then loadOrStore (podKey p) now (podHealthyNodePoolScheduledTime c)
                  else AList.delete (podKey p) (podHealthyNodePoolScheduledTime c)) \<rparr>)"

text \<open>\<open>conditionsOf\<close> reads the conditions of a node pool from the API server, none when the read fails.\<close>

definition MarkPodSchedulingDecisions ::
  "(string \<Rightarrow> status_condition list) \<Rightarrow> int \<Rightarrow> pod list \<Rightarrow> (string, pod list) gomap \<Rightarrow> (string, pod list) gomap \<Rightarrow>
   'q cluster \<Rightarrow> 'q cluster" where
  "MarkPodSchedulingDecisions conditionsOf now podErrors npPods ncPods c =
     (let c1 = fold (markFailed now) podErrors c;
          c2 = fold (\<lambda>(nodePoolName, pods).
                 let healthy = (nodePoolName \<noteq> [] \<and>
                       conditionIsTrue (getCondition ConditionTypeNodeRegistrationHealthy (conditionsOf nodePoolName)))
                 in fold (markSchedulable now healthy) pods) npPods c1
      in UpdatePodToNodeClaimMapping ncPods c2)"

section \<open>Synchronisation\<close>

text \<open>The times that the deferred function of \<^verbatim>\<open>Synced\<close> keeps.\<close>

definition recordSynced :: "int \<Rightarrow> bool \<Rightarrow> 'q cluster \<Rightarrow> 'q cluster" where
  "recordSynced now synced c =
     (if synced then c \<lparr> unsyncedStartTime := zeroTime, lastUnsyncedLogTime := zeroTime \<rparr>
      else let c1 = (if unsyncedStartTime c = zeroTime then c \<lparr> unsyncedStartTime := now \<rparr> else c)
           in if subTime now (unsyncedStartTime c1) > 30 * 1000000000 \<and> subTime now (lastUnsyncedLogTime c1) > 10 * 1000000000
              then c1 \<lparr> lastUnsyncedLogTime := now \<rparr> else c1)"

text \<open>\<open>listedClaims\<close> and \<open>listedNodes\<close> are the names that the API server lists, \<open>None\<close> when a list fails.\<close>

definition checkSynced :: "string list option \<Rightarrow> string list option \<Rightarrow> 'q cluster \<Rightarrow> bool \<times> 'q cluster" where
  "checkSynced listedClaims listedNodes c =
     (let launched = list_all (\<lambda>(_, providerID). providerID \<noteq> []) (nodeClaimNameToProviderID c)
      in if hasSynced c then (launched, c)
         else case (listedClaims, listedNodes) of
                (Some claimNames, Some nodeNames) \<Rightarrow>
                  if \<not> launched then (False, c)
                  else let synced = (set claimNames \<subseteq> set (map fst (nodeClaimNameToProviderID c)) \<and>
                                     set nodeNames \<subseteq> set (map fst (nodeNameToProviderID c)))
                       in (synced, if synced then c \<lparr> hasSynced := True \<rparr> else c)
              | _ \<Rightarrow> (False, c))"

definition Synced :: "int \<Rightarrow> string list option \<Rightarrow> string list option \<Rightarrow> 'q cluster \<Rightarrow> bool \<times> 'q cluster" where
  "Synced now listedClaims listedNodes c =
     (case checkSynced listedClaims listedNodes c of (synced, c1) \<Rightarrow> (synced, recordSynced now synced c1))"

definition SetSynced :: "bool \<Rightarrow> 'q cluster \<Rightarrow> 'q cluster" where
  "SetSynced s c = c \<lparr> hasSynced := s \<rparr>"

definition ResetCluster :: "'q cluster \<Rightarrow> 'q cluster" where
  "ResetCluster c =
     c \<lparr> clusterState := zeroTime, unsyncedStartTime := zeroTime, lastUnsyncedLogTime := zeroTime, hasSynced := False,
         nodes := [], nodeNameToProviderID := [], nodeClaimNameToProviderID := [],
         nodePoolState := ResetNodePoolState (nodePoolState c), nodePoolResources := [], bindings := [],
         antiAffinityPods := [], daemonSetPods := [], podAcks := [], podsSchedulingAttempted := [],
         podsSchedulableTimes := [], podToNodeClaim := [], bufferPodCounts := [] \<rparr>"

section \<open>Daemon sets\<close>

definition controlledByUID :: "string \<Rightarrow> pod \<Rightarrow> bool" where
  "controlledByUID uid p =
     (case find (\<lambda>r. orController r = Some True) (podOwners p) of None \<Rightarrow> False | Some r \<Rightarrow> orUID r = uid)"

definition newestControlled :: "string \<Rightarrow> pod list \<Rightarrow> pod option" where
  "newestControlled uid pods =
     fold (\<lambda>p best. if controlledByUID uid p \<and> (case best of None \<Rightarrow> True | Some b \<Rightarrow> podCreation p > podCreation b)
                    then Some p else best) pods None"

definition UpdateDaemonSet ::
  "namespaced_name \<Rightarrow> string \<Rightarrow> api_error + pod list \<Rightarrow> 'q cluster \<Rightarrow> api_error option \<times> 'q cluster" where
  "UpdateDaemonSet key uid listed c =
     (case listed of
        Inl err \<Rightarrow> (Some err, c)
      | Inr pods \<Rightarrow>
          (case newestControlled uid pods of
             None \<Rightarrow> (None, c)
           | Some p \<Rightarrow> (None, c \<lparr> daemonSetPods := AList.update key p (daemonSetPods c) \<rparr>)))"

definition GetDaemonSetPod :: "namespaced_name \<Rightarrow> 'q cluster \<Rightarrow> pod option" where
  "GetDaemonSetPod key c = map_of (daemonSetPods c) key"

definition DeleteDaemonSet :: "namespaced_name \<Rightarrow> 'q cluster \<Rightarrow> 'q cluster" where
  "DeleteDaemonSet key c = c \<lparr> daemonSetPods := AList.delete key (daemonSetPods c) \<rparr>"

end
