(* ===== verification/ClusterInvariants.thy ===== *)
theory ClusterInvariants
  imports Cluster
begin

text \<open>
  The invariants of the cluster state: the name indexes and the stored nodes agree, the resources of every node pool are
  the sum over its nodes, and a bound pod is counted on the node it is bound to. They hold in every state that events of
  the watches produce as long as provider identifiers are unique.
\<close>

section \<open>Objects found by name\<close>

text \<open>\<open>indexed obj name M I\<close>: the index \<open>I\<close> maps the name of every object stored in an entry of \<open>M\<close> to the identifier
  of the entry, and nothing else to an identifier.\<close>

definition indexed ::
  "('n \<Rightarrow> 'x option) \<Rightarrow> ('x \<Rightarrow> string) \<Rightarrow> (string \<rightharpoonup> 'n) \<Rightarrow> (string \<rightharpoonup> string) \<Rightarrow> bool" where
  "indexed obj name M I \<longleftrightarrow> M [] = None \<and>
     (\<forall>nm pid. I nm = Some pid \<and> pid \<noteq> [] \<longrightarrow> (\<exists>n x. M pid = Some n \<and> obj n = Some x \<and> name x = nm)) \<and>
     (\<forall>pid n x. M pid = Some n \<and> obj n = Some x \<longrightarrow> I (name x) = Some pid)"

locale object_index =
  fixes obj :: "'n \<Rightarrow> 'x option" and name :: "'x \<Rightarrow> string" and clear :: "'n \<Rightarrow> 'n"
  assumes obj_clear: "obj (clear n) = None"
begin

lemma indexedI:
  assumes "M [] = None"
    and "\<And>nm pid. I nm = Some pid \<Longrightarrow> pid \<noteq> [] \<Longrightarrow> \<exists>n x. M pid = Some n \<and> obj n = Some x \<and> name x = nm"
    and "\<And>pid n x. M pid = Some n \<Longrightarrow> obj n = Some x \<Longrightarrow> I (name x) = Some pid"
  shows "indexed obj name M I"
  using assms unfolding indexed_def by blast

lemma indexed_empty: "indexed obj name M I \<Longrightarrow> M [] = None"
  by (simp add: indexed_def)

lemma indexed_find:
  assumes "indexed obj name M I" "I nm = Some pid" "pid \<noteq> []"
  obtains n x where "M pid = Some n" "obj n = Some x" "name x = nm"
  using assms unfolding indexed_def by blast

lemma indexed_name: "indexed obj name M I \<Longrightarrow> M pid = Some n \<Longrightarrow> obj n = Some x \<Longrightarrow> I (name x) = Some pid"
  unfolding indexed_def by blast

lemma indexed_only:
  assumes "indexed obj name M I" "M pid = Some n" "obj n = Some x" "I nm = Some pid" "pid \<noteq> []"
  shows "nm = name x"
  using indexed_find [OF assms(1,4,5)] assms(2,3) by (metis option.inject)

lemma indexed_iff:
  assumes ix: "indexed obj name M I" and pid: "pid \<noteq> []"
  shows "I nm = Some pid \<longleftrightarrow> (\<exists>n x. M pid = Some n \<and> obj n = Some x \<and> name x = nm)"
proof
  assume "I nm = Some pid"
  then show "\<exists>n x. M pid = Some n \<and> obj n = Some x \<and> name x = nm"
    using ix pid unfolding indexed_def by simp
next
  assume "\<exists>n x. M pid = Some n \<and> obj n = Some x \<and> name x = nm"
  then show "I nm = Some pid" using indexed_name [OF ix] by auto
qed

lemma indexed_drop:
  assumes ix: "indexed obj name M I" and pid: "I nm = Some pid" "pid \<noteq> []" and n: "M pid = Some n"
    and r: "r = None \<or> r = Some (clear n)"
  shows "indexed obj name (M(pid := r)) (I(nm := None))"
proof (rule indexedI)
  show "(M(pid := r)) [] = None" using indexed_empty [OF ix] pid(2) by simp
next
  fix m q assume m: "(I(nm := None)) m = Some q" and q: "q \<noteq> []"
  then have mn: "m \<noteq> nm" and im: "I m = Some q" by (auto split: if_splits)
  obtain n' x where n': "M q = Some n'" "obj n' = Some x" "name x = m" using ix im q by (rule indexed_find)
  have "q \<noteq> pid"
  proof
    assume "q = pid"
    then have "nm = name x" using indexed_only [OF ix n'(1,2)] pid q by simp
    then show False using n'(3) mn by simp
  qed
  then show "\<exists>n x. (M(pid := r)) q = Some n \<and> obj n = Some x \<and> name x = m" using n' by auto
next
  fix q n' x assume q: "(M(pid := r)) q = Some n'" and x: "obj n' = Some x"
  then have "q \<noteq> pid" using r obj_clear by (auto split: if_splits)
  then have "M q = Some n'" using q by simp
  then have ix': "I (name x) = Some q" using ix x by (intro indexed_name)
  then show "(I(nm := None)) (name x) = Some q" using pid(1) \<open>q \<noteq> pid\<close> by auto
qed

lemma indexed_forget:
  assumes ix: "indexed obj name M I" and nm: "I nm = None \<or> I nm = Some []" and v: "v = None \<or> v = Some []"
  shows "indexed obj name M (I(nm := v))"
proof (rule indexedI)
  show "M [] = None" using ix by (rule indexed_empty)
next
  fix m q assume "(I(nm := v)) m = Some q" "q \<noteq> []"
  then have "I m = Some q" using v by (auto split: if_splits)
  then show "\<exists>n x. M q = Some n \<and> obj n = Some x \<and> name x = m"
    using \<open>q \<noteq> []\<close> indexed_find [OF ix] by metis
next
  fix q n x assume n: "M q = Some n" "obj n = Some x"
  then have i: "I (name x) = Some q" using ix by (intro indexed_name)
  have "q \<noteq> []" using indexed_empty [OF ix] n(1) by auto
  then have "name x \<noteq> nm" using i nm by auto
  then show "(I(nm := v)) (name x) = Some q" using i by simp
qed

lemma indexed_put:
  assumes ix: "indexed obj name M I" and pid: "pid \<noteq> []" and n: "obj n = Some x"
    and old: "I (name x) = None \<or> I (name x) = Some [] \<or> I (name x) = Some pid"
    and own: "\<And>m. I m = Some pid \<Longrightarrow> m = name x"
  shows "indexed obj name (M(pid \<mapsto> n)) (I(name x \<mapsto> pid))"
proof (rule indexedI)
  show "(M(pid \<mapsto> n)) [] = None" using indexed_empty [OF ix] pid by simp
next
  fix m q assume m: "(I(name x \<mapsto> pid)) m = Some q" and q: "q \<noteq> []"
  show "\<exists>n' x'. (M(pid \<mapsto> n)) q = Some n' \<and> obj n' = Some x' \<and> name x' = m"
  proof (cases "q = pid")
    case True
    then have "m = name x" using m own by (auto split: if_splits)
    then show ?thesis using True n by auto
  next
    case False
    then have "I m = Some q" using m by (auto split: if_splits)
    then show ?thesis using False q indexed_find [OF ix] by (metis fun_upd_apply)
  qed
next
  fix q n' x' assume q: "(M(pid \<mapsto> n)) q = Some n'" and x': "obj n' = Some x'"
  show "(I(name x \<mapsto> pid)) (name x') = Some q"
  proof (cases "q = pid")
    case True then show ?thesis using q x' n by auto
  next
    case False
    then have i: "I (name x') = Some q" using q x' indexed_name [OF ix] by auto
    moreover have "q \<noteq> []" using q False indexed_empty [OF ix] by auto
    ultimately have "name x' \<noteq> name x" using old False by auto
    then show ?thesis using i by simp
  qed
qed

text \<open>A change of an entry that keeps its object, and the removal of an entry without one.\<close>

lemma indexed_frame:
  assumes ix: "indexed obj name M I" and pid: "pid \<noteq> []" and n: "\<And>x. obj n' = Some x \<longleftrightarrow> (\<exists>n. M pid = Some n \<and> obj n = Some x)"
  shows "indexed obj name (M(pid \<mapsto> n')) I"
proof (rule indexedI)
  show "(M(pid \<mapsto> n')) [] = None" using indexed_empty [OF ix] pid by simp
next
  fix m q assume i: "I m = Some q" "q \<noteq> []"
  obtain n0 x where x: "M q = Some n0" "obj n0 = Some x" "name x = m" using ix i by (rule indexed_find)
  show "\<exists>n x. (M(pid \<mapsto> n')) q = Some n \<and> obj n = Some x \<and> name x = m"
    using x n [of x] by (cases "q = pid") auto
next
  fix q n0 x assume q: "(M(pid \<mapsto> n')) q = Some n0" and x: "obj n0 = Some x"
  show "I (name x) = Some q"
  proof (cases "q = pid")
    case True
    then obtain n1 where "M pid = Some n1" "obj n1 = Some x" using q x n [of x] by auto
    then show ?thesis using indexed_name [OF ix] True by auto
  next
    case False
    then show ?thesis using q x indexed_name [OF ix] by auto
  qed
qed

lemma indexed_delete:
  assumes ix: "indexed obj name M I" and n: "M pid = Some n" "obj n = None"
  shows "indexed obj name (M(pid := None)) I"
proof (rule indexedI)
  show "(M(pid := None)) [] = None" using indexed_empty [OF ix] by simp
next
  fix m q assume i: "I m = Some q" "q \<noteq> []"
  obtain n0 x where x: "M q = Some n0" "obj n0 = Some x" "name x = m" using ix i by (rule indexed_find)
  then have "q \<noteq> pid" using n by auto
  then show "\<exists>n x. (M(pid := None)) q = Some n \<and> obj n = Some x \<and> name x = m" using x by auto
next
  fix q n0 x assume "(M(pid := None)) q = Some n0" "obj n0 = Some x"
  then show "I (name x) = Some q" using indexed_name [OF ix] by (auto split: if_splits)
qed

end

interpretation nodeIx: object_index snNode nodeMetaName "\<lambda>n. n \<lparr> snNode := None \<rparr>"
  by unfold_locales simp

interpretation claimIx: object_index snNodeClaim ncName "\<lambda>n. n \<lparr> snNodeClaim := None \<rparr>"
  by unfold_locales simp

section \<open>Sums over a Go map\<close>

definition setEntry :: "'k \<Rightarrow> 'v option \<Rightarrow> ('k, 'v) gomap \<Rightarrow> ('k, 'v) gomap" where
  "setEntry k x m = (case x of None \<Rightarrow> AList.delete k m | Some v \<Rightarrow> AList.update k v m)"

lemma map_of_setEntry: "map_of (setEntry k x m) = (map_of m)(k := x)"
  by (cases x) (auto simp: setEntry_def gomap_simps fun_eq_iff)

lemma setEntry_wf: "gomap_wf m \<Longrightarrow> gomap_wf (setEntry k x m)"
  by (cases x) (simp_all add: setEntry_def)

lemma delete_absent: "k \<notin> fst ` set m \<Longrightarrow> AList.delete k m = m"
  by (induction m) (auto simp: AList.delete_eq)

lemma sum_setEntry:
  fixes f :: "'v \<Rightarrow> 'b::ab_group_add"
  assumes "gomap_wf m"
  shows "(\<Sum>(_, v) \<leftarrow> setEntry k x m. f v) =
    (\<Sum>(_, v) \<leftarrow> m. f v) - (case map_of m k of None \<Rightarrow> 0 | Some v \<Rightarrow> f v) + (case x of None \<Rightarrow> 0 | Some v \<Rightarrow> f v)"
  using assms
proof (induction m)
  case Nil
  then show ?case by (cases x) (simp_all add: setEntry_def)
next
  case (Cons a m)
  obtain k' v where a: "a = (k', v)" by (cases a)
  have wf: "gomap_wf m" "k' \<notin> fst ` set m" using Cons.prems by (simp_all add: a gomap_wf_Cons)
  have IH: "(\<Sum>(_, v) \<leftarrow> setEntry k x m. f v) =
    (\<Sum>(_, v) \<leftarrow> m. f v) - (case map_of m k of None \<Rightarrow> 0 | Some v \<Rightarrow> f v) + (case x of None \<Rightarrow> 0 | Some v \<Rightarrow> f v)"
    using Cons.IH wf(1) .
  show ?case
  proof (cases "k' = k")
    case True
    then show ?thesis using wf(2) by (cases x) (simp_all add: a setEntry_def delete_absent)
  next
    case False
    then have "setEntry k x (a # m) = (k', v) # setEntry k x m"
      by (cases x) (simp_all add: a setEntry_def)
    then show ?thesis using IH False by (simp add: a algebra_simps)
  qed
qed

section \<open>Resources of the node pools\<close>

text \<open>The pool and the resources of a state node, and its contribution to a pool.\<close>

definition share :: "'q env \<Rightarrow> 'q state_node option \<Rightarrow> string \<times> 'q::linordered_ab_group_add resource_list" where
  "share E n = the (poolShare E n)"

definition contribution :: "'q env \<Rightarrow> string \<Rightarrow> string \<Rightarrow> 'q state_node option \<Rightarrow> 'q::linordered_ab_group_add" where
  "contribution E pool r n = (if fst (share E n) = pool then qty (snd (share E n)) r else 0)"

definition poolSum :: "'q env \<Rightarrow> (string, 'q state_node) gomap \<Rightarrow> string \<Rightarrow> string \<Rightarrow> 'q::linordered_ab_group_add" where
  "poolSum E m pool r = (\<Sum>(_, n) \<leftarrow> m. contribution E pool r (Some n))"

definition allZero :: "'q::linordered_ab_group_add resource_list \<Rightarrow> bool" where
  "allZero rs \<longleftrightarrow> list_all (\<lambda>(_, v). v = 0) rs"

definition resources_ok ::
  "'q env \<Rightarrow> (string, 'q state_node) gomap \<Rightarrow> (string, 'q::linordered_ab_group_add resource_list) gomap \<Rightarrow> bool" where
  "resources_ok E m pools \<longleftrightarrow> gomap_wf pools \<and>
     (\<forall>pool rs. map_of pools pool = Some rs \<longrightarrow> pool \<noteq> [] \<and> gomap_wf rs \<and> \<not> allZero rs) \<and>
     (\<forall>pool r. pool \<noteq> [] \<longrightarrow> qty (get_or [] pools pool) r = poolSum E m pool r)"

lemma poolShare_Some: "poolShare E n = Some (share E n)"
proof (cases n)
  case (Some x)
  have "poolShare E (Some x) \<noteq> None"
    using represented_present [of ncLabels nodeLabels x] Capacity_present [of E x]
    by (auto simp: poolShare_def snLabels_def present_def Let_def)
  then show ?thesis by (simp add: share_def Some)
qed (simp add: share_def poolShare_def)

lemma share_None: "share E None = ([], [])"
  by (simp add: share_def poolShare_def)

lemma share_absent: "\<not> present n \<Longrightarrow> share E (Some n) = ([], [])"
  by (simp add: share_def poolShare_def present_def)

text \<open>Only the objects of a state node and its deletion mark matter to its share.\<close>

lemma share_cong:
  assumes "snNode n = snNode n'" "snNodeClaim n = snNodeClaim n'" "markedForDeletion n = markedForDeletion n'"
  shows "share E (Some n) = share E (Some n')"
proof -
  have "Registered n = Registered n'" "Initialized n = Initialized n'" "MarkedForDeletion n = MarkedForDeletion n'"
    unfolding Registered_def Initialized_def Managed_def nodeLabelIs_def MarkedForDeletion_def Deleted_def
    by (simp_all only: assms)
  then show ?thesis
    unfolding share_def poolShare_def snLabels_def represented_def Capacity_def using assms by (simp only: option.case)
qed

lemma share_counts_node:
  assumes "snd (share E n) \<noteq> []"
  shows "qty (snd (share E n)) NodeResource = quantity E 1"
proof -
  have "qty (snd s) NodeResource = quantity E 1" if "poolShare E n = Some s" "snd s \<noteq> []" for s
    using that by (auto simp: poolShare_def Let_def gomap_simps split: option.splits bind_split_asm if_splits)
  then show ?thesis using poolShare_Some [of E n] assms by simp
qed

lemma contribution_None [simp]: "contribution E pool r None = 0"
  by (simp add: contribution_def share_None gomap_simps)

lemma contribution_node:
  "contribution E pool NodeResource n = 0 \<or> contribution E pool NodeResource n = quantity E 1"
  using share_counts_node [of E n] by (cases "snd (share E n) = []") (auto simp: contribution_def gomap_simps)

lemma poolSum_setEntry:
  "gomap_wf m \<Longrightarrow> poolSum E (setEntry pid x m) pool r =
     poolSum E m pool r - contribution E pool r (map_of m pid) + contribution E pool r x"
  unfolding poolSum_def using sum_setEntry [of m "\<lambda>n. contribution E pool r (Some n)" pid x]
  by (auto split: option.splits)

text \<open>A pool with an active node counts it.\<close>

lemma poolSum_positive:
  assumes one: "0 < quantity E 1" and n: "(pid, n) \<in> set m" and pool: "fst (share E (Some n)) = pool"
    and rs: "snd (share E (Some n)) \<noteq> []"
  shows "0 < poolSum E m pool NodeResource"
proof -
  have nonneg: "0 \<le> contribution E pool NodeResource (Some n)" for n
    using contribution_node [of E pool "Some n"] one by (auto simp: less_imp_le)
  have "contribution E pool NodeResource (Some n) = quantity E 1"
    using share_counts_node [OF rs] pool by (simp add: contribution_def)
  moreover have "contribution E pool NodeResource (Some n) \<le> poolSum E m pool NodeResource"
    unfolding poolSum_def using n
  proof (induction m)
    case (Cons a m)
    have rest: "0 \<le> (\<Sum>(_, n) \<leftarrow> m. contribution E pool NodeResource (Some n))"
      by (rule sum_list_nonneg) (auto simp: nonneg)
    show ?case
    proof (cases "a = (pid, n)")
      case True then show ?thesis using rest by simp
    next
      case False
      then have "contribution E pool NodeResource (Some n) \<le> (\<Sum>(_, n) \<leftarrow> m. contribution E pool NodeResource (Some n))"
        using Cons by simp
      then show ?thesis using nonneg [of "snd a"] by (cases a) (simp add: add_increasing)
    qed
  qed simp
  ultimately show ?thesis using one by simp
qed

lemma poolSum_active:
  assumes "poolSum E m pool r \<noteq> 0"
  obtains pid n where "(pid, n) \<in> set m" "fst (share E (Some n)) = pool" "snd (share E (Some n)) \<noteq> []"
proof -
  have "\<exists>pid n. (pid, n) \<in> set m \<and> contribution E pool r (Some n) \<noteq> 0"
  proof (rule ccontr)
    assume "\<not> ?thesis"
    then have "contribution E pool r (Some (snd a)) = 0" if "a \<in> set m" for a
      using that by (metis prod.collapse)
    then have "map (\<lambda>(_, n). contribution E pool r (Some n)) m = map (\<lambda>_. 0) m"
      by (simp add: case_prod_unfold)
    then have "poolSum E m pool r = (\<Sum>_ \<leftarrow> m. 0)" unfolding poolSum_def by (simp only:)
    then show False using assms by simp
  qed
  then obtain pid n where n: "(pid, n) \<in> set m" "contribution E pool r (Some n) \<noteq> 0" by blast
  show ?thesis
    by (rule that [OF n(1)]) (use n(2) in \<open>auto simp: contribution_def gomap_simps split: if_splits\<close>)
qed

section \<open>Moving resources between pools\<close>

lemma allZero_qty: "allZero rs \<Longrightarrow> qty rs r = 0"
  by (induction rs) (auto simp: allZero_def get_or_def split: option.splits)

lemma qty_collectPool: "qty (get_or [] (collectPool name pools) pool) r = qty (get_or [] pools pool) r"
  using allZero_qty [of "get_or [] pools name" r]
  by (auto simp: collectPool_def allZero_def gomap_simps)

lemma map_of_collectPool:
  "map_of (collectPool name pools) pool = Some rs \<Longrightarrow> map_of pools pool = Some rs \<and> (pool = name \<longrightarrow> \<not> allZero rs)"
  by (auto simp: collectPool_def allZero_def gomap_simps get_or_def split: if_splits)

lemma collectPool_wf: "gomap_wf pools \<Longrightarrow> gomap_wf (collectPool name pools)"
  by (simp add: collectPool_def)

definition wf_pools :: "(string, 'q resource_list) gomap \<Rightarrow> bool" where
  "wf_pools pools \<longleftrightarrow> gomap_wf pools \<and> (\<forall>pool rs. map_of pools pool = Some rs \<longrightarrow> gomap_wf rs)"

text \<open>Adding or subtracting resources pointwise.\<close>

locale resource_change =
  fixes change :: "string \<times> 'q \<Rightarrow> 'q::linordered_ab_group_add resource_list \<Rightarrow> 'q resource_list"
    and delta :: "'q \<Rightarrow> 'q"
  assumes change_wf: "gomap_wf r \<Longrightarrow> gomap_wf (fold change xs r)"
    and qty_change: "gomap_wf xs \<Longrightarrow> qty (fold change xs r) k = qty r k + delta (qty xs k)"
    and delta_zero: "delta 0 = 0"
begin

lemma changePool_ok:
  assumes pools: "wf_pools pools" and rs: "gomap_wf rs"
    and entry: "name = [] \<or> rs = [] \<or> map_of pools name \<noteq> None"
  shows "\<exists>pools'. changePool change name rs pools = Some pools' \<and> wf_pools pools' \<and>
      (\<forall>pool. map_of pools' pool = None \<longleftrightarrow> map_of pools pool = None) \<and>
      (\<forall>pool. pool \<noteq> name \<longrightarrow> map_of pools' pool = map_of pools pool) \<and>
      (\<forall>pool k. pool \<noteq> [] \<longrightarrow> qty (get_or [] pools' pool) k =
         qty (get_or [] pools pool) k + delta (if pool = name then qty rs k else 0))"
proof (cases "name = [] \<or> rs = []")
  case True
  then have "changePool change name rs pools = Some pools" by (simp add: changePool_def)
  then show ?thesis using pools True by (auto simp: delta_zero gomap_simps)
next
  case False
  then obtain cur where cur: "map_of pools name = Some cur" using entry by auto
  then have ch: "changePool change name rs pools = Some (AList.update name (fold change rs cur) pools)"
    using False by (simp add: changePool_def)
  have "gomap_wf cur" using pools cur by (auto simp: wf_pools_def)
  then show ?thesis
    using pools cur change_wf [of cur rs] qty_change [OF rs, of cur]
    by (auto simp: ch wf_pools_def gomap_simps delta_zero get_or_def [of "[]"] split: if_splits)
qed

end

interpretation added: resource_change addQuantity "\<lambda>q. q"
  by unfold_locales (simp_all add: fold_addQuantity_wf qty_fold_add)

interpretation subtracted: resource_change subQuantity uminus
  by unfold_locales (simp_all add: fold_subQuantity_wf qty_fold_sub)

lemma resources_step:
  assumes ok: "resources_ok E m pools" and m: "gomap_wf m" and one: "0 < quantity E 1"
    and old: "share E oldNode = share E (map_of m pid)"
    and wf: "gomap_wf (snd (share E oldNode))" "gomap_wf (snd (share E newNode))"
  obtains pools' where "movedResources E oldNode newNode pools = Some pools'"
    and "resources_ok E (setEntry pid newNode m) pools'"
proof -
  obtain oldName oldRes where o: "share E oldNode = (oldName, oldRes)" by (cases "share E oldNode")
  obtain newName newRes where n: "share E newNode = (newName, newRes)" by (cases "share E newNode")
  have pools: "gomap_wf pools" "\<And>pool rs. map_of pools pool = Some rs \<Longrightarrow> pool \<noteq> [] \<and> gomap_wf rs \<and> \<not> allZero rs"
    "\<And>pool r. pool \<noteq> [] \<Longrightarrow> qty (get_or [] pools pool) r = poolSum E m pool r"
    using ok by (auto simp: resources_ok_def)
  define pools0 where "pools0 = (if map_of pools newName = None \<and> newName \<noteq> [] then AList.update newName [] pools else pools)"
  have noname: "map_of pools [] = None" using pools(2) [of "[]"] by (cases "map_of pools []") auto
  have p0: "wf_pools pools0" "wf_pools pools"
    "\<And>pool r. qty (get_or [] pools0 pool) r = qty (get_or [] pools pool) r"
    "\<And>pool. pool \<noteq> newName \<Longrightarrow> map_of pools0 pool = map_of pools pool"
    "newName \<noteq> [] \<Longrightarrow> map_of pools0 newName \<noteq> None" "map_of pools0 [] = None"
    using pools(1,2) noname by (auto simp: pools0_def wf_pools_def gomap_simps get_or_def split: if_splits option.splits)
  have entry: "map_of pools0 oldName \<noteq> None" if ne: "oldName \<noteq> []" "oldRes \<noteq> []"
  proof -
    obtain k where k: "map_of m pid = Some k" using old o ne by (cases "map_of m pid") (auto simp: share_None)
    have sk: "share E (Some k) = (oldName, oldRes)" using old o k by simp
    have "0 < poolSum E m oldName NodeResource"
      by (rule poolSum_positive [OF one map_of_SomeD [OF k]]) (simp_all add: sk ne)
    then have "qty (get_or [] pools0 oldName) NodeResource \<noteq> 0" using pools(3) [OF ne(1)] p0(3) by simp
    then show ?thesis by (cases "map_of pools0 oldName") (auto simp: get_or_def)
  qed
  have wfs: "gomap_wf oldRes" "gomap_wf newRes" using wf o n by simp_all
  have "oldName = [] \<or> oldRes = [] \<or> map_of pools0 oldName \<noteq> None" using entry by (cases "oldName = [] \<or> oldRes = []") auto
  from subtracted.changePool_ok [OF p0(1) wfs(1) this] obtain pools1 where P1:
    "changePool subQuantity oldName oldRes pools0 = Some pools1 \<and> wf_pools pools1 \<and>
      (\<forall>pool. map_of pools1 pool = None \<longleftrightarrow> map_of pools0 pool = None) \<and>
      (\<forall>pool. pool \<noteq> oldName \<longrightarrow> map_of pools1 pool = map_of pools0 pool) \<and>
      (\<forall>pool k. pool \<noteq> [] \<longrightarrow> qty (get_or [] pools1 pool) k =
         qty (get_or [] pools0 pool) k + - (if pool = oldName then qty oldRes k else 0))"
    by (rule exE)
  note p1 = P1 [THEN conjunct1] P1 [THEN conjunct2, THEN conjunct1]
    P1 [THEN conjunct2, THEN conjunct2, THEN conjunct1, rule_format]
    P1 [THEN conjunct2, THEN conjunct2, THEN conjunct2, THEN conjunct1, rule_format]
    P1 [THEN conjunct2, THEN conjunct2, THEN conjunct2, THEN conjunct2, rule_format]
  have "newName = [] \<or> newRes = [] \<or> map_of pools1 newName \<noteq> None" using p0(5) p1(3) by (cases "newName = []") auto
  from added.changePool_ok [OF p1(2) wfs(2) this] obtain pools2 where P2:
    "changePool addQuantity newName newRes pools1 = Some pools2 \<and> wf_pools pools2 \<and>
      (\<forall>pool. map_of pools2 pool = None \<longleftrightarrow> map_of pools1 pool = None) \<and>
      (\<forall>pool. pool \<noteq> newName \<longrightarrow> map_of pools2 pool = map_of pools1 pool) \<and>
      (\<forall>pool k. pool \<noteq> [] \<longrightarrow> qty (get_or [] pools2 pool) k =
         qty (get_or [] pools1 pool) k + (if pool = newName then qty newRes k else 0))"
    by (rule exE)
  note p2 = P2 [THEN conjunct1] P2 [THEN conjunct2, THEN conjunct1]
    P2 [THEN conjunct2, THEN conjunct2, THEN conjunct1, rule_format]
    P2 [THEN conjunct2, THEN conjunct2, THEN conjunct2, THEN conjunct1, rule_format]
    P2 [THEN conjunct2, THEN conjunct2, THEN conjunct2, THEN conjunct2, rule_format]
  let ?p = "collectPool newName (collectPool oldName pools2)"
  have moved: "movedResources E oldNode newNode pools = Some ?p"
    by (simp add: movedResources_def poolShare_Some o n Let_def pools0_def [symmetric] p1(1) p2(1))
  have entries: "pool \<noteq> [] \<and> gomap_wf rs \<and> \<not> allZero rs" if "map_of ?p pool = Some rs" for pool rs
  proof -
    have c: "map_of pools2 pool = Some rs" "pool = newName \<or> pool = oldName \<longrightarrow> \<not> allZero rs"
      using map_of_collectPool [OF that] map_of_collectPool [of oldName pools2 pool rs] by auto
    have "map_of pools0 pool \<noteq> None" using c(1) p2(3) [of pool] p1(3) [of pool] by simp
    then have ne: "pool \<noteq> []" using p0(6) by auto
    have "\<not> allZero rs" if d: "pool \<noteq> newName" "pool \<noteq> oldName"
    proof -
      have "map_of pools pool = Some rs" using c(1) p2(4) [OF d(1)] p1(4) [OF d(2)] p0(4) [OF d(1)] by simp
      then show ?thesis using pools(2) by simp
    qed
    moreover have "gomap_wf rs" using c(1) p2(2) by (simp add: wf_pools_def)
    ultimately show ?thesis using ne c(2) by blast
  qed
  have sums: "qty (get_or [] ?p pool) r = poolSum E (setEntry pid newNode m) pool r" if "pool \<noteq> []" for pool r
    unfolding qty_collectPool p2(5) [OF that] p1(5) [OF that] p0(3) pools(3) [OF that] poolSum_setEntry [OF m]
    by (auto simp: contribution_def old [symmetric] o n)
  show ?thesis
    by (rule that [OF moved]) (use p2(2) in \<open>auto simp: resources_ok_def wf_pools_def collectPool_wf entries sums\<close>)
qed

section \<open>The invariant of the cluster state\<close>

definition node_ok :: "string \<Rightarrow> 'q state_node \<Rightarrow> bool" where
  "node_ok pid n \<longleftrightarrow> present n \<and>
     (\<forall>nd. snNode n = Some nd \<longrightarrow> nodeProviderID nd = pid \<and> gomap_wf (nodeCapacity nd)) \<and>
     (\<forall>c. snNodeClaim n = Some c \<longrightarrow> statusProviderID (ncStatus c) = pid \<and> gomap_wf (statusCapacity (ncStatus c)))"

text \<open>A pod counted on a node with a Node object is bound to that Node.\<close>

definition pods_ok :: "(string \<rightharpoonup> 'q state_node) \<Rightarrow> (namespaced_name \<rightharpoonup> string) \<Rightarrow> bool" where
  "pods_ok M B \<longleftrightarrow>
     (\<forall>pid n nd k. M pid = Some n \<and> snNode n = Some nd \<and> map_of (podRequests n) k \<noteq> None \<longrightarrow>
        B k = Some (nodeMetaName nd))"

lemma pods_okD:
  "pods_ok M B \<Longrightarrow> M pid = Some n \<Longrightarrow> snNode n = Some nd \<Longrightarrow> map_of (podRequests n) k \<noteq> None \<Longrightarrow>
   B k = Some (nodeMetaName nd)"
  unfolding pods_ok_def by blast

definition cluster_ok :: "'q::linordered_ab_group_add env \<Rightarrow> 'q cluster \<Rightarrow> bool" where
  "cluster_ok E c \<longleftrightarrow> gomap_wf (nodes c) \<and>
     indexed snNode nodeMetaName (map_of (nodes c)) (map_of (nodeNameToProviderID c)) \<and>
     indexed snNodeClaim ncName (map_of (nodes c)) (map_of (nodeClaimNameToProviderID c)) \<and>
     (\<forall>pid n. map_of (nodes c) pid = Some n \<longrightarrow> node_ok pid n) \<and>
     resources_ok E (nodes c) (nodePoolResources c) \<and>
     pods_ok (map_of (nodes c)) (map_of (bindings c)) \<and>
     np_wf (nodePoolState c) \<and>
     (\<forall>m. repairPolicyMatcher c = Some m \<longrightarrow> matcher_ok m)"

lemma cluster_okD:
  assumes "cluster_ok E c"
  shows "gomap_wf (nodes c)"
    "indexed snNode nodeMetaName (map_of (nodes c)) (map_of (nodeNameToProviderID c))"
    "indexed snNodeClaim ncName (map_of (nodes c)) (map_of (nodeClaimNameToProviderID c))"
    "\<And>pid n. map_of (nodes c) pid = Some n \<Longrightarrow> node_ok pid n"
    "resources_ok E (nodes c) (nodePoolResources c)"
    "pods_ok (map_of (nodes c)) (map_of (bindings c))"
    "np_wf (nodePoolState c)"
    "\<And>m. repairPolicyMatcher c = Some m \<Longrightarrow> matcher_ok m"
    "map_of (nodes c) [] = None"
  using assms nodeIx.indexed_empty unfolding cluster_ok_def by auto

lemma cluster_okI:
  assumes "gomap_wf (nodes c)"
    "indexed snNode nodeMetaName (map_of (nodes c)) (map_of (nodeNameToProviderID c))"
    "indexed snNodeClaim ncName (map_of (nodes c)) (map_of (nodeClaimNameToProviderID c))"
    "\<And>pid n. map_of (nodes c) pid = Some n \<Longrightarrow> node_ok pid n"
    "resources_ok E (nodes c) (nodePoolResources c)"
    "pods_ok (map_of (nodes c)) (map_of (bindings c))"
    "np_wf (nodePoolState c)"
    "\<And>m. repairPolicyMatcher c = Some m \<Longrightarrow> matcher_ok m"
  shows "cluster_ok E c"
  using assms unfolding cluster_ok_def by blast

lemma NewCluster_ok:
  assumes "\<And>m. matcher = Some m \<Longrightarrow> matcher_ok m"
  shows "cluster_ok E (NewCluster matcher)"
  using assms
  by (intro cluster_okI)
     (auto simp: NewCluster_def indexed_def resources_ok_def pods_ok_def poolSum_def gomap_simps np_wf_def NewNodePoolState_def)

text \<open>Fields the invariant does not read.\<close>

lemma cluster_ok_frame [simp]:
  "cluster_ok E (c \<lparr> clusterState := t \<rparr>) = cluster_ok E c"
  "cluster_ok E (c \<lparr> antiAffinityPods := a \<rparr>) = cluster_ok E c"
  "cluster_ok E (ClearPodSchedulingMappings key c) = cluster_ok E c"
  by (simp_all add: cluster_ok_def ClearPodSchedulingMappings_def)

lemma trigger_cases:
  obtains t where "triggerConsolidationOnChange now old new c = c \<lparr> clusterState := t \<rparr>"
proof -
  have "triggerConsolidationOnChange now old new c = c \<lparr> clusterState := now \<rparr> \<or>
      triggerConsolidationOnChange now old new c = c \<lparr> clusterState := clusterState c \<rparr>"
    by (auto simp: triggerConsolidationOnChange_def MarkUnconsolidated_def split: option.splits)
  then show ?thesis using that by blast
qed

lemma share_wf:
  assumes "\<And>nd. snNode n = Some nd \<Longrightarrow> gomap_wf (nodeCapacity nd)"
    and "\<And>c. snNodeClaim n = Some c \<Longrightarrow> gomap_wf (statusCapacity (ncStatus c))"
  shows "gomap_wf (snd (share E (Some n)))"
proof -
  have "gomap_wf cap" if "Capacity E n = Some cap" for cap
    using that assms
    by (auto simp: Capacity_def Let_def assignMap_def overrideZeros_wf split: option.splits if_splits)
  then have "gomap_wf (snd s)" if "poolShare E (Some n) = Some s" for s
    using that by (auto simp: poolShare_def Let_def split: bind_split_asm if_splits)
  then show ?thesis using poolShare_Some [of E "Some n"] by simp
qed

lemma node_ok_share_wf: "node_ok pid n \<Longrightarrow> gomap_wf (snd (share E (Some n)))"
  by (rule share_wf) (auto simp: node_ok_def)

text \<open>One entry of the stored nodes changes and the resources follow.\<close>

lemma entry_step:
  assumes ok: "cluster_ok E c" and one: "0 < quantity E 1"
    and old: "share E oldNode = share E (map_of (nodes c) pid)"
    and new: "\<And>n. newNode = Some n \<Longrightarrow> node_ok pid n"
  obtains pools' where "movedResources E oldNode newNode (nodePoolResources c) = Some pools'"
    and "resources_ok E (setEntry pid newNode (nodes c)) pools'"
proof -
  have "gomap_wf (snd (share E oldNode))"
    unfolding old using cluster_okD(4) [OF ok, THEN node_ok_share_wf]
    by (cases "map_of (nodes c) pid") (auto simp: share_None)
  moreover have "gomap_wf (snd (share E newNode))"
    using new [THEN node_ok_share_wf] by (cases newNode) (auto simp: share_None)
  ultimately show ?thesis
    using resources_step [OF cluster_okD(5) [OF ok] cluster_okD(1) [OF ok] one old] that by blast
qed

lemma setEntry_fun: "map_of (AList.update k v m) = (map_of m)(k \<mapsto> v)" "map_of (AList.delete k m) = (map_of m)(k := None)"
  by (auto simp: gomap_simps fun_eq_iff)

lemma setEntry_simps: "setEntry k None m = AList.delete k m" "setEntry k (Some v) m = AList.update k v m"
  by (simp_all add: setEntry_def)

lemma pods_ok_delete: "pods_ok M B \<Longrightarrow> pods_ok (M(pid := None)) B"
  by (auto simp: pods_ok_def)

lemma pods_ok_frame:
  assumes "pods_ok M B" "M pid = Some n" "podRequests n' = podRequests n" "snNode n' = snNode n \<or> snNode n' = None"
  shows "pods_ok (M(pid \<mapsto> n')) B"
  using assms unfolding pods_ok_def by (metis fun_upd_apply option.distinct(1) option.inject)

section \<open>Removing objects\<close>

lemma cleanupNodeClaim_ok:
  assumes ok: "cluster_ok E c" and one: "0 < quantity E 1"
  shows "\<exists>c'. cleanupNodeClaim E now name c = Some c' \<and> cluster_ok E c' \<and>
    (\<forall>q. map_of (nodeClaimNameToProviderID c) name \<noteq> Some q \<longrightarrow> map_of (nodes c') q = map_of (nodes c) q) \<and>
    map_of (nodeClaimNameToProviderID c') = (map_of (nodeClaimNameToProviderID c))(name := None) \<and>
    nodeNameToProviderID c' = nodeNameToProviderID c"
proof (cases "get_or [] (nodeClaimNameToProviderID c) name = []")
  case True
  then have nm: "map_of (nodeClaimNameToProviderID c) name = None \<or> map_of (nodeClaimNameToProviderID c) name = Some []"
    by (auto simp: get_or_def split: option.splits)
  let ?c = "c \<lparr> nodeClaimNameToProviderID := AList.delete name (nodeClaimNameToProviderID c),
                nodePoolState := Cleanup name (nodePoolState c) \<rparr>"
  have "cleanupNodeClaim E now name c = Some ?c" by (simp add: cleanupNodeClaim_def True)
  moreover have "cluster_ok E ?c"
    using cluster_okD [OF ok] claimIx.indexed_forget [OF cluster_okD(3) [OF ok] nm, of None]
    by (intro cluster_okI) (auto simp: setEntry_fun cleanup_wf)
  ultimately show ?thesis by (intro exI [of _ ?c]) (simp add: setEntry_fun)
next
  case False
  then obtain pid where pid: "map_of (nodeClaimNameToProviderID c) name = Some pid" "pid \<noteq> []"
    by (auto simp: get_or_def split: option.splits)
  obtain n x where n: "map_of (nodes c) pid = Some n" "snNodeClaim n = Some x"
    using claimIx.indexed_find [OF cluster_okD(3) [OF ok] pid] by metis
  have id: "get_or [] (nodeClaimNameToProviderID c) name = pid" using pid by (simp add: get_or_def)
  define r where "r = (if snNode n = None then None else Some (n \<lparr> snNodeClaim := None \<rparr>))"
  have rok: "node_ok pid m" if "r = Some m" for m
    using that cluster_okD(4) [OF ok n(1)] by (auto simp: r_def node_ok_def present_def split: if_splits)
  have sh: "share E (Some n) = share E (map_of (nodes c) pid)" using n by simp
  obtain pools' where pools: "movedResources E (Some n) r (nodePoolResources c) = Some pools'"
    "resources_ok E (setEntry pid r (nodes c)) pools'"
    using entry_step [OF ok one sh rok] by blast
  let ?c = "c \<lparr> nodes := setEntry pid r (nodes c), nodePoolResources := pools', clusterState := now,
                nodeClaimNameToProviderID := AList.delete name (nodeClaimNameToProviderID c),
                nodePoolState := Cleanup name (nodePoolState c) \<rparr>"
  have "cleanupNodeClaim E now name c = Some ?c"
    using pools(1) n(1) pid(2)
    by (auto simp: cleanupNodeClaim_def id r_def updateNodePoolResources_def MarkUnconsolidated_def setEntry_def Let_def)
  moreover have "cluster_ok E ?c"
  proof (rule cluster_okI)
    show "indexed snNodeClaim ncName (map_of (nodes ?c)) (map_of (nodeClaimNameToProviderID ?c))"
      using claimIx.indexed_drop [OF cluster_okD(3) [OF ok] pid n(1), of r]
      by (simp add: map_of_setEntry setEntry_fun r_def)
    show "indexed snNode nodeMetaName (map_of (nodes ?c)) (map_of (nodeNameToProviderID ?c))"
    proof (cases "snNode n = None")
      case True
      then show ?thesis using nodeIx.indexed_delete [OF cluster_okD(2) [OF ok] n(1)] by (simp add: map_of_setEntry r_def)
    next
      case False
      then show ?thesis
        using nodeIx.indexed_frame [OF cluster_okD(2) [OF ok] pid(2), of "n \<lparr> snNodeClaim := None \<rparr>"] n(1)
        by (auto simp: map_of_setEntry r_def)
    qed
    show "pods_ok (map_of (nodes ?c)) (map_of (bindings ?c))"
      using pods_ok_delete [OF cluster_okD(6) [OF ok]] pods_ok_frame [OF cluster_okD(6) [OF ok] n(1)]
      by (simp add: map_of_setEntry r_def)
    show "node_ok q m" if "map_of (nodes ?c) q = Some m" for q m
      using that rok cluster_okD(4) [OF ok] by (auto simp: map_of_setEntry split: if_splits)
  qed (use cluster_okD [OF ok] pools in \<open>auto simp: setEntry_wf cleanup_wf\<close>)
  ultimately show ?thesis
    using pid by (intro exI [of _ ?c]) (simp add: map_of_setEntry setEntry_fun)
qed

lemma cleanupNode_ok:
  assumes ok: "cluster_ok E c" and one: "0 < quantity E 1"
  shows "\<exists>c'. cleanupNode E now name c = Some c' \<and> cluster_ok E c' \<and>
    (\<forall>q. map_of (nodeNameToProviderID c) name \<noteq> Some q \<longrightarrow> map_of (nodes c') q = map_of (nodes c) q) \<and>
    (\<forall>m q. q \<noteq> [] \<longrightarrow> (map_of (nodeNameToProviderID c') m = Some q \<longleftrightarrow>
       m \<noteq> name \<and> map_of (nodeNameToProviderID c) m = Some q)) \<and>
    nodeClaimNameToProviderID c' = nodeClaimNameToProviderID c \<and> repairPolicyMatcher c' = repairPolicyMatcher c \<and>
    bindings c' = bindings c"
proof (cases "get_or [] (nodeNameToProviderID c) name = []")
  case True
  then have nm: "map_of (nodeNameToProviderID c) name = None \<or> map_of (nodeNameToProviderID c) name = Some []"
    by (auto simp: get_or_def split: option.splits)
  have "cleanupNode E now name c = Some c" by (simp add: cleanupNode_def True)
  then show ?thesis using ok nm by (intro exI [of _ c]) auto
next
  case False
  then obtain pid where pid: "map_of (nodeNameToProviderID c) name = Some pid" "pid \<noteq> []"
    by (auto simp: get_or_def split: option.splits)
  obtain n x where n: "map_of (nodes c) pid = Some n" "snNode n = Some x"
    using nodeIx.indexed_find [OF cluster_okD(2) [OF ok] pid] by metis
  have id: "get_or [] (nodeNameToProviderID c) name = pid" using pid by (simp add: get_or_def)
  define r where "r = (if snNodeClaim n = None then None else Some (n \<lparr> snNode := None \<rparr>))"
  have rok: "node_ok pid m" if "r = Some m" for m
    using that cluster_okD(4) [OF ok n(1)] by (auto simp: r_def node_ok_def present_def split: if_splits)
  have sh: "share E (Some n) = share E (map_of (nodes c) pid)" using n by simp
  obtain pools' where pools: "movedResources E (Some n) r (nodePoolResources c) = Some pools'"
    "resources_ok E (setEntry pid r (nodes c)) pools'"
    using entry_step [OF ok one sh rok] by blast
  let ?c = "c \<lparr> nodes := setEntry pid r (nodes c), nodePoolResources := pools', clusterState := now,
                nodeNameToProviderID := AList.delete name (nodeNameToProviderID c) \<rparr>"
  have "cleanupNode E now name c = Some ?c"
    using pools(1) n(1) pid(2)
    by (auto simp: cleanupNode_def id r_def updateNodePoolResources_def MarkUnconsolidated_def setEntry_def Let_def)
  moreover have "cluster_ok E ?c"
  proof (rule cluster_okI)
    show "indexed snNode nodeMetaName (map_of (nodes ?c)) (map_of (nodeNameToProviderID ?c))"
      using nodeIx.indexed_drop [OF cluster_okD(2) [OF ok] pid n(1), of r]
      by (simp add: map_of_setEntry setEntry_fun r_def)
    show "indexed snNodeClaim ncName (map_of (nodes ?c)) (map_of (nodeClaimNameToProviderID ?c))"
    proof (cases "snNodeClaim n = None")
      case True
      then show ?thesis using claimIx.indexed_delete [OF cluster_okD(3) [OF ok] n(1)] by (simp add: map_of_setEntry r_def)
    next
      case False
      then show ?thesis
        using claimIx.indexed_frame [OF cluster_okD(3) [OF ok] pid(2), of "n \<lparr> snNode := None \<rparr>"] n(1)
        by (auto simp: map_of_setEntry r_def)
    qed
    show "pods_ok (map_of (nodes ?c)) (map_of (bindings ?c))"
      using pods_ok_delete [OF cluster_okD(6) [OF ok]] pods_ok_frame [OF cluster_okD(6) [OF ok] n(1)]
      by (simp add: map_of_setEntry r_def)
    show "node_ok q m" if "map_of (nodes ?c) q = Some m" for q m
      using that rok cluster_okD(4) [OF ok] by (auto simp: map_of_setEntry split: if_splits)
  qed (use cluster_okD [OF ok] pools in \<open>auto simp: setEntry_wf\<close>)
  ultimately show ?thesis
    using pid by (intro exI [of _ ?c]) (auto simp: map_of_setEntry setEntry_fun)
qed

section \<open>Changes that keep the objects of a node\<close>

definition core :: "'q state_node \<Rightarrow> 'q node option \<times> 'q node_claim option \<times> bool" where
  "core n = (snNode n, snNodeClaim n, markedForDeletion n)"

text \<open>States that agree on everything but the usage of pods.\<close>

definition same_objects :: "'q cluster \<Rightarrow> 'q cluster \<Rightarrow> bool" where
  "same_objects c c' \<longleftrightarrow>
     (\<forall>q. map_option core (map_of (nodes c') q) = map_option core (map_of (nodes c) q)) \<and>
     nodeNameToProviderID c' = nodeNameToProviderID c \<and> nodeClaimNameToProviderID c' = nodeClaimNameToProviderID c \<and>
     nodePoolResources c' = nodePoolResources c \<and> nodePoolState c' = nodePoolState c \<and>
     repairPolicyMatcher c' = repairPolicyMatcher c"

lemma same_objects_refl: "same_objects c c"
  by (simp add: same_objects_def)

lemma same_objects_trans: "same_objects a b \<Longrightarrow> same_objects b c \<Longrightarrow> same_objects a c"
  by (simp add: same_objects_def)

lemma core_share: "core n = core n' \<Longrightarrow> share E (Some n) = share E (Some n')"
  by (rule share_cong) (simp_all add: core_def)

lemma same_objects_share:
  assumes "same_objects c c'"
  shows "share E (map_of (nodes c') q) = share E (map_of (nodes c) q)"
proof -
  have "map_option core (map_of (nodes c') q) = map_option core (map_of (nodes c) q)"
    using assms by (simp add: same_objects_def)
  then show ?thesis by (cases "map_of (nodes c') q"; cases "map_of (nodes c) q") (auto intro: core_share)
qed

lemma indexed_core:
  assumes ix: "indexed obj name M I" and obj: "\<And>n n'. core n = core n' \<Longrightarrow> obj n = obj n'"
    and same: "\<And>q. map_option core (M' q) = map_option core (M q)"
  shows "indexed obj name M' I"
  unfolding indexed_def
proof (intro conjI allI impI; (elim conjE)?)
  have sub: "\<exists>n'. B q = Some n' \<and> obj n' = obj n"
    if a: "A q = Some n" "map_option core (A q) = map_option core (B q)" for A B q n
  proof -
    obtain n' where n': "B q = Some n'" "core n' = core n" using a by (cases "B q") auto
    then show ?thesis using obj [OF n'(2)] by simp
  qed
  show "M' [] = None" using ix same [of "[]"] by (simp add: indexed_def)
  show "\<exists>n x. M' pid = Some n \<and> obj n = Some x \<and> name x = nm" if a: "I nm = Some pid" "pid \<noteq> []" for nm pid
  proof -
    obtain n x where n: "M pid = Some n" "obj n = Some x" "name x = nm"
      using ix a unfolding indexed_def by blast
    then show ?thesis using sub [of M pid n M'] same [of pid] by auto
  qed
  show "I (name x) = Some pid" if a: "M' pid = Some n" "obj n = Some x" for pid n x
  proof -
    obtain n' where "M pid = Some n'" "obj n' = Some x" using sub [of M' pid n M] same [of pid] a by auto
    then show ?thesis using ix unfolding indexed_def by blast
  qed
qed

lemma same_objects_ok:
  assumes ok: "cluster_ok E c" and same: "same_objects c c'" and wf: "gomap_wf (nodes c')"
    and sums: "\<And>pool r. poolSum E (nodes c') pool r = poolSum E (nodes c) pool r"
    and pods: "pods_ok (map_of (nodes c')) (map_of (bindings c'))"
  shows "cluster_ok E c'"
proof (rule cluster_okI)
  have m: "map_option core (map_of (nodes c') q) = map_option core (map_of (nodes c) q)" for q
    using same by (simp add: same_objects_def)
  note eqs = same [unfolded same_objects_def]
  show "indexed snNode nodeMetaName (map_of (nodes c')) (map_of (nodeNameToProviderID c'))"
    using indexed_core [OF cluster_okD(2) [OF ok] _ m] eqs by (simp add: core_def)
  show "indexed snNodeClaim ncName (map_of (nodes c')) (map_of (nodeClaimNameToProviderID c'))"
    using indexed_core [OF cluster_okD(3) [OF ok] _ m] eqs by (simp add: core_def)
  show "node_ok pid n" if n: "map_of (nodes c') pid = Some n" for pid n
  proof -
    obtain n0 where n0: "map_of (nodes c) pid = Some n0" "core n0 = core n"
      using m [of pid] n by (cases "map_of (nodes c) pid") auto
    then show ?thesis using cluster_okD(4) [OF ok n0(1)] by (simp add: node_ok_def present_def core_def)
  qed
  show "resources_ok E (nodes c') (nodePoolResources c')"
    using cluster_okD(5) [OF ok] eqs by (simp add: resources_ok_def sums)
  show "np_wf (nodePoolState c')" using cluster_okD(7) [OF ok] eqs by simp
  show "matcher_ok m" if "repairPolicyMatcher c' = Some m" for m
    using cluster_okD(8) [OF ok] eqs that by simp
qed (use wf pods in simp_all)

text \<open>Replacing one node by another with the same objects.\<close>

lemma replace_same_objects:
  assumes "map_of (nodes c) pid = Some n" "core n' = core n"
  shows "same_objects c (c \<lparr> nodes := AList.update pid n' (nodes c) \<rparr>)"
  using assms by (auto simp: same_objects_def gomap_simps)

lemma replace_sums:
  assumes "gomap_wf m" "map_of m pid = Some n" "core n' = core n"
  shows "poolSum E (AList.update pid n' m) pool r = poolSum E m pool r"
  using poolSum_setEntry [OF assms(1), of E pid "Some n'" pool r] core_share [OF assms(3)] assms(2)
  by (simp add: setEntry_def contribution_def)

lemma core_cleanupForPod [simp]: "core (cleanupForPod key n) = core n"
  by (simp add: core_def cleanupForPod_def)

lemma core_updateForPod: "updateForPod E p n = Inr n' \<Longrightarrow> core n' = core n"
  by (simp add: core_def updateForPod_fields)

section \<open>Pods\<close>

text \<open>All pods are bound to their nodes except that the node of \<open>p\<close> may already count \<open>p\<close>.\<close>

definition pods_ok_but :: "pod \<Rightarrow> (string \<rightharpoonup> 'q state_node) \<Rightarrow> (namespaced_name \<rightharpoonup> string) \<Rightarrow> bool" where
  "pods_ok_but p M B \<longleftrightarrow>
     (\<forall>pid n nd k. M pid = Some n \<and> snNode n = Some nd \<and> map_of (podRequests n) k \<noteq> None \<longrightarrow>
        B k = Some (nodeMetaName nd) \<or> k = podKey p \<and> nodeMetaName nd = nodeName p)"

lemma pods_ok_weaken: "pods_ok M B \<Longrightarrow> pods_ok_but p M B"
  unfolding pods_ok_def pods_ok_but_def by blast

lemma podRequests_cleanup: "map_of (podRequests (cleanupForPod key n)) k = (if k = key then None else map_of (podRequests n) k)"
  by (simp add: cleanupForPod_def gomap_simps)

lemma bindPod_bindings: "map_of (bindings (bindPod now p c)) = (map_of (bindings c))(podKey p \<mapsto> nodeName p)"
  by (auto simp: bindPod_def cleanupOldBindings_def MarkUnconsolidated_def Let_def gomap_simps fun_eq_iff
      split: option.splits)

lemma bindPod_cases:
  assumes "map_of (nodes c) [] = None"
  obtains (same) "nodes (bindPod now p c) = nodes c" "same_objects c (bindPod now p c)"
    "\<forall>name pid. map_of (bindings c) (podKey p) = Some name \<and> name \<noteq> nodeName p \<and>
       map_of (nodeNameToProviderID c) name = Some pid \<longrightarrow> map_of (nodes c) pid = None"
  | (moved) name pid n where "map_of (bindings c) (podKey p) = Some name" "name \<noteq> nodeName p"
      "map_of (nodeNameToProviderID c) name = Some pid" "map_of (nodes c) pid = Some n"
      "nodes (bindPod now p c) = AList.update pid (cleanupForPod (podKey p) n) (nodes c)"
      "same_objects c (bindPod now p c)"
proof (cases "\<exists>name pid n. map_of (bindings c) (podKey p) = Some name \<and> name \<noteq> nodeName p \<and>
    map_of (nodeNameToProviderID c) name = Some pid \<and> map_of (nodes c) pid = Some n")
  case True
  then obtain name pid n where m: "map_of (bindings c) (podKey p) = Some name" "name \<noteq> nodeName p"
    "map_of (nodeNameToProviderID c) name = Some pid" "map_of (nodes c) pid = Some n" by blast
  have "bindPod now p c = c \<lparr> nodes := AList.update pid (cleanupForPod (podKey p) n) (nodes c),
      bindings := AList.update (podKey p) (nodeName p) (AList.delete (podKey p) (bindings c)), clusterState := now \<rparr>"
    using m by (simp add: bindPod_def cleanupOldBindings_def MarkUnconsolidated_def Let_def get_or_def)
  then show ?thesis
    using moved [OF m] m(4) by (auto simp: same_objects_def gomap_simps)
next
  case False
  have "\<exists>t. bindPod now p c = c \<lparr> bindings := AList.update (podKey p) (nodeName p) (bindings c), clusterState := t \<rparr>"
  proof (cases "map_of (bindings c) (podKey p)")
    case None
    then show ?thesis
      by (intro exI [of _ now]) (simp add: bindPod_def cleanupOldBindings_def MarkUnconsolidated_def Let_def)
  next
    case (Some name)
    show ?thesis
    proof (cases "name = nodeName p")
      case True
      then show ?thesis using Some
        by (intro exI [of _ "clusterState c"]) (simp add: bindPod_def cleanupOldBindings_def Let_def)
    next
      case neq: False
      have "map_of (nodes c) (get_or [] (nodeNameToProviderID c) name) = None"
        using False Some neq assms by (cases "map_of (nodeNameToProviderID c) name") (auto simp: get_or_def)
      then show ?thesis using Some neq
        by (intro exI [of _ now]) (simp add: bindPod_def cleanupOldBindings_def MarkUnconsolidated_def Let_def)
    qed
  qed
  then obtain t where b: "bindPod now p c =
      c \<lparr> bindings := AList.update (podKey p) (nodeName p) (bindings c), clusterState := t \<rparr>" ..
  show ?thesis
  proof (rule same)
    show "nodes (bindPod now p c) = nodes c" by (simp add: b)
    show "same_objects c (bindPod now p c)" by (simp add: b same_objects_def)
    show "\<forall>name pid. map_of (bindings c) (podKey p) = Some name \<and> name \<noteq> nodeName p \<and>
       map_of (nodeNameToProviderID c) name = Some pid \<longrightarrow> map_of (nodes c) pid = None"
      using False by (metis not_None_eq)
  qed
qed

lemma bindPod_pods:
  assumes ix: "indexed snNode nodeMetaName (map_of (nodes c)) (map_of (nodeNameToProviderID c))"
    and pods: "pods_ok_but p (map_of (nodes c)) (map_of (bindings c))"
  shows "pods_ok (map_of (nodes (bindPod now p c))) (map_of (bindings (bindPod now p c)))"
  unfolding pods_ok_def
proof (intro allI impI, elim conjE)
  fix pid n nd k
  assume n: "map_of (nodes (bindPod now p c)) pid = Some n" and nd: "snNode n = Some nd"
    and k: "map_of (podRequests n) k \<noteq> None"
  have empty: "map_of (nodes c) [] = None" using nodeIx.indexed_empty [OF ix] .
  have bound: "map_of (bindings c) k' = Some (nodeMetaName nd') \<or> k' = podKey p \<and> nodeMetaName nd' = nodeName p"
    if "map_of (nodes c) q = Some n'" "snNode n' = Some nd'" "map_of (podRequests n') k' \<noteq> None" for q n' nd' k'
    using pods that unfolding pods_ok_but_def by blast
  have "nodeMetaName nd = nodeName p" if kp: "k = podKey p"
  proof (rule bindPod_cases [OF empty, of now p])
    assume s: "nodes (bindPod now p c) = nodes c"
      and f: "\<forall>name pid. map_of (bindings c) (podKey p) = Some name \<and> name \<noteq> nodeName p \<and>
       map_of (nodeNameToProviderID c) name = Some pid \<longrightarrow> map_of (nodes c) pid = None"
    have n': "map_of (nodes c) pid = Some n" using n s by simp
    show ?thesis
      using bound [OF n' nd k] kp f nodeIx.indexed_name [OF ix n' nd] n' by auto
  next
    fix name q m
    assume b: "map_of (bindings c) (podKey p) = Some name" "name \<noteq> nodeName p"
      "map_of (nodeNameToProviderID c) name = Some q" "map_of (nodes c) q = Some m"
      and u: "nodes (bindPod now p c) = AList.update q (cleanupForPod (podKey p) m) (nodes c)"
    have "pid \<noteq> q" using n k kp u by (auto simp: gomap_simps podRequests_cleanup)
    then have n': "map_of (nodes c) pid = Some n" using n u by (simp add: gomap_simps)
    show ?thesis
    proof (rule ccontr)
      assume "nodeMetaName nd \<noteq> nodeName p"
      then have "name = nodeMetaName nd" using bound [OF n' nd k] kp b(1) by auto
      then show False using nodeIx.indexed_name [OF ix n' nd] b(3) \<open>pid \<noteq> q\<close> by simp
    qed
  qed
  moreover have "map_of (bindings c) k = Some (nodeMetaName nd)" if kp: "k \<noteq> podKey p"
  proof (rule bindPod_cases [OF empty, of now p])
    assume "nodes (bindPod now p c) = nodes c"
    then show ?thesis using bound [of pid n nd k] n nd k kp by auto
  next
    fix name q m
    assume m: "map_of (nodes c) q = Some m"
      and u: "nodes (bindPod now p c) = AList.update q (cleanupForPod (podKey p) m) (nodes c)"
    show ?thesis
    proof (cases "pid = q")
      case True
      then have n_def: "n = cleanupForPod (podKey p) m" using n u by (simp add: gomap_simps)
      have "snNode m = Some nd" "map_of (podRequests m) k \<noteq> None"
        using nd k kp by (auto simp: n_def podRequests_cleanup cleanupForPod_def)
      then show ?thesis using bound [OF m] kp by blast
    next
      case False
      then show ?thesis using bound [of pid n nd k] n nd k kp u by (auto simp: gomap_simps)
    qed
  qed
  ultimately show "map_of (bindings (bindPod now p c)) k = Some (nodeMetaName nd)"
    by (auto simp: bindPod_bindings)
qed

lemma bindPod_rest:
  assumes wf: "gomap_wf (nodes c)" and empty: "map_of (nodes c) [] = None"
  shows "same_objects c (bindPod now p c) \<and> gomap_wf (nodes (bindPod now p c)) \<and>
    (\<forall>pool r. poolSum E (nodes (bindPod now p c)) pool r = poolSum E (nodes c) pool r)"
proof (rule bindPod_cases [OF empty, of now p])
  assume "nodes (bindPod now p c) = nodes c" "same_objects c (bindPod now p c)"
  then show ?thesis using wf by simp
next
  fix name q m
  assume m: "map_of (nodes c) q = Some m" and u: "nodes (bindPod now p c) = AList.update q (cleanupForPod (podKey p) m) (nodes c)"
    and s: "same_objects c (bindPod now p c)"
  show ?thesis using s wf replace_sums [OF wf m] by (simp add: u)
qed

lemma bindPod_ok:
  assumes ok: "cluster_ok E c"
  shows "cluster_ok E (bindPod now p c) \<and> same_objects c (bindPod now p c)"
proof -
  note r = bindPod_rest [OF cluster_okD(1,9) [OF ok], of now p E]
  have "pods_ok (map_of (nodes (bindPod now p c))) (map_of (bindings (bindPod now p c)))"
    by (rule bindPod_pods [OF cluster_okD(2) [OF ok] pods_ok_weaken [OF cluster_okD(6) [OF ok]]])
  with same_objects_ok [OF ok r [THEN conjunct1] r [THEN conjunct2, THEN conjunct1]
      r [THEN conjunct2, THEN conjunct2, rule_format]]
  have "cluster_ok E (bindPod now p c)" .
  then show ?thesis using r [THEN conjunct1] by (rule conjI)
qed

end
