(* ===== verification/ClusterSafety.thy ===== *)
theory ClusterSafety
  imports ClusterInvariants
begin

text \<open>
  Every event of the watches keeps the invariant of the cluster state and does not panic, provided that no two nodes and
  no two node claims share a provider identifier and that an identifier is never taken back.
\<close>

section \<open>Node claims\<close>

definition claim_allowed :: "'q cluster \<Rightarrow> 'q node_claim \<Rightarrow> bool" where
  "claim_allowed c nc \<longleftrightarrow> gomap_wf (statusCapacity (ncStatus nc)) \<and>
     (if statusProviderID (ncStatus nc) = []
      then map_of (nodeClaimNameToProviderID c) (ncName nc) = None \<or>
           map_of (nodeClaimNameToProviderID c) (ncName nc) = Some []
      else \<forall>m. map_of (nodeClaimNameToProviderID c) m = Some (statusProviderID (ncStatus nc)) \<longrightarrow> m = ncName nc)"

text \<open>The node that the code starts from when there is none counts for nothing.\<close>

lemma share_default:
  "share E (Some (case x of None \<Rightarrow> NewNode | Some n \<Rightarrow> n)) = share E x"
  by (cases x) (simp_all add: share_None share_absent present_def NewNode_def)

lemma ClusterUpdateNodeClaim_ok:
  assumes ok: "cluster_ok E c" and one: "0 < quantity E 1" and allowed: "claim_allowed c nc"
  shows "\<exists>c'. ClusterUpdateNodeClaim E now nc c = Some c' \<and> cluster_ok E c'"
proof (cases "statusProviderID (ncStatus nc) = []")
  case True
  let ?c = "c \<lparr> nodePoolState := UpdateNodeClaim (ncLabels nc) (ncName nc) False (nodePoolState c),
                nodeClaimNameToProviderID := AList.update (ncName nc) [] (nodeClaimNameToProviderID c) \<rparr>"
  have "ClusterUpdateNodeClaim E now nc c = Some ?c"
    using cluster_okD(9) [OF ok] by (simp add: ClusterUpdateNodeClaim_def True Let_def)
  moreover have "cluster_ok E ?c"
    using cluster_okD [OF ok] claimIx.indexed_forget [OF cluster_okD(3) [OF ok], of "ncName nc" "Some []"] allowed True
    by (intro cluster_okI) (auto simp: setEntry_fun update_wf claim_allowed_def)
  ultimately show ?thesis by blast
next
  case False
  define pid where "pid = statusProviderID (ncStatus nc)"
  have pid: "pid \<noteq> []" using False by (simp add: pid_def)
  have own: "m = ncName nc" if "map_of (nodeClaimNameToProviderID c) m = Some pid" for m
    using allowed that False by (simp add: claim_allowed_def pid_def)
  define old where "old = (case map_of (nodes c) pid of None \<Rightarrow> NewNode | Some old \<Rightarrow> old)"
  define n where "n = \<lparr> snNode = snNode old, snNodeClaim = Some nc, daemonSetRequests = daemonSetRequests old,
                 daemonSetLimits = daemonSetLimits old, podRequests = podRequests old, podLimits = podLimits old,
                 podDisruptionCosts = [], hostPortUsage = hostPortUsage old, volumeUsage = volumeUsage old,
                 markedForDeletion = markedForDeletion old, nominatedUntil = nominatedUntil old,
                 repairPolicyMatches = repairPolicyMatches old \<rparr>"
  define start where "start =
    (case map_of (nodeClaimNameToProviderID c) (ncName nc) of
       Some q \<Rightarrow> if q \<noteq> pid then cleanupNodeClaim E now (ncName nc) c else Some c
     | None \<Rightarrow> Some c)"
  have "\<exists>c1. start = Some c1 \<and> cluster_ok E c1 \<and> map_of (nodes c1) pid = map_of (nodes c) pid \<and>
      (map_of (nodeClaimNameToProviderID c1) (ncName nc) = None \<or>
       map_of (nodeClaimNameToProviderID c1) (ncName nc) = Some pid) \<and>
      (\<forall>m. map_of (nodeClaimNameToProviderID c1) m = Some pid \<longrightarrow> m = ncName nc)"
  proof (cases "map_of (nodeClaimNameToProviderID c) (ncName nc) = None \<or>
      map_of (nodeClaimNameToProviderID c) (ncName nc) = Some pid")
    case True
    then have "start = Some c" by (auto simp: start_def)
    then show ?thesis using ok True own by auto
  next
    case False
    then have "start = cleanupNodeClaim E now (ncName nc) c" by (auto simp: start_def)
    then show ?thesis using cleanupNodeClaim_ok [OF ok one, of now "ncName nc"] False own by auto
  qed
  then obtain c1 where c1: "start = Some c1" "cluster_ok E c1" "map_of (nodes c1) pid = map_of (nodes c) pid"
    "map_of (nodeClaimNameToProviderID c1) (ncName nc) = None \<or> map_of (nodeClaimNameToProviderID c1) (ncName nc) = Some pid"
    "\<forall>m. map_of (nodeClaimNameToProviderID c1) m = Some pid \<longrightarrow> m = ncName nc" by blast
  have nok: "node_ok pid n"
    using cluster_okD(4) [OF ok] allowed
    by (cases "map_of (nodes c) pid")
       (auto simp: n_def old_def node_ok_def present_def NewNode_def claim_allowed_def pid_def)
  have sh: "share E (Some old) = share E (map_of (nodes c1) pid)"
    unfolding old_def share_default c1(3) ..
  obtain pools' where pools: "movedResources E (Some old) (Some n) (nodePoolResources c1) = Some pools'"
    "resources_ok E (setEntry pid (Some n) (nodes c1)) pools'"
    using entry_step [OF c1(2) one sh, of "Some n"] nok by auto
  obtain t where t: "triggerConsolidationOnChange now (Some old) (Some n) (c1 \<lparr> nodePoolResources := pools' \<rparr>) =
      c1 \<lparr> nodePoolResources := pools', clusterState := t \<rparr>" by (rule trigger_cases)
  have new: "newStateFromNodeClaim E now nc (map_of (nodes c) pid) c =
      Some (n, c1 \<lparr> nodePoolResources := pools', clusterState := t \<rparr>)"
    using c1(1) [unfolded start_def pid_def] pools(1) t
    by (simp add: newStateFromNodeClaim_def Let_def old_def [symmetric] n_def [symmetric] updateNodePoolResources_def)
  let ?c = "c1 \<lparr> nodePoolResources := pools', clusterState := t, nodes := AList.update pid n (nodes c1),
                 nodePoolState := UpdateNodeClaim (ncLabels nc) (ncName nc) (MarkedForDeletion n) (nodePoolState c1),
                 nodeClaimNameToProviderID := AList.update (ncName nc) pid (nodeClaimNameToProviderID c1) \<rparr>"
  have "ClusterUpdateNodeClaim E now nc c = Some ?c"
    using new pid by (simp add: ClusterUpdateNodeClaim_def Let_def pid_def [symmetric] gomap_simps)
  moreover have "cluster_ok E ?c"
  proof (rule cluster_okI)
    show "indexed snNodeClaim ncName (map_of (nodes ?c)) (map_of (nodeClaimNameToProviderID ?c))"
      using claimIx.indexed_put [OF cluster_okD(3) [OF c1(2)] pid, of n nc] c1(4,5) by (auto simp: setEntry_fun n_def)
    show "indexed snNode nodeMetaName (map_of (nodes ?c)) (map_of (nodeNameToProviderID ?c))"
      using nodeIx.indexed_frame [OF cluster_okD(2) [OF c1(2)] pid, of n]
      by (cases "map_of (nodes c) pid") (auto simp: setEntry_fun n_def old_def c1(3) NewNode_def)
    show "pods_ok (map_of (nodes ?c)) (map_of (bindings ?c))"
    proof (cases "map_of (nodes c) pid")
      case None
      then show ?thesis using cluster_okD(6) [OF c1(2)]
        by (auto simp: setEntry_fun n_def old_def pods_ok_def NewNode_def)
    next
      case (Some n0)
      then show ?thesis using pods_ok_frame [OF cluster_okD(6) [OF c1(2)], of pid n0 n] c1(3)
        by (simp add: setEntry_fun n_def old_def)
    qed
    show "resources_ok E (nodes ?c) (nodePoolResources ?c)" using pools(2) by (simp add: setEntry_def)
    show "node_ok q m" if "map_of (nodes ?c) q = Some m" for q m
      using that nok cluster_okD(4) [OF c1(2)] by (auto simp: gomap_simps split: if_splits)
  qed (use cluster_okD [OF c1(2)] in \<open>auto simp: update_wf\<close>)
  ultimately show ?thesis by blast
qed

section \<open>Pods\<close>

lemma completion_ok:
  assumes ok: "cluster_ok E c"
  shows "cluster_ok E (updateNodeUsageFromPodCompletion key c)"
proof (cases "map_of (bindings c) key")
  case None
  then show ?thesis using ok by (simp add: updateNodeUsageFromPodCompletion_def)
next
  case (Some name)
  let ?id = "get_or [] (nodeNameToProviderID c) name"
  let ?b = "AList.delete key (bindings c)"
  have bound: "map_of (bindings c) k = Some (nodeMetaName nd)"
    if "map_of (nodes c) q = Some m" "snNode m = Some nd" "map_of (podRequests m) k \<noteq> None" for q m nd k
    using pods_okD [OF cluster_okD(6) [OF ok] that] .
  have holder: "q = ?id" if h: "map_of (nodes c) q = Some m" "snNode m = Some nd" "map_of (podRequests m) key \<noteq> None" for q m nd
    using bound [OF h] nodeIx.indexed_name [OF cluster_okD(2) [OF ok] h(1,2)] Some by (simp add: get_or_def)
  show ?thesis
  proof (cases "map_of (nodes c) ?id")
    case None
    have "pods_ok (map_of (nodes c)) (map_of ?b)"
      unfolding pods_ok_def
    proof (intro allI impI, elim conjE)
      fix q m nd k assume h: "map_of (nodes c) q = Some m" "snNode m = Some nd" "map_of (podRequests m) k \<noteq> None"
      then have "k \<noteq> key" using holder None by auto
      then show "map_of ?b k = Some (nodeMetaName nd)" using bound [OF h] by (simp add: gomap_simps)
    qed
    then have "cluster_ok E (c \<lparr> bindings := ?b \<rparr>)" using cluster_okD [OF ok] by (intro cluster_okI) auto
    then show ?thesis by (simp add: updateNodeUsageFromPodCompletion_def Some None Let_def)
  next
    case (Some n)
    let ?c = "c \<lparr> bindings := ?b, nodes := AList.update ?id (cleanupForPod key n) (nodes c) \<rparr>"
    have "pods_ok (map_of (nodes ?c)) (map_of (bindings ?c))"
      unfolding pods_ok_def
    proof (intro allI impI, elim conjE)
      fix q m nd k assume h: "map_of (nodes ?c) q = Some m" "snNode m = Some nd" "map_of (podRequests m) k \<noteq> None"
      show "map_of (bindings ?c) k = Some (nodeMetaName nd)"
      proof (cases "q = ?id")
        case True
        then have m: "m = cleanupForPod key n" using h(1) by (simp add: gomap_simps)
        then have "snNode n = Some nd" "map_of (podRequests n) k \<noteq> None" "k \<noteq> key"
          using h(2,3) by (auto simp: cleanupForPod_def gomap_simps split: if_splits)
        then show ?thesis using bound [OF Some] by (simp add: gomap_simps)
      next
        case False
        then have m: "map_of (nodes c) q = Some m" using h(1) by (simp add: gomap_simps)
        then have "k \<noteq> key" using holder [OF m h(2)] h(3) False by auto
        then show ?thesis using bound [OF m h(2,3)] by (simp add: gomap_simps)
      qed
    qed
    moreover have "same_objects c ?c" using Some by (auto simp: same_objects_def gomap_simps)
    moreover have "poolSum E (nodes ?c) pool r = poolSum E (nodes c) pool r" for pool r
      using replace_sums [OF cluster_okD(1) [OF ok] Some] by simp
    ultimately have "cluster_ok E ?c"
      using cluster_okD(1) [OF ok] by (intro same_objects_ok [OF ok]) simp_all
    then show ?thesis using \<open>map_of (bindings c) key = Some name\<close> Some
      by (simp add: updateNodeUsageFromPodCompletion_def Let_def)
  qed
qed

lemma usage_ok:
  assumes ok: "cluster_ok E c"
  shows "cluster_ok E (snd (updateNodeUsageFromPod E' now p c))"
proof -
  let ?id = "get_or [] (nodeNameToProviderID c) (nodeName p)"
  have trivial: ?thesis if "snd (updateNodeUsageFromPod E' now p c) = c" using ok that by simp
  consider (unbound) "nodeName p = []" | (unknown) "nodeName p \<noteq> []" "map_of (nodes c) ?id = None"
    | (failed) n err where "nodeName p \<noteq> []" "map_of (nodes c) ?id = Some n" "updateForPod E' p n = Inl err"
    | (updated) n n' where "nodeName p \<noteq> []" "map_of (nodes c) ?id = Some n" "updateForPod E' p n = Inr n'"
    by (metis not_None_eq obj_sumE)
  then show ?thesis
  proof cases
    case unbound then show ?thesis using trivial by (simp add: updateNodeUsageFromPod_def)
  next
    case unknown then show ?thesis using trivial by (simp add: updateNodeUsageFromPod_def Let_def)
  next
    case failed then show ?thesis using trivial by (simp add: updateNodeUsageFromPod_def Let_def)
  next
    case updated
    let ?c = "c \<lparr> nodes := AList.update ?id n' (nodes c) \<rparr>"
    have res: "snd (updateNodeUsageFromPod E' now p c) = bindPod now p ?c"
      using updated by (simp add: updateNodeUsageFromPod_def Let_def)
    have core: "core n' = core n" using core_updateForPod updated(3) .
    have idne: "?id \<noteq> []" using updated(2) cluster_okD(9) [OF ok] by auto
    have so: "same_objects c ?c" using replace_same_objects [OF updated(2) core] .
    have nn: "map_of (nodeNameToProviderID c) (nodeName p) = Some ?id"
      using idne by (auto simp: get_or_def split: option.splits)
    have name: "nodeMetaName nd = nodeName p" if "snNode n' = Some nd" for nd
      using that core nodeIx.indexed_only [OF cluster_okD(2) [OF ok] updated(2) _ nn idne, of nd] by (simp add: core_def)
    have but: "pods_ok_but p (map_of (nodes ?c)) (map_of (bindings ?c))"
      unfolding pods_ok_but_def
    proof (intro allI impI, elim conjE)
      fix q m nd k assume h: "map_of (nodes ?c) q = Some m" "snNode m = Some nd" "map_of (podRequests m) k \<noteq> None"
      show "map_of (bindings ?c) k = Some (nodeMetaName nd) \<or> k = podKey p \<and> nodeMetaName nd = nodeName p"
      proof (cases "q = ?id")
        case True
        then have m: "m = n'" using h(1) by (simp add: gomap_simps)
        have "k = podKey p \<or> map_of (podRequests n) k \<noteq> None"
          using h(3) by (auto simp: m updateForPod_fields(1) [OF updated(3)] gomap_simps split: if_splits)
        moreover have nd: "snNode n = Some nd" using h(2) core by (simp add: m core_def)
        moreover have "map_of (bindings c) k = Some (nodeMetaName nd)" if k: "map_of (podRequests n) k \<noteq> None"
          using pods_okD [OF cluster_okD(6) [OF ok] updated(2) nd k] .
        ultimately show ?thesis using name [of nd] h(2) m by auto
      next
        case False
        then have "map_of (nodes c) q = Some m" using h(1) by (simp add: gomap_simps)
        then have "map_of (bindings c) k = Some (nodeMetaName nd)"
          using cluster_okD(6) [OF ok] h(2,3) unfolding pods_ok_def by blast
        then show ?thesis by simp
      qed
    qed
    have ix: "indexed snNode nodeMetaName (map_of (nodes ?c)) (map_of (nodeNameToProviderID ?c))"
    proof -
      have "map_option core (map_of (nodes ?c) q) = map_option core (map_of (nodes c) q)" for q
        using so by (simp add: same_objects_def)
      then show ?thesis using indexed_core [OF cluster_okD(2) [OF ok]] by (simp add: core_def)
    qed
    have wf: "gomap_wf (nodes ?c)" using cluster_okD(1) [OF ok] by simp
    note r = bindPod_rest [OF wf nodeIx.indexed_empty [OF ix], of now p E]
    have sums: "poolSum E (nodes (bindPod now p ?c)) pool r' = poolSum E (nodes c) pool r'" for pool r'
      using r [THEN conjunct2, THEN conjunct2, rule_format, of pool r']
        replace_sums [OF cluster_okD(1) [OF ok] updated(2) core, of E pool r'] by simp
    show ?thesis
      unfolding res
      by (rule same_objects_ok [OF ok same_objects_trans [OF so r [THEN conjunct1]] r [THEN conjunct2, THEN conjunct1]
            sums bindPod_pods [OF ix but]])
  qed
qed

lemma UpdatePod_ok: "cluster_ok E c \<Longrightarrow> cluster_ok E (snd (UpdatePod E' now p c))"
  using completion_ok [of E c "podKey p"] usage_ok [of E c E' now p]
  by (auto simp: UpdatePod_def updatePodAntiAffinities_def split: prod.splits)

lemma DeletePod_ok: "cluster_ok E c \<Longrightarrow> cluster_ok E (DeletePod now key c)"
  using completion_ok [of E "c \<lparr> antiAffinityPods := AList.delete key (antiAffinityPods c) \<rparr>" key]
  by (simp add: DeletePod_def MarkUnconsolidated_def)


section \<open>Nodes\<close>

text \<open>What a node is stored under: its provider identifier, or its name while it has none.\<close>

definition storedID :: "'q node \<Rightarrow> string" where
  "storedID node = (if nodeProviderID node = [] then nodeMetaName node else nodeProviderID node)"

definition node_allowed :: "'q cluster \<Rightarrow> 'q node \<Rightarrow> bool" where
  "node_allowed c node \<longleftrightarrow> nodeMetaName node \<noteq> [] \<and> gomap_wf (nodeCapacity node) \<and>
     (\<forall>m. map_of (nodeNameToProviderID c) m = Some (storedID node) \<longrightarrow> m = nodeMetaName node)"

text \<open>What the pod lists of the API server promise.\<close>

definition lists_bound_pods :: "'q env \<Rightarrow> bool" where
  "lists_bound_pods E \<longleftrightarrow> (\<forall>name ps p. listPodsOn E name = Inr ps \<and> p \<in> set ps \<longrightarrow> nodeName p = name)"

definition pods_bound :: "string \<Rightarrow> 'q state_node \<Rightarrow> 'q cluster \<Rightarrow> bool" where
  "pods_bound name n c \<longleftrightarrow> (\<forall>k. map_of (podRequests n) k \<noteq> None \<longrightarrow> map_of (bindings c) k = Some name)"

lemma pods_bound_update:
  assumes "pods_bound (nodeName p) n c" "updateForPod E p n = Inr n'"
  shows "pods_bound (nodeName p) n' (bindPod now p c)"
  using assms(1) by (auto simp: pods_bound_def bindPod_bindings updateForPod_fields(1) [OF assms(2)] gomap_simps)

lemma populateLoop_ok:
  assumes "cluster_ok E c" and "\<forall>p \<in> set ps. nodeName p = name" and "pods_bound name n c"
    and "populateLoop E' now ps n c = (err, n1, c1)"
  shows "cluster_ok E c1 \<and> same_objects c c1 \<and> core n1 = core n \<and> pods_bound name n1 c1"
  using assms
proof (induction ps arbitrary: n c)
  case Nil
  then show ?case by (simp add: same_objects_refl)
next
  case (Cons p ps)
  have ps: "\<forall>p \<in> set ps. nodeName p = name" and p: "nodeName p = name" using Cons.prems(2) by simp_all
  consider (terminal) "IsTerminal p" | (failed) e where "\<not> IsTerminal p" "updateForPod E' p n = Inl e"
    | (updated) n' where "\<not> IsTerminal p" "updateForPod E' p n = Inr n'" by (metis obj_sumE)
  then show ?case
  proof cases
    case terminal
    then have "populateLoop E' now ps n c = (err, n1, c1)" using Cons.prems(4) by simp
    then show ?thesis by (rule Cons.IH [OF Cons.prems(1) ps Cons.prems(3)])
  next
    case failed
    then show ?thesis using Cons.prems(1,3,4) by (simp add: same_objects_refl)
  next
    case updated
    have b: "cluster_ok E (bindPod now p c)" "same_objects c (bindPod now p c)"
      using bindPod_ok [OF Cons.prems(1), of now p] by simp_all
    have "populateLoop E' now ps n' (bindPod now p c) = (err, n1, c1)" using Cons.prems(4) updated by simp
    with Cons.IH [OF b(1) ps pods_bound_update [of p n c E' n' now, unfolded p, OF Cons.prems(3) updated(2)]]
    have "cluster_ok E c1 \<and> same_objects (bindPod now p c) c1 \<and> core n1 = core n' \<and> pods_bound name n1 c1" .
    then show ?thesis using same_objects_trans [OF b(2)] core_updateForPod [OF updated(2)] by simp
  qed
qed

lemma fold_keeps:
  assumes "\<And>x s. g (f x s) = g s"
  shows "g (fold f xs s) = g s"
  by (induction xs arbitrary: s) (simp_all add: assms)

lemma volume_limits_frame:
  assumes "populateVolumeLimits E name n = Inr n'"
  shows "core n' = core n \<and> podRequests n' = podRequests n"
proof -
  let ?f = "\<lambda>(driver, count) n. case count of
      None \<Rightarrow> n \<lparr> volumeUsage := AddUnbounded driver (volumeUsage n) \<rparr>
    | Some k \<Rightarrow> n \<lparr> volumeUsage := AddLimit driver k (volumeUsage n) \<rparr>"
  have "core (?f x s) = core s" "podRequests (?f x s) = podRequests s" for x and s :: "'a state_node"
    by (cases x; cases "snd x"; simp add: core_def)+
  note keeps = fold_keeps [of core ?f, OF this(1)] fold_keeps [of podRequests ?f, OF this(2)]
  show ?thesis
  proof (cases "csiDrivers E name")
    case (Inl e)
    then show ?thesis using assms by (cases e) (simp_all add: populateVolumeLimits_def)
  next
    case (Inr ds)
    then have "n' = fold ?f ds n" using assms by (simp add: populateVolumeLimits_def)
    then show ?thesis using keeps by simp
  qed
qed

lemma matchRepairPolicies_ok:
  assumes "\<And>m. matcher = Some m \<Longrightarrow> matcher_ok m"
  obtains ms where "matchRepairPolicies matcher node old = Some ms"
proof (cases matcher)
  case (Some m)
  obtain ms where ms: "Match m (nodeHealth node) = Some ms" by (rule Match_ok [OF assms [OF Some]])
  show ?thesis
  proof (cases "\<exists>o'. snNode old = Some o' \<and> MatchInputsEqual (nodeHealth o') (nodeHealth node)")
    case True
    then show ?thesis using that [of "repairPolicyMatches old"] by (auto simp: matchRepairPolicies_def Some)
  next
    case False
    then show ?thesis using that [of ms] ms by (auto simp: matchRepairPolicies_def Some split: option.splits)
  qed
qed (use that in \<open>simp add: matchRepairPolicies_def\<close>)

text \<open>The part of an update of a node that follows the reads of the API server.\<close>

lemma store_node_ok:
  assumes ok: "cluster_ok E c" and one: "0 < quantity E 1" and allowed: "node_allowed c node"
    and pid: "nodeProviderID node \<noteq> []"
    and n: "snNode n = Some node" "snNodeClaim n = snNodeClaim old" "core old = core (case map_of (nodes c) (nodeProviderID node) of None \<Rightarrow> NewNode | Some x \<Rightarrow> x)"
    and pods: "pods_bound (nodeMetaName node) n c"
  shows "\<exists>c2 c3.
    (case map_of (nodeNameToProviderID c) (nodeMetaName node) of
       Some q \<Rightarrow> if q \<noteq> nodeProviderID node then cleanupNode E now (nodeMetaName node) c else Some c
     | None \<Rightarrow> Some c) = Some c2 \<and>
    updateNodePoolResources E (Some old) (Some n) c2 = Some c3 \<and>
    cluster_ok E (c3 \<lparr> nodes := AList.update (nodeProviderID node) n (nodes c3),
                       nodeNameToProviderID := AList.update (nodeMetaName node) (nodeProviderID node) (nodeNameToProviderID c3) \<rparr>)"
proof -
  define q where "q = nodeProviderID node"
  define name where "name = nodeMetaName node"
  have qne: "q \<noteq> []" using pid by (simp add: q_def)
  have own: "m = name" if "map_of (nodeNameToProviderID c) m = Some q" for m
    using allowed that pid by (simp add: node_allowed_def storedID_def q_def name_def)
  define start where "start =
    (case map_of (nodeNameToProviderID c) name of
       Some x \<Rightarrow> if x \<noteq> q then cleanupNode E now name c else Some c
     | None \<Rightarrow> Some c)"
  have "\<exists>c2. start = Some c2 \<and> cluster_ok E c2 \<and> map_of (nodes c2) q = map_of (nodes c) q \<and> bindings c2 = bindings c \<and>
      (map_of (nodeNameToProviderID c2) name = None \<or> map_of (nodeNameToProviderID c2) name = Some [] \<or>
       map_of (nodeNameToProviderID c2) name = Some q) \<and>
      (\<forall>m. map_of (nodeNameToProviderID c2) m = Some q \<longrightarrow> m = name)"
  proof (cases "map_of (nodeNameToProviderID c) name = None \<or> map_of (nodeNameToProviderID c) name = Some q")
    case True
    then have "start = Some c" by (auto simp: start_def)
    then show ?thesis using ok True own by auto
  next
    case False
    then have s: "start = cleanupNode E now name c" by (auto simp: start_def)
    obtain c2 where c2: "cleanupNode E now name c = Some c2" "cluster_ok E c2"
      "\<forall>q. map_of (nodeNameToProviderID c) name \<noteq> Some q \<longrightarrow> map_of (nodes c2) q = map_of (nodes c) q"
      "\<forall>m q. q \<noteq> [] \<longrightarrow> (map_of (nodeNameToProviderID c2) m = Some q \<longleftrightarrow>
         m \<noteq> name \<and> map_of (nodeNameToProviderID c) m = Some q)" "bindings c2 = bindings c"
      using cleanupNode_ok [OF ok one, of now name] by blast
    have "map_of (nodeNameToProviderID c2) name = None \<or> map_of (nodeNameToProviderID c2) name = Some []"
      using c2(4) by (cases "map_of (nodeNameToProviderID c2) name") auto
    then show ?thesis using s c2 False own qne by auto
  qed
  then obtain c2 where c2: "start = Some c2" "cluster_ok E c2" "map_of (nodes c2) q = map_of (nodes c) q"
    "bindings c2 = bindings c"
    "map_of (nodeNameToProviderID c2) name = None \<or> map_of (nodeNameToProviderID c2) name = Some [] \<or>
       map_of (nodeNameToProviderID c2) name = Some q"
    "\<forall>m. map_of (nodeNameToProviderID c2) m = Some q \<longrightarrow> m = name" by blast
  have sh: "share E (Some old) = share E (map_of (nodes c2) q)"
    using core_share [OF n(3), of E] share_default [of E "map_of (nodes c) q"] c2(3) [unfolded q_def] by (simp add: q_def)
  have claim: "snNodeClaim n = Some cl \<longleftrightarrow> (\<exists>x. map_of (nodes c2) q = Some x \<and> snNodeClaim x = Some cl)" for cl
    using n(2,3) by (cases "map_of (nodes c) q") (auto simp: core_def q_def c2(3) [unfolded q_def] NewNode_def)
  have nok: "node_ok q n"
    using claim cluster_okD(4) [OF c2(2), of q] allowed n(1)
    by (auto simp: node_ok_def present_def node_allowed_def q_def)
  obtain pools' where pools: "movedResources E (Some old) (Some n) (nodePoolResources c2) = Some pools'"
    "resources_ok E (setEntry q (Some n) (nodes c2)) pools'"
    using entry_step [OF c2(2) one sh, of "Some n"] nok by auto
  let ?c3 = "c2 \<lparr> nodePoolResources := pools' \<rparr>"
  let ?c = "?c3 \<lparr> nodes := AList.update q n (nodes ?c3),
                  nodeNameToProviderID := AList.update name q (nodeNameToProviderID ?c3) \<rparr>"
  have "cluster_ok E ?c"
  proof (rule cluster_okI)
    show "indexed snNode nodeMetaName (map_of (nodes ?c)) (map_of (nodeNameToProviderID ?c))"
      using nodeIx.indexed_put [OF cluster_okD(2) [OF c2(2)] qne n(1)] c2(5,6) by (simp add: setEntry_fun name_def)
    show "indexed snNodeClaim ncName (map_of (nodes ?c)) (map_of (nodeClaimNameToProviderID ?c))"
      using claimIx.indexed_frame [OF cluster_okD(3) [OF c2(2)] qne claim] by (simp add: setEntry_fun)
    show "pods_ok (map_of (nodes ?c)) (map_of (bindings ?c))"
      using cluster_okD(6) [OF c2(2)] pods n(1) c2(4) unfolding pods_ok_def pods_bound_def by (simp add: gomap_simps)
    show "resources_ok E (nodes ?c) (nodePoolResources ?c)" using pools(2) by (simp add: setEntry_def)
    show "node_ok x m" if "map_of (nodes ?c) x = Some m" for x m
      using that nok cluster_okD(4) [OF c2(2)] by (auto simp: gomap_simps split: if_splits)
  qed (use cluster_okD [OF c2(2)] in auto)
  moreover have "updateNodePoolResources E (Some old) (Some n) c2 = Some ?c3"
    using pools(1) by (simp add: updateNodePoolResources_def)
  ultimately show ?thesis using c2(1) unfolding start_def q_def name_def by blast
qed

text \<open>The state node that the reads of the API server give.\<close>

lemma populate_ok:
  assumes ok: "cluster_ok E c" and lists: "lists_bound_pods E" and empty: "podRequests n = []"
    and pop: "populateResourceRequests E now name n c = (err, n1, c1)"
  shows "cluster_ok E c1 \<and> same_objects c c1 \<and> core n1 = core n \<and> pods_bound name n1 c1"
proof (cases "listPodsOn E name")
  case (Inl e)
  then show ?thesis using ok pop empty by (simp add: populateResourceRequests_def same_objects_refl pods_bound_def)
next
  case (Inr ps)
  then have "\<forall>p \<in> set ps. nodeName p = name" using lists by (simp add: lists_bound_pods_def)
  moreover have "pods_bound name n c" using empty by (simp add: pods_bound_def)
  ultimately show ?thesis using populateLoop_ok [OF ok] pop Inr by (simp add: populateResourceRequests_def)
qed

lemma newStateFromNode_ok:
  assumes ok: "cluster_ok E c" and one: "0 < quantity E 1" and lists: "lists_bound_pods E"
    and allowed: "node_allowed c node" and pid: "nodeProviderID node \<noteq> []"
  shows "\<exists>res c'. newStateFromNode E now node (map_of (nodes c) (nodeProviderID node)) c = Some (res, c') \<and>
    (case res of
       Inl _ \<Rightarrow> cluster_ok E c'
     | Inr n \<Rightarrow> cluster_ok E (c' \<lparr> nodes := AList.update (nodeProviderID node) n (nodes c'),
                 nodeNameToProviderID := AList.update (nodeMetaName node) (nodeProviderID node) (nodeNameToProviderID c') \<rparr>))"
proof -
  define old where "old = (case map_of (nodes c) (nodeProviderID node) of None \<Rightarrow> NewNode | Some x \<Rightarrow> x)"
  obtain ms where ms: "matchRepairPolicies (repairPolicyMatcher c) node old = Some ms"
    using matchRepairPolicies_ok [OF cluster_okD(8) [OF ok]] .
  define n where "n = NewNode \<lparr> snNode := Some node, snNodeClaim := snNodeClaim old, markedForDeletion := markedForDeletion old,
                         nominatedUntil := nominatedUntil old, repairPolicyMatches := ms \<rparr>"
  obtain err n1 c1 where pop: "populateResourceRequests E now (nodeMetaName node) n c = (err, n1, c1)"
    by (cases "populateResourceRequests E now (nodeMetaName node) n c")
  have "podRequests n = []" by (simp add: n_def NewNode_def)
  note p = populate_ok [OF ok lists this pop]
  note unfolded = newStateFromNode_def Let_def old_def [symmetric] ms n_def [symmetric] pop
  show ?thesis
  proof (cases "\<exists>n2. err = None \<and> populateVolumeLimits E (nodeMetaName node) n1 = Inr n2")
    case False
    then have "\<exists>errs. newStateFromNode E now node (map_of (nodes c) (nodeProviderID node)) c = Some (Inl errs, c1)"
      by (cases err; cases "populateVolumeLimits E (nodeMetaName node) n1") (simp_all add: unfolded)
    then show ?thesis using p by auto
  next
    case True
    then obtain n2 where n2: "err = None" "populateVolumeLimits E (nodeMetaName node) n1 = Inr n2" by blast
    have keep: "core n2 = core n" "podRequests n2 = podRequests n1"
      using volume_limits_frame [OF n2(2)] p by simp_all
    have objects: "snNode n2 = Some node" "snNodeClaim n2 = snNodeClaim old"
      using keep(1) by (simp_all add: core_def n_def)
    have same: "same_objects c c1" and ok1: "cluster_ok E c1" using p by simp_all
    have "map_option core (map_of (nodes c1) (nodeProviderID node)) = map_option core (map_of (nodes c) (nodeProviderID node))"
      using same by (simp add: same_objects_def)
    then have oldcore: "core old = core (case map_of (nodes c1) (nodeProviderID node) of None \<Rightarrow> NewNode | Some x \<Rightarrow> x)"
      unfolding old_def by (auto split: option.splits)
    have "node_allowed c1 node" using allowed same by (simp add: node_allowed_def same_objects_def)
    moreover have "pods_bound (nodeMetaName node) n2 c1" using p keep(2) by (simp add: pods_bound_def)
    ultimately obtain c2 c3 where c:
      "(case map_of (nodeNameToProviderID c1) (nodeMetaName node) of
         Some q \<Rightarrow> if q \<noteq> nodeProviderID node then cleanupNode E now (nodeMetaName node) c1 else Some c1
       | None \<Rightarrow> Some c1) = Some c2"
      "updateNodePoolResources E (Some old) (Some n2) c2 = Some c3"
      "cluster_ok E (c3 \<lparr> nodes := AList.update (nodeProviderID node) n2 (nodes c3),
         nodeNameToProviderID := AList.update (nodeMetaName node) (nodeProviderID node) (nodeNameToProviderID c3) \<rparr>)"
      using store_node_ok [OF ok1 one _ pid objects oldcore, of now] by blast
    obtain t where t: "triggerConsolidationOnChange now (Some old) (Some n2) c3 = c3 \<lparr> clusterState := t \<rparr>"
      by (rule trigger_cases)
    have "newStateFromNode E now node (map_of (nodes c) (nodeProviderID node)) c =
        Some (Inr n2, c3 \<lparr> clusterState := t \<rparr>)"
      using c(1,2) by (simp add: unfolded n2 t)
    moreover have "cluster_ok E (c3 \<lparr> clusterState := t, nodes := AList.update (nodeProviderID node) n2 (nodes c3),
         nodeNameToProviderID := AList.update (nodeMetaName node) (nodeProviderID node) (nodeNameToProviderID c3) \<rparr>)"
      using c(3) by (simp add: cluster_ok_def)
    ultimately show ?thesis by simp
  qed
qed

lemma UpdateNode_ok:
  assumes ok: "cluster_ok E c" and one: "0 < quantity E 1" and lists: "lists_bound_pods E" and allowed: "node_allowed c node"
  shows "\<exists>errs c'. UpdateNode E now node c = Some (errs, c') \<and> cluster_ok E c'"
proof -
  define node' where "node' = (if nodeProviderID node = [] then node \<lparr> nodeProviderID := nodeMetaName node \<rparr> else node)"
  have id: "nodeProviderID node' \<noteq> []" "storedID node' = storedID node"
    using allowed by (auto simp: node'_def node_allowed_def storedID_def)
  then have "node_allowed c node'" using allowed by (auto simp: node'_def node_allowed_def)
  then obtain res c' where r:
    "newStateFromNode E now node' (map_of (nodes c) (nodeProviderID node')) c = Some (res, c')"
    "case res of Inl _ \<Rightarrow> cluster_ok E c' | Inr n \<Rightarrow>
       cluster_ok E (c' \<lparr> nodes := AList.update (nodeProviderID node') n (nodes c'),
         nodeNameToProviderID := AList.update (nodeMetaName node') (nodeProviderID node') (nodeNameToProviderID c') \<rparr>)"
    using newStateFromNode_ok [OF ok one lists _ id(1), of now] by blast
  show ?thesis
    using ok r by (cases res) (auto simp: UpdateNode_def Let_def node'_def [symmetric])
qed

section \<open>Marks and nominations\<close>

lemma mark_ok:
  assumes ok: "cluster_ok E c" and one: "0 < quantity E 1" and n: "map_of (nodes c) pid = Some n"
  shows "\<exists>pools. updateNodePoolResources E (Some n) (Some (n \<lparr> markedForDeletion := b \<rparr>))
      (c \<lparr> nodes := AList.update pid (n \<lparr> markedForDeletion := b \<rparr>) (nodes c) \<rparr>) =
    Some (c \<lparr> nodes := AList.update pid (n \<lparr> markedForDeletion := b \<rparr>) (nodes c), nodePoolResources := pools \<rparr>) \<and>
    cluster_ok E (c \<lparr> nodes := AList.update pid (n \<lparr> markedForDeletion := b \<rparr>) (nodes c), nodePoolResources := pools \<rparr>)"
proof -
  let ?n = "n \<lparr> markedForDeletion := b \<rparr>"
  have pid: "pid \<noteq> []" using n cluster_okD(9) [OF ok] by auto
  have nok: "node_ok pid ?n" using cluster_okD(4) [OF ok n] by (simp add: node_ok_def present_def)
  obtain pools where pools: "movedResources E (Some n) (Some ?n) (nodePoolResources c) = Some pools"
    "resources_ok E (setEntry pid (Some ?n) (nodes c)) pools"
    using entry_step [OF ok one, of "Some n" pid "Some ?n"] n nok by auto
  let ?c = "c \<lparr> nodes := AList.update pid ?n (nodes c), nodePoolResources := pools \<rparr>"
  have "cluster_ok E ?c"
  proof (rule cluster_okI)
    show "indexed snNode nodeMetaName (map_of (nodes ?c)) (map_of (nodeNameToProviderID ?c))"
      using nodeIx.indexed_frame [OF cluster_okD(2) [OF ok] pid, of ?n] n by (simp add: setEntry_fun)
    show "indexed snNodeClaim ncName (map_of (nodes ?c)) (map_of (nodeClaimNameToProviderID ?c))"
      using claimIx.indexed_frame [OF cluster_okD(3) [OF ok] pid, of ?n] n by (simp add: setEntry_fun)
    show "pods_ok (map_of (nodes ?c)) (map_of (bindings ?c))"
      using pods_ok_frame [OF cluster_okD(6) [OF ok] n, of ?n] by (simp add: setEntry_fun)
    show "resources_ok E (nodes ?c) (nodePoolResources ?c)" using pools(2) by (simp add: setEntry_def)
    show "node_ok x m" if "map_of (nodes ?c) x = Some m" for x m
      using that nok cluster_okD(4) [OF ok] by (auto simp: gomap_simps split: if_splits)
  qed (use cluster_okD [OF ok] in auto)
  then show ?thesis using pools(1) by (intro exI [of _ pools]) (simp add: updateNodePoolResources_def)
qed

lemma pool_state_ok: "cluster_ok E c \<Longrightarrow> np_wf s \<Longrightarrow> cluster_ok E (c \<lparr> nodePoolState := s \<rparr>)"
  by (simp add: cluster_ok_def)

lemma MarkForDeletion_ok:
  "cluster_ok E c \<Longrightarrow> 0 < quantity E 1 \<Longrightarrow> \<exists>c'. MarkForDeletion E ids c = Some c' \<and> cluster_ok E c'"
proof (induction ids arbitrary: c)
  case (Cons pid ids)
  show ?case
  proof (cases "map_of (nodes c) pid")
    case None
    then show ?thesis using Cons by simp
  next
    case (Some n)
    obtain pools where u: "updateNodePoolResources E (Some n) (Some (n \<lparr> markedForDeletion := True \<rparr>))
        (c \<lparr> nodes := AList.update pid (n \<lparr> markedForDeletion := True \<rparr>) (nodes c) \<rparr>) =
      Some (c \<lparr> nodes := AList.update pid (n \<lparr> markedForDeletion := True \<rparr>) (nodes c), nodePoolResources := pools \<rparr>)"
      and ok: "cluster_ok E (c \<lparr> nodes := AList.update pid (n \<lparr> markedForDeletion := True \<rparr>) (nodes c), nodePoolResources := pools \<rparr>)"
      using mark_ok [OF Cons.prems Some, of True] by (elim exE conjE)
    show ?thesis
      using Cons.IH [OF _ Cons.prems(2)] ok pool_state_ok [OF ok mark_wf(2) [OF cluster_okD(7) [OF ok]]]
      by (cases "snNodeClaim n") (simp_all add: Some u Let_def)
  qed
qed simp

lemma UnmarkForDeletion_ok:
  "cluster_ok E c \<Longrightarrow> 0 < quantity E 1 \<Longrightarrow> \<exists>c'. UnmarkForDeletion E ids c = Some c' \<and> cluster_ok E c'"
proof (induction ids arbitrary: c)
  case (Cons pid ids)
  show ?case
  proof (cases "map_of (nodes c) pid")
    case None
    then show ?thesis using Cons by simp
  next
    case (Some n)
    obtain pools where u: "updateNodePoolResources E (Some n) (Some (n \<lparr> markedForDeletion := False \<rparr>))
        (c \<lparr> nodes := AList.update pid (n \<lparr> markedForDeletion := False \<rparr>) (nodes c) \<rparr>) =
      Some (c \<lparr> nodes := AList.update pid (n \<lparr> markedForDeletion := False \<rparr>) (nodes c), nodePoolResources := pools \<rparr>)"
      and ok: "cluster_ok E (c \<lparr> nodes := AList.update pid (n \<lparr> markedForDeletion := False \<rparr>) (nodes c), nodePoolResources := pools \<rparr>)"
      using mark_ok [OF Cons.prems Some, of False] by (elim exE conjE)
    show ?thesis
      using Cons.IH [OF _ Cons.prems(2)] ok pool_state_ok [OF ok mark_wf(1) [OF cluster_okD(7) [OF ok]]]
      by (cases "snNodeClaim n") (simp_all add: Some u Let_def)
  qed
qed simp

lemma NominateNodeForPod_ok:
  assumes ok: "cluster_ok E c"
  shows "cluster_ok E (NominateNodeForPod E' now pid c)"
proof (cases "map_of (nodes c) pid")
  case None
  then show ?thesis using ok by (simp add: NominateNodeForPod_def)
next
  case (Some n)
  let ?n = "Nominate E' now n"
  have core: "core ?n = core n" "podRequests ?n = podRequests n" "snNode ?n = snNode n"
    by (simp_all add: Nominate_def core_def)
  have "pods_ok ((map_of (nodes c))(pid \<mapsto> ?n)) (map_of (bindings c))"
    using pods_ok_frame [OF cluster_okD(6) [OF ok] Some core(2)] core(3) by simp
  then have "cluster_ok E (c \<lparr> nodes := AList.update pid ?n (nodes c) \<rparr>)"
    using replace_sums [OF cluster_okD(1) [OF ok] Some core(1)] cluster_okD(1) [OF ok]
    by (intro same_objects_ok [OF ok replace_same_objects [OF Some core(1)]]) (simp_all add: setEntry_fun)
  then show ?thesis by (simp add: NominateNodeForPod_def Some)
qed

section \<open>Histories\<close>

text \<open>What the controllers do to the state: the events of the watches, the marks of the disruption controller, the
  nominations of the provisioner, and the bookkeeping of the scheduling loop.\<close>

datatype 'q cluster_event =
  NodeClaimUpdated "'q node_claim" | NodeClaimDeleted string
| NodeUpdated "'q node" | NodeDeleted string
| PodUpdated pod | PodDeleted namespaced_name
| DaemonSetUpdated namespaced_name string "api_error + pod list" | DaemonSetDeleted namespaced_name
| Marked "string list" | Unmarked "string list" | NominatedFor string
| PodsAcked "pod list"
| PodsDecided "string \<Rightarrow> status_condition list" "pod list" "(string, pod list) gomap" "(string, pod list) gomap"
| BufferPodsCounted "(string, int) gomap"
| SyncChecked "string list option" "string list option"
| WasReset

fun apply_event :: "'q env \<Rightarrow> int \<Rightarrow> 'q cluster_event \<Rightarrow> 'q cluster \<Rightarrow> 'q::linordered_ab_group_add cluster option" where
  "apply_event E now (NodeClaimUpdated nc) c = ClusterUpdateNodeClaim E now nc c"
| "apply_event E now (NodeClaimDeleted name) c = DeleteNodeClaim E now name c"
| "apply_event E now (NodeUpdated node) c = map_option snd (UpdateNode E now node c)"
| "apply_event E now (NodeDeleted name) c = DeleteNode E now name c"
| "apply_event E now (PodUpdated p) c = Some (snd (UpdatePod E now p c))"
| "apply_event E now (PodDeleted key) c = Some (DeletePod now key c)"
| "apply_event E now (DaemonSetUpdated key uid listed) c = Some (snd (UpdateDaemonSet key uid listed c))"
| "apply_event E now (DaemonSetDeleted key) c = Some (DeleteDaemonSet key c)"
| "apply_event E now (Marked ids) c = MarkForDeletion E ids c"
| "apply_event E now (Unmarked ids) c = UnmarkForDeletion E ids c"
| "apply_event E now (NominatedFor pid) c = Some (NominateNodeForPod E now pid c)"
| "apply_event E now (PodsAcked ps) c = Some (AckPods now ps c)"
| "apply_event E now (PodsDecided conditionsOf errors npPods ncPods) c =
     Some (MarkPodSchedulingDecisions conditionsOf now errors npPods ncPods c)"
| "apply_event E now (BufferPodsCounted counts) c = Some (UpdateBufferPodCounts counts c)"
| "apply_event E now (SyncChecked claims listed) c = Some (snd (Synced now claims listed c))"
| "apply_event E now WasReset c = Some (ResetCluster c)"

fun event_allowed :: "'q cluster \<Rightarrow> 'q cluster_event \<Rightarrow> bool" where
  "event_allowed c (NodeClaimUpdated nc) = claim_allowed c nc"
| "event_allowed c (NodeUpdated node) = node_allowed c node"
| "event_allowed c _ = True"

text \<open>The reads of the API server may change from one event to the next; the quantities do not.\<close>

definition reads_of :: "'q env \<Rightarrow> 'q::linordered_ab_group_add env \<Rightarrow> bool" where
  "reads_of E E' \<longleftrightarrow> quantity E' = quantity E \<and> lists_bound_pods E'"

inductive cluster_reachable :: "'q env \<Rightarrow> 'q::linordered_ab_group_add cluster \<Rightarrow> bool" for E where
  start: "(\<And>m. matcher = Some m \<Longrightarrow> matcher_ok m) \<Longrightarrow> cluster_reachable E (NewCluster matcher)"
| event: "cluster_reachable E c \<Longrightarrow> reads_of E E' \<Longrightarrow> event_allowed c ev \<Longrightarrow>
    apply_event E' now ev c = Some c' \<Longrightarrow> cluster_reachable E c'"

lemma share_env:
  assumes "quantity E' = quantity E"
  shows "share E' n = share E n"
  unfolding share_def poolShare_def Capacity_def by (simp only: assms)

lemma cluster_ok_env:
  assumes "quantity E' = quantity E"
  shows "cluster_ok E' c = cluster_ok E c"
proof -
  have "contribution E' = contribution E" unfolding contribution_def share_env [OF assms] ..
  then have "poolSum E' = poolSum E" unfolding poolSum_def by (simp only:)
  then show ?thesis by (simp only: cluster_ok_def resources_ok_def)
qed

text \<open>The part of the state that the invariant reads.\<close>

definition invariantPart ::
  "'q cluster \<Rightarrow> (string, 'q state_node) gomap \<times> (namespaced_name, string) gomap \<times> (string, string) gomap \<times>
   (string, string) gomap \<times> (string, 'q resource_list) gomap \<times> repair_policy_matcher option \<times> node_pool_state" where
  "invariantPart c = (nodes c, bindings c, nodeNameToProviderID c, nodeClaimNameToProviderID c, nodePoolResources c,
     repairPolicyMatcher c, nodePoolState c)"

lemma cluster_ok_tracked: "invariantPart c' = invariantPart c \<Longrightarrow> cluster_ok E c \<Longrightarrow> cluster_ok E c'"
  by (simp add: cluster_ok_def invariantPart_def)

lemma tracked_markFailed: "invariantPart (fold (markFailed now) ps c) = invariantPart c"
  by (rule fold_keeps) (simp add: markFailed_def invariantPart_def)

lemma tracked_markSchedulable: "invariantPart (fold (markSchedulable now h) ps c) = invariantPart c"
  by (rule fold_keeps) (simp add: markSchedulable_def invariantPart_def)

lemma tracked_decisions: "invariantPart (MarkPodSchedulingDecisions conditionsOf now errors npPods ncPods c) = invariantPart c"
proof -
  have "invariantPart (fold (\<lambda>(np, pods).
      let healthy = (np \<noteq> [] \<and> conditionIsTrue (getCondition ConditionTypeNodeRegistrationHealthy (conditionsOf np)))
      in fold (markSchedulable now healthy) pods) npPods c1) = invariantPart c1" for c1 :: "'a cluster"
    by (rule fold_keeps) (simp add: Let_def tracked_markSchedulable split: prod.split)
  then show ?thesis
    using tracked_markFailed [of now errors c]
    by (simp add: MarkPodSchedulingDecisions_def Let_def UpdatePodToNodeClaimMapping_def invariantPart_def)
qed

lemma tracked_record: "invariantPart (recordSynced now synced c) = invariantPart c"
  by (simp add: recordSynced_def Let_def invariantPart_def)

lemma tracked_check: "invariantPart (snd (checkSynced claims listed c)) = invariantPart c"
  by (cases claims; cases listed; simp add: checkSynced_def Let_def invariantPart_def)

lemma tracked_synced: "invariantPart (snd (Synced now claims listed c)) = invariantPart c"
  using tracked_check [of claims listed c]
  by (cases "checkSynced claims listed c") (simp add: Synced_def tracked_record)

lemma tracked_daemonset: "invariantPart (snd (UpdateDaemonSet key uid listed c)) = invariantPart c"
  by (auto simp: UpdateDaemonSet_def invariantPart_def split: sum.splits option.splits)

lemma tracked_rest:
  "invariantPart (AckPods now ps c) = invariantPart c" "invariantPart (UpdateBufferPodCounts counts c) = invariantPart c"
  "invariantPart (DeleteDaemonSet key c) = invariantPart c"
  by (simp_all add: invariantPart_def AckPods_def UpdateBufferPodCounts_def DeleteDaemonSet_def)

lemma Reset_ok: "cluster_ok E c \<Longrightarrow> cluster_ok E (ResetCluster c)"
  using cluster_okD(8) [of E c]
  by (intro cluster_okI)
     (auto simp: ResetCluster_def indexed_def resources_ok_def pods_ok_def poolSum_def gomap_simps reset_wf)

lemma apply_event_ok:
  assumes ok: "cluster_ok E c" and one: "0 < quantity E 1" and lists: "lists_bound_pods E" and allowed: "event_allowed c ev"
  shows "\<exists>c'. apply_event E now ev c = Some c' \<and> cluster_ok E c'"
proof (cases ev)
  case (NodeClaimUpdated nc)
  then show ?thesis using ClusterUpdateNodeClaim_ok [OF ok one, of nc now] allowed by simp
next
  case (NodeClaimDeleted name)
  then show ?thesis using cleanupNodeClaim_ok [OF ok one, of now name] by (auto simp: DeleteNodeClaim_def)
next
  case (NodeUpdated node)
  then show ?thesis using UpdateNode_ok [OF ok one lists, of node now] allowed by auto
next
  case (NodeDeleted name)
  then show ?thesis using cleanupNode_ok [OF ok one, of now name] by (auto simp: DeleteNode_def)
next
  case (PodsDecided conditionsOf errors npPods ncPods)
  then show ?thesis using cluster_ok_tracked [OF tracked_decisions ok] by simp
next
  case (SyncChecked claims listed)
  then show ?thesis using cluster_ok_tracked [OF tracked_synced ok] by simp
next
  case (DaemonSetUpdated key uid listed)
  then show ?thesis using cluster_ok_tracked [OF tracked_daemonset ok] by simp
qed (use ok one MarkForDeletion_ok UnmarkForDeletion_ok tracked_rest [THEN cluster_ok_tracked, OF ok] in
      \<open>simp_all add: UpdatePod_ok DeletePod_ok NominateNodeForPod_ok Reset_ok\<close>)

lemma reachable_ok:
  assumes "cluster_reachable E c" "0 < quantity E 1"
  shows "cluster_ok E c"
  using assms(1)
proof (induction rule: cluster_reachable.induct)
  case (start matcher)
  then show ?case by (rule NewCluster_ok)
next
  case (event c E' ev now c')
  have q: "quantity E' = quantity E" and l: "lists_bound_pods E'" using event by (simp_all add: reads_of_def)
  obtain c'' where "apply_event E' now ev c = Some c''" "cluster_ok E' c''"
    using apply_event_ok [of E' c ev now] event(5) cluster_ok_env [OF q] q l event(3) assms(2) by auto
  then show ?case using event(4) cluster_ok_env [OF q] by simp
qed

section \<open>What the invariant says of the resources\<close>

definition nodePoolOf :: "'q state_node \<Rightarrow> string" where
  "nodePoolOf n = (case snLabels n of None \<Rightarrow> [] | Some labels \<Rightarrow> get_or [] labels NodePoolLabelKey)"

definition countedCapacity :: "'q env \<Rightarrow> string \<Rightarrow> string \<Rightarrow> 'q state_node \<Rightarrow> 'q::linordered_ab_group_add" where
  "countedCapacity E pool r n =
     (if nodePoolOf n = pool \<and> \<not> MarkedForDeletion n
      then (case Capacity E n of None \<Rightarrow> 0 | Some rs \<Rightarrow> qty rs r) else 0)"

lemma Capacity_has_node:
  assumes "Capacity E n = Some rs"
  shows "map_of rs NodeResource = Some (quantity E 1)"
  using assms by (auto simp: Capacity_def Let_def assignMap_def gomap_simps split: option.splits if_splits)

lemma share_present:
  assumes "present n" "Capacity E n = Some rs"
  shows "fst (share E (Some n)) = nodePoolOf n"
    and "snd (share E (Some n)) = (if MarkedForDeletion n then [] else AList.update NodeResource (quantity E 1) rs)"
proof -
  obtain labels where l: "snLabels n = Some labels"
    using represented_present [of ncLabels nodeLabels n] assms(1) by (auto simp: snLabels_def)
  have "rs \<noteq> []" using Capacity_has_node [OF assms(2)] by auto
  then have "poolShare E (Some n) = Some (nodePoolOf n,
      if MarkedForDeletion n then [] else AList.update NodeResource (quantity E 1) rs)"
    using assms l by (auto simp: poolShare_def present_def nodePoolOf_def Let_def)
  then show "fst (share E (Some n)) = nodePoolOf n"
    "snd (share E (Some n)) = (if MarkedForDeletion n then [] else AList.update NodeResource (quantity E 1) rs)"
    by (simp_all add: share_def)
qed

lemma contribution_counted:
  assumes "present n"
  shows "contribution E pool r (Some n) = countedCapacity E pool r n"
proof -
  obtain rs where rs: "Capacity E n = Some rs" using Capacity_present [of E n] assms by auto
  have "qty (AList.update NodeResource (quantity E 1) rs) r = qty rs r"
    using Capacity_has_node [OF rs] by (auto simp: get_or_def gomap_simps)
  then show ?thesis using share_present [OF assms rs] rs
    by (auto simp: contribution_def countedCapacity_def gomap_simps)
qed

lemma poolSum_counted:
  assumes "cluster_ok E c"
  shows "poolSum E (nodes c) pool r = (\<Sum>(_, n) \<leftarrow> nodes c. countedCapacity E pool r n)"
proof -
  have "contribution E pool r (Some n) = countedCapacity E pool r n" if "(pid, n) \<in> set (nodes c)" for pid n
    using cluster_okD(4) [OF assms, of pid n] cluster_okD(1) [OF assms] that contribution_counted
    by (auto simp: node_ok_def gomap_wf_def)
  then have "map (\<lambda>(_, n). contribution E pool r (Some n)) (nodes c) = map (\<lambda>(_, n). countedCapacity E pool r n) (nodes c)"
    by (intro map_cong) auto
  then show ?thesis unfolding poolSum_def by (simp only:)
qed

lemma stored_present:
  assumes "cluster_ok E c" "(pid, n) \<in> set (nodes c)"
  shows "map_of (nodes c) pid = Some n" "present n"
  using cluster_okD(1,4) [OF assms(1)] assms(2) by (auto simp: gomap_wf_def node_ok_def)

lemma resources_okD:
  assumes "resources_ok E m pools"
  shows "map_of pools pool = Some rs \<Longrightarrow> gomap_wf rs" "map_of pools pool = Some rs \<Longrightarrow> \<not> allZero rs"
    "pool \<noteq> [] \<Longrightarrow> qty (get_or [] pools pool) r = poolSum E m pool r"
  using assms by (simp_all add: resources_ok_def)

lemma entry_iff_active:
  assumes ok: "cluster_ok E c" and one: "0 < quantity E 1" and pool: "pool \<noteq> []"
  shows "map_of (nodePoolResources c) pool \<noteq> None \<longleftrightarrow>
    (\<exists>pid n. map_of (nodes c) pid = Some n \<and> nodePoolOf n = pool \<and> \<not> MarkedForDeletion n)"
proof
  note res = resources_okD [OF cluster_okD(5) [OF ok]]
  assume "map_of (nodePoolResources c) pool \<noteq> None"
  then obtain rs where rs: "map_of (nodePoolResources c) pool = Some rs" by auto
  obtain r v where rv: "(r, v) \<in> set rs" "v \<noteq> 0" using res(2) [OF rs] by (auto simp: allZero_def list_all_iff)
  then have "map_of rs r = Some v" using res(1) [OF rs] by (simp add: gomap_wf_def)
  then have "qty rs r \<noteq> 0" using rv(2) by (simp add: get_or_def)
  moreover have "get_or [] (nodePoolResources c) pool = rs" using rs by (simp add: get_or_def)
  ultimately have "poolSum E (nodes c) pool r \<noteq> 0" using res(3) [OF pool, of r] by simp
  then obtain pid n where n: "(pid, n) \<in> set (nodes c)" "fst (share E (Some n)) = pool" "snd (share E (Some n)) \<noteq> []"
    by (rule poolSum_active)
  note p = stored_present [OF ok n(1)]
  obtain cap where cap: "Capacity E n = Some cap" using Capacity_present [of E n] p(2) by auto
  have "nodePoolOf n = pool" "\<not> MarkedForDeletion n"
    using n(2,3) share_present [OF p(2) cap] by (auto split: if_splits)
  then show "\<exists>pid n. map_of (nodes c) pid = Some n \<and> nodePoolOf n = pool \<and> \<not> MarkedForDeletion n"
    using p(1) by blast
next
  assume "\<exists>pid n. map_of (nodes c) pid = Some n \<and> nodePoolOf n = pool \<and> \<not> MarkedForDeletion n"
  then obtain pid n where n: "map_of (nodes c) pid = Some n" "nodePoolOf n = pool" "\<not> MarkedForDeletion n" by blast
  have p: "present n" using cluster_okD(4) [OF ok n(1)] by (simp add: node_ok_def)
  obtain cap where cap: "Capacity E n = Some cap" using Capacity_present [of E n] p by auto
  have "0 < poolSum E (nodes c) pool NodeResource"
    by (rule poolSum_positive [OF one map_of_SomeD [OF n(1)]]) (simp_all add: share_present [OF p cap] n)
  then have "qty (get_or [] (nodePoolResources c) pool) NodeResource \<noteq> 0"
    using resources_okD(3) [OF cluster_okD(5) [OF ok] pool] by simp
  then show "map_of (nodePoolResources c) pool \<noteq> None"
    by (cases "map_of (nodePoolResources c) pool") (simp_all add: get_or_def)
qed

section \<open>A history\<close>

text \<open>A node of a pool joins the empty cluster and a pod is bound to it.\<close>

definition examplePoolNode :: "int node" where
  "examplePoolNode = (exampleNode ''n'')
     \<lparr> nodeLabels := [(NodePoolLabelKey, ''default''), (LabelInstanceTypeStable, ''large'')] \<rparr>"

definition exampleBoundPod :: pod where
  "exampleBoundPod = (emptyPod ''a'') \<lparr> nodeName := ''n'' \<rparr>"

lemma exampleEnv_one: "0 < quantity exampleEnv 1"
  by (simp add: exampleEnv_def)

lemma exampleEnv_reads: "reads_of exampleEnv exampleEnv"
  by (simp add: reads_of_def lists_bound_pods_def exampleEnv_def)

lemma example_start: "cluster_reachable exampleEnv (NewCluster None)"
  by (rule cluster_reachable.start) simp

definition exampleStateNode :: "int state_node" where
  "exampleStateNode = NewNode \<lparr> snNode := Some examplePoolNode \<rparr>"

lemma examplePoolNode_fields:
  "nodeMetaName examplePoolNode = ''n''" "nodeProviderID examplePoolNode = ''n''" "nodeDeletion examplePoolNode = None"
  "nodeCapacity examplePoolNode = [(ResourceCPU, 8)]"
  "get_or [] (nodeLabels examplePoolNode) NodePoolLabelKey = ''default''"
  "get_or [] (nodeLabels examplePoolNode) LabelInstanceTypeStable = ''large''"
  by (simp_all add: examplePoolNode_def exampleNode_def get_or_def NodePoolLabelKey_def LabelInstanceTypeStable_def Group_def)

lemma exampleStateNode_fields:
  "snNode exampleStateNode = Some examplePoolNode" "snNodeClaim exampleStateNode = None" "podRequests exampleStateNode = []"
  "\<not> MarkedForDeletion exampleStateNode" "nodePoolOf exampleStateNode = ''default''"
  "Capacity exampleEnv exampleStateNode = Some [(ResourceCPU, 8), (NodeResource, 1)]"
  by (simp_all add: exampleStateNode_def NewNode_def MarkedForDeletion_def Deleted_def nodePoolOf_def snLabels_def
      represented_def Capacity_def examplePoolNode_fields assignMap_def exampleEnv_def ResourceCPU_def NodeResource_def)

lemma example_allowed: "event_allowed (NewCluster None) (NodeUpdated examplePoolNode)"
  by (simp add: node_allowed_def NewCluster_def examplePoolNode_fields gomap_wf_def)

lemma exampleEnv_lists: "listPodsOn exampleEnv name = Inr []" "csiDrivers exampleEnv name = Inl NotFound"
  by (simp_all add: exampleEnv_def)

lemma example_updated_fields:
  assumes "UpdateNode exampleEnv 0 examplePoolNode (NewCluster None) = Some (errs, c)"
  shows "errs = [] \<and> nodes c = [(''n'', exampleStateNode)] \<and> nodeNameToProviderID c = [(''n'', ''n'')] \<and> bindings c = [] \<and>
     nodeClaimNameToProviderID c = [] \<and> repairPolicyMatcher c = None"
  using assms
  by (auto simp: UpdateNode_def newStateFromNode_def NewCluster_def Let_def examplePoolNode_fields exampleEnv_lists
      matchRepairPolicies_def populateResourceRequests_def populateVolumeLimits_def updateNodePoolResources_def
      exampleStateNode_def NewNode_def triggerConsolidationOnChange_def MarkUnconsolidated_def
      split: bind_split_asm)

lemma example_updated:
  "\<exists>c. UpdateNode exampleEnv 0 examplePoolNode (NewCluster None) = Some ([], c) \<and> cluster_reachable exampleEnv c \<and>
     nodes c = [(''n'', exampleStateNode)] \<and> nodeNameToProviderID c = [(''n'', ''n'')] \<and> bindings c = [] \<and>
     nodeClaimNameToProviderID c = [] \<and> repairPolicyMatcher c = None"
proof -
  have "lists_bound_pods exampleEnv" "node_allowed (NewCluster None) examplePoolNode"
    using exampleEnv_reads example_allowed by (simp_all add: reads_of_def)
  then obtain errs c where c: "UpdateNode exampleEnv 0 examplePoolNode (NewCluster None) = Some (errs, c)"
    using UpdateNode_ok [OF reachable_ok [OF example_start exampleEnv_one] exampleEnv_one] by blast
  then have "apply_event exampleEnv 0 (NodeUpdated examplePoolNode) (NewCluster None) = Some c" by simp
  then have "cluster_reachable exampleEnv c"
    by (rule cluster_reachable.event [OF example_start exampleEnv_reads example_allowed])
  then show ?thesis using c example_updated_fields [OF c] by auto
qed

lemma example_binds:
  "\<exists>c n. cluster_reachable exampleEnv c \<and> map_of (nodes c) ''n'' = Some n \<and> snNode n = Some examplePoolNode \<and>
     map_of (podRequests n) (podKey exampleBoundPod) \<noteq> None \<and> nodeClaimNameToProviderID c = []"
proof -
  obtain c where c: "cluster_reachable exampleEnv c" "nodes c = [(''n'', exampleStateNode)]"
    "nodeNameToProviderID c = [(''n'', ''n'')]" "bindings c = []" "nodeClaimNameToProviderID c = []" using example_updated by blast
  have vols: "GetVolumes exampleKube exampleBoundPod = Inr []"
    by (simp add: GetVolumes_def exampleBoundPod_def emptyPod_def)
  obtain n where n: "updateForPod exampleEnv exampleBoundPod exampleStateNode = Inr n"
    using vols by (auto simp: updateForPod_def Let_def exampleEnv_def)
  have pod: "nodeName exampleBoundPod = ''n''" "\<not> IsTerminal exampleBoundPod"
    by (simp_all add: exampleBoundPod_def emptyPod_def IsTerminal_def)
  let ?c = "snd (UpdatePod exampleEnv 1 exampleBoundPod c)"
  have "cluster_reachable exampleEnv ?c"
    by (rule cluster_reachable.event [OF c(1) exampleEnv_reads, of "PodUpdated exampleBoundPod"]) simp_all
  moreover have "nodes ?c = [(''n'', n)]" "nodeClaimNameToProviderID ?c = []"
    by (simp_all add: UpdatePod_def updateNodeUsageFromPod_def pod c get_or_def n bindPod_def cleanupOldBindings_def
        updatePodAntiAffinities_def MarkUnconsolidated_def Let_def)
  moreover have "snNode n = Some examplePoolNode" "map_of (podRequests n) (podKey exampleBoundPod) \<noteq> None"
    using updateForPod_fields [OF n] by (simp_all add: exampleStateNode_fields gomap_simps)
  ultimately show ?thesis by (intro exI [of _ ?c] exI [of _ n]) simp
qed

section \<open>Properties\<close>

text \<open>
  C3. In every history in which provider identifiers are unique, no event of the watches and no operation of the
  controllers panics, whatever the API server answers: no dereference of a nil state node, no write to the resources of a
  node pool that has no entry.\<close>
theorem cluster_events_never_panic:
  assumes "cluster_reachable E c" and "0 < quantity E 1" and "reads_of E E'" and "event_allowed c ev"
  shows "\<exists>c'. apply_event E' now ev c = Some c' \<and> cluster_reachable E c'"
proof -
  have q: "quantity E' = quantity E" "lists_bound_pods E'" using assms(3) by (simp_all add: reads_of_def)
  then obtain c' where "apply_event E' now ev c = Some c'"
    using apply_event_ok [of E' c ev now] reachable_ok [OF assms(1,2)] cluster_ok_env [OF q(1)] assms(2,4) by auto
  then show ?thesis using cluster_reachable.event [OF assms(1,3,4)] by blast
qed

theorem cluster_events_never_panic_witness:
  "\<exists>c'. apply_event exampleEnv 0 (NodeUpdated examplePoolNode) (NewCluster None) = Some c' \<and> cluster_reachable exampleEnv c'"
  using cluster_events_never_panic [OF example_start exampleEnv_one exampleEnv_reads example_allowed] .

text \<open>
  C4. The resources recorded for a node pool are, in every such history, the sum of the capacities of its nodes that are
  not marked for deletion, however nodes and node claims came, changed and went; and a node pool has an entry exactly when
  it has such a node.\<close>
theorem node_pool_resources_are_exact:
  assumes "cluster_reachable E c" and "0 < quantity E 1" and "pool \<noteq> []"
  shows "qty (NodePoolResourcesFor pool c) r = (\<Sum>(_, n) \<leftarrow> nodes c. countedCapacity E pool r n) \<and>
    (map_of (nodePoolResources c) pool \<noteq> None \<longleftrightarrow>
      (\<exists>pid n. map_of (nodes c) pid = Some n \<and> nodePoolOf n = pool \<and> \<not> MarkedForDeletion n))"
proof -
  have ok: "cluster_ok E c" using reachable_ok [OF assms(1,2)] .
  have "qty (NodePoolResourcesFor pool c) r = (\<Sum>(_, n) \<leftarrow> nodes c. countedCapacity E pool r n)"
    using resources_okD(3) [OF cluster_okD(5) [OF ok] assms(3)] poolSum_counted [OF ok]
    by (simp add: NodePoolResourcesFor_def)
  then show ?thesis using entry_iff_active [OF ok assms(2,3)] by simp
qed

theorem node_pool_resources_are_exact_witness:
  "\<exists>c. cluster_reachable exampleEnv c \<and> qty (NodePoolResourcesFor ''default'' c) ResourceCPU = 8 \<and>
     qty (NodePoolResourcesFor ''default'' c) NodeResource = 1"
proof -
  obtain c where c: "cluster_reachable exampleEnv c" "nodes c = [(''n'', exampleStateNode)]" using example_updated by blast
  then show ?thesis
    using node_pool_resources_are_exact [OF c(1) exampleEnv_one, of "''default''" ResourceCPU]
      node_pool_resources_are_exact [OF c(1) exampleEnv_one, of "''default''" NodeResource]
    by (intro exI [of _ c])
       (simp add: countedCapacity_def exampleStateNode_fields get_or_def ResourceCPU_def NodeResource_def)
qed

text \<open>
  C6. The indexes by name are exact in every such history: a Node's name leads to a provider identifier exactly when the
  state node stored under it holds that Node, likewise for NodeClaims, and so a name leads to one state node only.\<close>
theorem cluster_indexes_are_exact:
  assumes "cluster_reachable E c" and "0 < quantity E 1" and "pid \<noteq> []"
  shows "(map_of (nodeNameToProviderID c) name = Some pid \<longleftrightarrow>
       (\<exists>n nd. map_of (nodes c) pid = Some n \<and> snNode n = Some nd \<and> nodeMetaName nd = name)) \<and>
     (map_of (nodeClaimNameToProviderID c) name = Some pid \<longleftrightarrow>
       (\<exists>n nc. map_of (nodes c) pid = Some n \<and> snNodeClaim n = Some nc \<and> ncName nc = name))"
  by (rule conjI [OF nodeIx.indexed_iff [OF cluster_okD(2) [OF reachable_ok [OF assms(1,2)]] assms(3)]
        claimIx.indexed_iff [OF cluster_okD(3) [OF reachable_ok [OF assms(1,2)]] assms(3)]])

theorem cluster_indexes_are_exact_witness:
  "\<exists>c. cluster_reachable exampleEnv c \<and> map_of (nodeNameToProviderID c) ''n'' = Some ''n'' \<and>
     map_of (nodeClaimNameToProviderID c) ''n'' \<noteq> Some ''n''"
proof -
  obtain c where c: "cluster_reachable exampleEnv c" "nodes c = [(''n'', exampleStateNode)]" using example_updated by blast
  then show ?thesis
    using cluster_indexes_are_exact [OF c(1) exampleEnv_one, of "''n''" "''n''"]
    by (intro exI [of _ c]) (simp add: exampleStateNode_fields examplePoolNode_fields)
qed

text \<open>
  C7. A pod is counted on at most one Node, the one it is bound to: when two state nodes with Nodes both count it they
  are the same.\<close>
theorem pod_is_counted_once:
  assumes "cluster_reachable E c" and "0 < quantity E 1"
    and "map_of (nodes c) pid = Some n" and "snNode n = Some nd" and "map_of (podRequests n) key \<noteq> None"
    and "map_of (nodes c) pid' = Some n'" and "snNode n' = Some nd'" and "map_of (podRequests n') key \<noteq> None"
  shows "map_of (bindings c) key = Some (nodeMetaName nd) \<and> pid' = pid"
proof -
  have ok: "cluster_ok E c" using reachable_ok [OF assms(1,2)] .
  note b = pods_okD [OF cluster_okD(6) [OF ok] assms(3-5)] pods_okD [OF cluster_okD(6) [OF ok] assms(6-8)]
  then have "nodeMetaName nd' = nodeMetaName nd" by simp
  then show ?thesis
    using b(1) nodeIx.indexed_name [OF cluster_okD(2) [OF ok] assms(3,4)]
      nodeIx.indexed_name [OF cluster_okD(2) [OF ok] assms(6,7)] by simp
qed

theorem pod_is_counted_once_witness:
  "\<exists>c. cluster_reachable exampleEnv c \<and> map_of (bindings c) (podKey exampleBoundPod) = Some ''n''"
proof -
  obtain c n where c: "cluster_reachable exampleEnv c" "map_of (nodes c) ''n'' = Some n" "snNode n = Some examplePoolNode"
    "map_of (podRequests n) (podKey exampleBoundPod) \<noteq> None" using example_binds by blast
  then show ?thesis
    using pod_is_counted_once [OF c(1) exampleEnv_one c(2-4) c(2-4)] by (auto simp: examplePoolNode_fields)
qed

text \<open>
  C37. An update of a NodeClaim makes the state node forget what disrupting its pods costs: the pods stay counted but the
  disruption cost falls back to that of an empty node.\<close>
theorem claim_update_forgets_disruption_costs:
  assumes "statusProviderID (ncStatus nc) = pid" and "pid \<noteq> []" and "map_of (nodes c) pid = Some old"
    and "ClusterUpdateNodeClaim E now nc c = Some c'"
  shows "\<exists>n. map_of (nodes c') pid = Some n \<and> podRequests n = podRequests old \<and> DisruptionCost n = PerNodeBaseDisruptionCost"
  using assms
  by (auto simp: ClusterUpdateNodeClaim_def newStateFromNodeClaim_def Let_def gomap_simps DisruptionCost_def
      split: bind_split_asm)

definition exampleClaim :: "int node_claim" where
  "exampleClaim = exampleAgingClaim
     \<lparr> ncName := ''c'', ncStatus := ncStatus exampleAgingClaim \<lparr> statusProviderID := ''n'', statusCapacity := [] \<rparr> \<rparr>"

theorem claim_update_forgets_disruption_costs_witness:
  "\<exists>c c' old n. map_of (nodes c) ''n'' = Some old \<and> map_of (podRequests old) (podKey exampleBoundPod) \<noteq> None \<and>
     ClusterUpdateNodeClaim exampleEnv 2 exampleClaim c = Some c' \<and> map_of (nodes c') ''n'' = Some n \<and>
     map_of (podRequests n) (podKey exampleBoundPod) \<noteq> None \<and> DisruptionCost n = PerNodeBaseDisruptionCost"
proof -
  obtain c old where c: "cluster_reachable exampleEnv c" "map_of (nodes c) ''n'' = Some old" "nodeClaimNameToProviderID c = []"
    "map_of (podRequests old) (podKey exampleBoundPod) \<noteq> None" using example_binds by blast
  have "claim_allowed c exampleClaim" by (simp add: claim_allowed_def exampleClaim_def c(3) gomap_wf_def)
  then obtain c' where c': "ClusterUpdateNodeClaim exampleEnv 2 exampleClaim c = Some c'"
    using ClusterUpdateNodeClaim_ok [OF reachable_ok [OF c(1) exampleEnv_one] exampleEnv_one] by blast
  have "statusProviderID (ncStatus exampleClaim) = ''n''" by (simp add: exampleClaim_def)
  then show ?thesis
    using claim_update_forgets_disruption_costs [OF _ _ c(2) c'] c(2,4) c' by fastforce
qed

text \<open>
  C38. When two Nodes are stored under one provider identifier with no NodeClaim, deleting the first drops the state node
  of both, and deleting the second dereferences a nil state node.\<close>
theorem shared_provider_id_panics:
  assumes "map_of (nodeNameToProviderID c) a = Some pid" and "map_of (nodeNameToProviderID c) b = Some pid" and "a \<noteq> b"
    and "pid \<noteq> []" and "map_of (nodes c) pid = Some n" and "snNodeClaim n = None" and "DeleteNode E now a c = Some c'"
  shows "map_of (nodes c') pid = None \<and> DeleteNode E now' b c' = None"
  using assms
  by (auto simp: DeleteNode_def cleanupNode_def Let_def get_or_def updateNodePoolResources_def MarkUnconsolidated_def
      gomap_simps split: bind_split_asm)

theorem shared_provider_id_panics_witness:
  "\<exists>c1 c2 c3. UpdateNode exampleEnv 0 examplePoolNode (NewCluster None) = Some ([], c1) \<and>
     UpdateNode exampleEnv 1 (examplePoolNode \<lparr> nodeMetaName := ''m'' \<rparr>) c1 = Some ([], c2) \<and>
     DeleteNode exampleEnv 2 ''n'' c2 = Some c3 \<and> DeleteNode exampleEnv 3 ''m'' c3 = None"
proof -
  let ?m = "examplePoolNode \<lparr> nodeMetaName := ''m'' \<rparr>"
  let ?n = "NewNode \<lparr> snNode := Some ?m \<rparr>"
  obtain c1 where c1: "UpdateNode exampleEnv 0 examplePoolNode (NewCluster None) = Some ([], c1)"
    "cluster_reachable exampleEnv c1" "nodes c1 = [(''n'', exampleStateNode)]" "nodeNameToProviderID c1 = [(''n'', ''n'')]"
    "repairPolicyMatcher c1 = None" using example_updated by blast
  have ok: "cluster_ok exampleEnv c1" using reachable_ok [OF c1(2) exampleEnv_one] .
  have nok: "node_ok ''n'' ?n"
    by (simp add: node_ok_def present_def examplePoolNode_fields NewNode_def gomap_wf_def)
  obtain pools where pools: "movedResources exampleEnv (Some exampleStateNode) (Some ?n) (nodePoolResources c1) = Some pools"
    "resources_ok exampleEnv (setEntry ''n'' (Some ?n) (nodes c1)) pools"
    using entry_step [OF ok exampleEnv_one, of "Some exampleStateNode" "''n''" "Some ?n"] nok c1(3) by auto
  obtain t where t: "triggerConsolidationOnChange 1 (Some exampleStateNode) (Some ?n) (c1 \<lparr> nodePoolResources := pools \<rparr>) =
      c1 \<lparr> nodePoolResources := pools, clusterState := t \<rparr>" by (rule trigger_cases)
  define c2 where "c2 = c1 \<lparr> nodePoolResources := pools, clusterState := t, nodes := [(''n'', ?n)],
    nodeNameToProviderID := [(''n'', ''n''), (''m'', ''n'')] \<rparr>"
  have state: "NewNode \<lparr> snNode := Some ?m, snNodeClaim := snNodeClaim exampleStateNode,
      markedForDeletion := markedForDeletion exampleStateNode, nominatedUntil := nominatedUntil exampleStateNode,
      repairPolicyMatches := [] \<rparr> = ?n" by (simp add: exampleStateNode_def NewNode_def)
  have u2: "UpdateNode exampleEnv 1 ?m c1 = Some ([], c2)"
    using pools(1) t state
    by (simp add: UpdateNode_def newStateFromNode_def c1 Let_def examplePoolNode_fields exampleEnv_lists
        matchRepairPolicies_def populateResourceRequests_def populateVolumeLimits_def updateNodePoolResources_def c2_def)
  obtain pools' where "movedResources exampleEnv (Some ?n) None pools = Some pools'"
    using resources_step [OF pools(2) _ exampleEnv_one, of "Some ?n" "''n''" None] node_ok_share_wf [OF nok]
    by (auto simp: c1(3) setEntry_def share_None gomap_wf_def)
  then obtain c3 where c3: "DeleteNode exampleEnv 2 ''n'' c2 = Some c3"
    by (simp add: DeleteNode_def cleanupNode_def c2_def Let_def get_or_def updateNodePoolResources_def NewNode_def)
  have "DeleteNode exampleEnv 3 ''m'' c3 = None"
    using shared_provider_id_panics [OF _ _ _ _ _ _ c3, of "''n''" "''m''" ?n] by (simp add: c2_def NewNode_def)
  then show ?thesis using c1(1) u2 c3 by blast
qed

end
