(* ===== verification/Spec2Isabelle.thy ===== *)
theory Spec2Isabelle
  imports Requirements Taints HostPorts Volumes Resources NodePoolHealth InstanceTypes NodePoolState
    Reservations Preferences SchedQueue TopologyGroup PodUtils RepairPolicy Api Validation ClusterSafety
begin

text \<open>
  A verification development for Karpenter, the Kubernetes node autoscaler.

  \<^bold>\<open>Theories.\<close>
  \<^item> \<open>Prelude\<close>: Go maps, machine integers, \<^verbatim>\<open>strconv\<close> and \<^verbatim>\<open>strings\<close>.
  \<^item> \<open>Labels\<close>: \<^verbatim>\<open>pkg/apis/v1/labels.go\<close>.
  \<^item> \<open>Requirement\<close>: \<^verbatim>\<open>pkg/scheduling/requirement.go\<close>.
\<close>

end
